(* ===== verification/Prelude.thy ===== *)
theory Prelude
  imports Main "HOL-Library.Word" "HOL-Library.Monad_Syntax" "HOL-Library.Sublist"
begin

text \<open>
  Shared vocabulary of the development: the machine types of the target (a 32-bit ARM core, so
  \<open>size_t\<close> and \<open>int\<close> are 32 bits wide), byte arrays with checked reads and writes,
  big-endian numbers, and the word and list lemmas every component uses.

  C memory accesses that may leave an array are functions into \<open>option\<close>: the value
  \<open>None\<close> stands for an access outside the array (undefined behaviour in C), so that "the code
  never does this" is a statement \<open>f x = Some y\<close>.
\<close>

unbundle bit_operations_syntax

type_synonym byte = "8 word"
type_synonym u16 = "16 word"
type_synonym u32 = "32 word"
type_synonym size_t = "32 word"
type_synonym bytes = "8 word list"

named_theorems mem_simps \<open>rewrite rules for checked array accesses\<close>
named_theorems be_simps \<open>rewrite rules for big-endian numbers\<close>


section \<open>Checked access to byte arrays\<close>

definition read_at :: "'a list \<Rightarrow> nat \<Rightarrow> 'a option" where
  "read_at xs i = (if i < length xs then Some (xs ! i) else None)"

definition read_block :: "'a list \<Rightarrow> nat \<Rightarrow> nat \<Rightarrow> 'a list option" where
  "read_block xs off n = (if off + n \<le> length xs then Some (take n (drop off xs)) else None)"

definition write_block :: "'a list \<Rightarrow> nat \<Rightarrow> 'a list \<Rightarrow> 'a list option" where
  "write_block dst off src =
     (if off + length src \<le> length dst
      then Some (take off dst @ src @ drop (off + length src) dst) else None)"

text \<open>A C string written with its terminating NUL into a buffer of \<open>cap\<close> bytes.\<close>

definition put_string :: "nat \<Rightarrow> string \<Rightarrow> string option" where
  "put_string cap s = (if length s + 1 \<le> cap then Some s else None)"

text \<open>\<open>snprintf(out, out_len, "%s", s)\<close>: at most \<open>out_len - 1\<close> characters are kept.\<close>

definition snprintf_s :: "nat \<Rightarrow> string \<Rightarrow> string" where
  "snprintf_s out_len s = take (out_len - 1) s"

lemma read_at_Some [mem_simps]: "i < length xs \<Longrightarrow> read_at xs i = Some (xs ! i)"
  by (simp add: read_at_def)

lemma read_block_Some [mem_simps]:
  "off + n \<le> length xs \<Longrightarrow> read_block xs off n = Some (take n (drop off xs))"
  by (simp add: read_block_def)

lemma write_block_Some [mem_simps]:
  "off + length src \<le> length dst \<Longrightarrow>
   write_block dst off src = Some (take off dst @ src @ drop (off + length src) dst)"
  by (simp add: write_block_def)

lemma write_block_length: "write_block dst off src = Some out \<Longrightarrow> length out = length dst"
  by (auto simp: write_block_def split: if_splits)

lemma write_block_0 [mem_simps]:
  "length src \<le> length dst \<Longrightarrow> write_block dst 0 src = Some (src @ drop (length src) dst)"
  by (simp add: write_block_def)

lemma put_string_Some [mem_simps]: "length s < cap \<Longrightarrow> put_string cap s = Some s"
  by (simp add: put_string_def)

lemma put_string_SomeD: "put_string cap s = Some t \<Longrightarrow> t = s \<and> length s < cap"
  by (auto simp: put_string_def split: if_splits)

lemma length_snprintf_s: "0 < n \<Longrightarrow> length (snprintf_s n s) < n"
  by (simp add: snprintf_s_def)

lemma snprintf_s_id: "length s < n \<Longrightarrow> snprintf_s n s = s"
  by (simp add: snprintf_s_def)


section \<open>Big-endian numbers\<close>

definition be_nat :: "bytes \<Rightarrow> nat" where
  "be_nat bs = foldl (\<lambda>acc b. acc * 256 + unat b) 0 bs"

lemma foldl_be: "foldl (\<lambda>acc b. acc * 256 + unat b) a (bs :: bytes) = a * 256 ^ length bs + be_nat bs"
proof (induction bs arbitrary: a)
  case Nil
  then show ?case by (simp add: be_nat_def)
next
  case (Cons b bs)
  have "be_nat (b # bs) = unat b * 256 ^ length bs + be_nat bs"
    using Cons.IH [of "unat b"] by (simp add: be_nat_def)
  then show ?case using Cons.IH [of "a * 256 + unat b"] by (simp add: distrib_right)
qed

lemma be_nat_Nil [be_simps]: "be_nat [] = 0"
  by (simp add: be_nat_def)

lemma be_nat_Cons [be_simps]: "be_nat (b # bs) = unat b * 256 ^ length bs + be_nat bs"
  using foldl_be [of "unat b" bs] by (simp add: be_nat_def)

lemma be_nat_snoc [be_simps]: "be_nat (bs @ [b]) = be_nat bs * 256 + unat b"
  by (simp add: be_nat_def)

lemma be_nat_append: "be_nat (as @ bs) = be_nat as * 256 ^ length bs + be_nat bs"
  using foldl_be [of "be_nat as" bs] by (simp add: be_nat_def)

lemma unat_byte_less: "unat (b :: byte) < 256"
  using unsigned_less [of b, where 'a = nat] by simp

lemma be_nat_less: "be_nat bs < 256 ^ length bs"
proof (induction bs)
  case Nil
  then show ?case by (simp add: be_simps)
next
  case (Cons b bs)
  have "unat b * 256 ^ length bs + be_nat bs < (unat b + 1) * 256 ^ length bs"
    using Cons.IH by (simp add: algebra_simps)
  also have "\<dots> \<le> 256 * 256 ^ length bs"
    using unat_byte_less [of b] by (intro mult_right_mono) auto
  finally show ?case by (simp add: be_simps)
qed

lemma be_nat_replicate_0: "be_nat (replicate n 0) = 0"
  by (induction n) (simp_all add: be_simps)

text \<open>Two arrays of the same length with the same value are the same array.\<close>

lemma be_nat_inject: "length as = length bs \<Longrightarrow> be_nat as = be_nat bs \<Longrightarrow> as = bs"
proof (induction as bs rule: list_induct2)
  case Nil
  then show ?case by simp
next
  case (Cons a as b bs)
  let ?m = "256 ^ length bs"
  have eq: "unat a * ?m + be_nat as = unat b * ?m + be_nat bs"
    using Cons.prems Cons.hyps by (simp add: be_simps)
  have la: "be_nat as < ?m" and lb: "be_nat bs < ?m"
    using be_nat_less [of as] be_nat_less [of bs] Cons.hyps by simp_all
  have "unat a = (unat a * ?m + be_nat as) div ?m" using la by simp
  also have "\<dots> = unat b" using lb by (simp add: eq)
  finally have "unat a = unat b" .
  moreover from this eq have "be_nat as = be_nat bs" by simp
  ultimately show ?case using Cons.IH by (simp add: word_unat_eq_iff)
qed


section \<open>Word lemmas\<close>

lemma size_t_len: "LENGTH(32) = 32" by simp

lemma unat_of_nat_size_t: "n < 2 ^ 32 \<Longrightarrow> unat (of_nat n :: size_t) = n"
  by (simp add: unat_of_nat)

lemma unat_add_size_t: "unat (a :: size_t) + unat b < 2 ^ 32 \<Longrightarrow> unat (a + b) = unat a + unat b"
  by (subst unat_add_lem [symmetric]) simp

lemma unat_ucast_byte: "unat (ucast (b :: byte) :: size_t) = unat b"
  using unat_byte_less [of b] by (simp add: unsigned_ucast_eq take_bit_nat_eq_self)

lemma unat_sub_size_t: "b \<le> (a :: size_t) \<Longrightarrow> unat (a - b) = unat a - unat b"
  by (rule unat_sub)

text \<open>One round of the length loop: \<open>len = (len << 8) | b\<close> on a 32-bit word.\<close>

lemma shift_or_byte:
  "(push_bit 8 (w :: size_t) OR ucast (b :: byte)) = w * 256 + ucast b"
proof -
  have "push_bit 8 w AND (ucast b :: size_t) = 0"
    by (rule bit_eqI)
      (auto simp: bit_push_bit_iff bit_and_iff bit_unsigned_iff dest: bit_imp_le_length)
  then have "push_bit 8 w + (ucast b :: size_t) = (push_bit 8 w OR ucast b)"
    by (rule disjunctive_add_eq_or)
  then show ?thesis by (simp add: push_bit_eq_mult)
qed

end
