(* ===== verification/Ledger_Types.thy ===== *)
theory Ledger_Types
  imports Prelude
begin

text \<open>
  The data of the application: \<open>src/constants.h\<close>, \<open>src/types.h\<close>, \<open>src/sw.h\<close>,
  \<open>src/globals.h\<close>. A C struct is a record with one field per member (array members are
  lists, and \<open>wf_tx\<close>, \<open>wf_calldata\<close>, \<open>wf_ctx\<close>, \<open>wf_nvm\<close> say that they have their declared
  lengths); an enum is a datatype.

  The sizes of the ML-DSA-87 key and signature and \<open>CX_OK\<close> come from SDK headers the
  repository includes; the README documents the two sizes (2592 and 4627 bytes).
\<close>


section \<open>Constants\<close>

definition MAX_FIELD_SIZE :: nat where "MAX_FIELD_SIZE = 32"
definition ADDRESS_LENGTH :: nat where "ADDRESS_LENGTH = 64"
definition ADDRESS_SIZE :: nat where "ADDRESS_SIZE = 64"
definition MAX_TRANSACTION_LEN :: nat where "MAX_TRANSACTION_LEN = 2048"
definition MAX_DATA_SIZE :: nat where "MAX_DATA_SIZE = 2048"
definition DESCRIPTOR_BYTES :: nat where "DESCRIPTOR_BYTES = 3"
definition SIGNATURE_CHUNK_SIZE :: nat where "SIGNATURE_CHUNK_SIZE = 258"
definition SIGNATURE_LAST_CHUNK_SIZE :: nat where "SIGNATURE_LAST_CHUNK_SIZE = 241"
definition PK_CHUNK_SIZE :: nat where "PK_CHUNK_SIZE = 258"
definition PK_LAST_CHUNK_SIZE :: nat where "PK_LAST_CHUNK_SIZE = 12"
definition PK_CHUNKS :: nat where "PK_CHUNKS = 11"
definition ABI_MAX_PARAMS :: nat where "ABI_MAX_PARAMS = 16"
definition ABI_SLOT_SIZE :: nat where "ABI_SLOT_SIZE = 64"
definition ABI_SELECTOR_SIZE :: nat where "ABI_SELECTOR_SIZE = 4"
definition ZOND_ADDRESS_PREFIX :: byte where "ZOND_ADDRESS_PREFIX = 0x51"
definition APDU_CLA :: byte where "APDU_CLA = 0xE0"
definition MLDSA87_SIGBYTES :: nat where "MLDSA87_SIGBYTES = 4627"
definition MLDSA87_PUBLICKEYBYTES :: nat where "MLDSA87_PUBLICKEYBYTES = 2592"

lemmas size_consts =
  MAX_FIELD_SIZE_def ADDRESS_LENGTH_def ADDRESS_SIZE_def MAX_TRANSACTION_LEN_def
  MAX_DATA_SIZE_def DESCRIPTOR_BYTES_def SIGNATURE_CHUNK_SIZE_def
  SIGNATURE_LAST_CHUNK_SIZE_def PK_CHUNK_SIZE_def PK_LAST_CHUNK_SIZE_def PK_CHUNKS_def
  ABI_MAX_PARAMS_def ABI_SLOT_SIZE_def ABI_SELECTOR_SIZE_def
  MLDSA87_SIGBYTES_def MLDSA87_PUBLICKEYBYTES_def

text \<open>Status words (\<open>src/sw.h\<close>).\<close>

definition SW_OK :: u16 where "SW_OK = 0x9000"
definition SW_DENY :: u16 where "SW_DENY = 0x6985"
definition SW_WRONG_P1P2 :: u16 where "SW_WRONG_P1P2 = 0x6A86"
definition SW_WRONG_DATA_LENGTH :: u16 where "SW_WRONG_DATA_LENGTH = 0x6A87"
definition SW_INS_NOT_SUPPORTED :: u16 where "SW_INS_NOT_SUPPORTED = 0x6D00"
definition SW_CLA_NOT_SUPPORTED :: u16 where "SW_CLA_NOT_SUPPORTED = 0x6E00"
definition SW_DISPLAY_ADDRESS_FAIL :: u16 where "SW_DISPLAY_ADDRESS_FAIL = 0xB002"
definition SW_WRONG_TX_LENGTH :: u16 where "SW_WRONG_TX_LENGTH = 0xB004"
definition SW_TX_PARSING_FAIL :: u16 where "SW_TX_PARSING_FAIL = 0xB005"
definition SW_BAD_STATE :: u16 where "SW_BAD_STATE = 0xB007"
definition SW_SIGNATURE_FAIL :: u16 where "SW_SIGNATURE_FAIL = 0xB008"

lemmas sw_defs =
  SW_OK_def SW_DENY_def SW_WRONG_P1P2_def SW_WRONG_DATA_LENGTH_def SW_INS_NOT_SUPPORTED_def
  SW_CLA_NOT_SUPPORTED_def SW_DISPLAY_ADDRESS_FAIL_def SW_WRONG_TX_LENGTH_def
  SW_TX_PARSING_FAIL_def SW_BAD_STATE_def SW_SIGNATURE_FAIL_def

text \<open>The SDK's error type and its success value.\<close>

type_synonym cx_err_t = "32 word"

definition CX_OK :: cx_err_t where "CX_OK = 0"


section \<open>Enumerations\<close>

datatype state_e = STATE_NONE | STATE_PARSED | STATE_APPROVED

datatype request_type_e = CONFIRM_ADDRESS | CONFIRM_TRANSACTION

text \<open>Instruction bytes of \<open>command_e\<close>; the dispatcher switches on the raw byte.\<close>

definition GET_VERSION :: byte where "GET_VERSION = 0x03"
definition GET_APP_NAME :: byte where "GET_APP_NAME = 0x04"
definition GET_PUBLIC_KEY :: byte where "GET_PUBLIC_KEY = 0x05"
definition SIGN_TX :: byte where "SIGN_TX = 0x06"

lemmas ins_defs = GET_VERSION_def GET_APP_NAME_def GET_PUBLIC_KEY_def SIGN_TX_def


section \<open>Decoded transaction\<close>

record zond_tx_t =
  tx_chain_id :: bytes
  tx_chain_id_len :: byte
  tx_nonce :: bytes
  tx_nonce_len :: byte
  tx_gas_tip_cap :: bytes
  tx_gas_tip_cap_len :: byte
  tx_gas_fee_cap :: bytes
  tx_gas_fee_cap_len :: byte
  tx_gas :: bytes
  tx_gas_len :: byte
  tx_to :: bytes
  tx_to_len :: byte
  tx_value :: bytes
  tx_value_len :: byte
  tx_data :: bytes
  tx_data_len :: u16
  tx_descriptor :: bytes
  tx_descriptor_len :: byte

definition zero_tx :: zond_tx_t where
  "zero_tx = \<lparr>tx_chain_id = replicate MAX_FIELD_SIZE 0, tx_chain_id_len = 0,
     tx_nonce = replicate 8 0, tx_nonce_len = 0,
     tx_gas_tip_cap = replicate MAX_FIELD_SIZE 0, tx_gas_tip_cap_len = 0,
     tx_gas_fee_cap = replicate MAX_FIELD_SIZE 0, tx_gas_fee_cap_len = 0,
     tx_gas = replicate 8 0, tx_gas_len = 0,
     tx_to = replicate ADDRESS_LENGTH 0, tx_to_len = 0,
     tx_value = replicate MAX_FIELD_SIZE 0, tx_value_len = 0,
     tx_data = replicate MAX_DATA_SIZE 0, tx_data_len = 0,
     tx_descriptor = replicate 3 0, tx_descriptor_len = 0\<rparr>"

definition wf_tx :: "zond_tx_t \<Rightarrow> bool" where
  "wf_tx tx \<longleftrightarrow>
     length (tx_chain_id tx) = MAX_FIELD_SIZE \<and> length (tx_nonce tx) = 8 \<and>
     length (tx_gas_tip_cap tx) = MAX_FIELD_SIZE \<and> length (tx_gas_fee_cap tx) = MAX_FIELD_SIZE \<and>
     length (tx_gas tx) = 8 \<and> length (tx_to tx) = ADDRESS_LENGTH \<and>
     length (tx_value tx) = MAX_FIELD_SIZE \<and> length (tx_data tx) = MAX_DATA_SIZE \<and>
     length (tx_descriptor tx) = 3"

lemma wf_zero_tx: "wf_tx zero_tx"
  by (simp add: wf_tx_def zero_tx_def size_consts)


section \<open>Calldata, contexts and storage\<close>

record abi_calldata_t =
  cd_selector :: bytes
  cd_has_selector :: bool
  cd_param_count :: byte
  cd_params :: "bytes list"

definition zero_calldata :: abi_calldata_t where
  "zero_calldata = \<lparr>cd_selector = replicate ABI_SELECTOR_SIZE 0, cd_has_selector = False,
     cd_param_count = 0, cd_params = replicate ABI_MAX_PARAMS (replicate ABI_SLOT_SIZE 0)\<rparr>"

definition wf_calldata :: "abi_calldata_t \<Rightarrow> bool" where
  "wf_calldata c \<longleftrightarrow> length (cd_selector c) = ABI_SELECTOR_SIZE \<and>
     length (cd_params c) = ABI_MAX_PARAMS \<and> (\<forall>p \<in> set (cd_params c). length p = ABI_SLOT_SIZE)"

lemma wf_zero_calldata: "wf_calldata zero_calldata"
  by (simp add: wf_calldata_def zero_calldata_def size_consts)

record transaction_ctx_t =
  raw_tx :: bytes
  raw_tx_len :: size_t
  m_hash :: bytes
  tx_data_of :: zond_tx_t
  calldata_of :: abi_calldata_t

definition zero_tx_info :: transaction_ctx_t where
  "zero_tx_info = \<lparr>raw_tx = replicate MAX_TRANSACTION_LEN 0, raw_tx_len = 0,
     m_hash = replicate 32 0, tx_data_of = zero_tx, calldata_of = zero_calldata\<rparr>"

definition wf_tx_info :: "transaction_ctx_t \<Rightarrow> bool" where
  "wf_tx_info t \<longleftrightarrow> length (raw_tx t) = MAX_TRANSACTION_LEN \<and>
     unat (raw_tx_len t) \<le> MAX_TRANSACTION_LEN \<and> length (m_hash t) = 32 \<and>
     wf_tx (tx_data_of t) \<and> wf_calldata (calldata_of t)"

lemma wf_zero_tx_info: "wf_tx_info zero_tx_info"
  by (simp add: wf_tx_info_def zero_tx_info_def wf_zero_tx wf_zero_calldata size_consts)

text \<open>
  \<open>G_context\<close>. The member \<open>pk_info\<close> of its union is never accessed by the application and is
  left out; \<open>MAX_BIP32_PATH\<close>, the length of \<open>bip32_path\<close>, is an SDK constant and a parameter.
\<close>

record global_ctx_t =
  req_type :: request_type_e
  g_state :: state_e
  bip32_path :: "u32 list"
  bip32_path_len :: byte
  g_address :: bytes
  tx_info :: transaction_ctx_t

text \<open>\<open>explicit_bzero(&G_context, sizeof(G_context))\<close>: the enumerations' first values are 0.\<close>

definition zero_ctx :: "nat \<Rightarrow> global_ctx_t" where
  "zero_ctx max_path = \<lparr>req_type = CONFIRM_ADDRESS, g_state = STATE_NONE,
     bip32_path = replicate max_path 0, bip32_path_len = 0,
     g_address = replicate ADDRESS_SIZE 0, tx_info = zero_tx_info\<rparr>"

definition wf_ctx :: "nat \<Rightarrow> global_ctx_t \<Rightarrow> bool" where
  "wf_ctx max_path c \<longleftrightarrow> length (bip32_path c) = max_path \<and>
     length (g_address c) = ADDRESS_SIZE \<and> wf_tx_info (tx_info c)"

lemma wf_zero_ctx: "wf_ctx n (zero_ctx n)"
  by (simp add: wf_ctx_def zero_ctx_def wf_zero_tx_info size_consts)

record internal_storage_t =
  nv_sig :: bytes
  nv_pk :: bytes
  enable_blind_signing :: byte
  display_nonce :: byte
  display_tx_hash :: byte
  enable_debug_smart_contract :: byte
  nv_initialized :: byte
  is_sending_signature :: byte

definition wf_nvm :: "internal_storage_t \<Rightarrow> bool" where
  "wf_nvm n \<longleftrightarrow> length (nv_sig n) = MLDSA87_SIGBYTES \<and> length (nv_pk n) = MLDSA87_PUBLICKEYBYTES"

text \<open>The storage of a freshly installed application: the constant is zero-initialised.\<close>

definition zero_nvm :: internal_storage_t where
  "zero_nvm = \<lparr>nv_sig = replicate MLDSA87_SIGBYTES 0, nv_pk = replicate MLDSA87_PUBLICKEYBYTES 0,
     enable_blind_signing = 0, display_nonce = 0, display_tx_hash = 0,
     enable_debug_smart_contract = 0, nv_initialized = 0, is_sending_signature = 0\<rparr>"

lemma wf_zero_nvm: "wf_nvm zero_nvm"
  by (simp add: wf_nvm_def zero_nvm_def)

end
