(* ===== verification/Rlp_Decode.thy ===== *)
theory Rlp_Decode
  imports Ledger_Types
begin

text \<open>
  The transaction decoder, \<open>src/rlp_decode.c\<close>. A pointer into the input is its offset, a
  \<open>size_t\<close>; every byte the code reads goes through \<open>read_at\<close> or \<open>read_block\<close> and every
  \<open>memcpy\<close> into the transaction through \<open>write_block\<close>, so that \<open>None\<close> is exactly an
  out-of-bounds access. Length arithmetic is on 32-bit words, as on the device, wrap-around
  included. The \<open>int\<close> a parser returns is kept as a 32-bit word and tested with \<open>sint\<close>.
\<close>


section \<open>Items and the list header\<close>

text \<open>
  \<open>RlpErr\<close> is the return value -1. \<open>RlpItem ptr len consumed\<close> holds the two out-parameters
  and the return value.
\<close>

datatype rlp_ret = RlpErr | RlpItem size_t size_t u32

text \<open>The loop \<open>for (i = 0; i < len_of_len; i++) len = (len << 8) | input[1 + i]\<close>.\<close>

fun rlp_len_loop :: "bytes \<Rightarrow> size_t \<Rightarrow> size_t \<Rightarrow> nat \<Rightarrow> size_t \<Rightarrow> size_t option" where
  "rlp_len_loop mem input i 0 len = Some len"
| "rlp_len_loop mem input i (Suc k) len = do {
     b \<leftarrow> read_at mem (unat (input + (1 + i)));
     rlp_len_loop mem input (i + 1) k (push_bit 8 len OR ucast b)
   }"

definition parse_rlp_item :: "bytes \<Rightarrow> size_t \<Rightarrow> size_t \<Rightarrow> rlp_ret option" where
  "parse_rlp_item mem input input_len =
     (if input_len = 0 then Some RlpErr else do {
        prefix \<leftarrow> read_at mem (unat input);
        if prefix \<le> 0x7f then Some (RlpItem input 1 1)
        else if prefix \<le> 0xb7 then
          (let len = ucast prefix - 0x80 in
           if len > input_len - 1 then Some RlpErr
           else Some (RlpItem (input + 1) len (1 + len)))
        else if prefix \<le> 0xbf then
          (let len_of_len = ucast prefix - 0xb7 in
           if len_of_len > input_len - 1 then Some RlpErr
           else do {
             len \<leftarrow> rlp_len_loop mem input 0 (unat len_of_len) 0;
             if len > input_len - 1 - len_of_len then Some RlpErr
             else Some (RlpItem (input + (1 + len_of_len)) len (1 + len_of_len + len))
           })
        else if prefix \<le> 0xf7 then
          (let len = ucast prefix - 0xc0 in
           if 1 + len > input_len then Some RlpErr
           else Some (RlpItem (input + 1) len (1 + len)))
        else
          (let len_of_len = ucast prefix - 0xf7 in
           if len_of_len > input_len - 1 then Some RlpErr
           else do {
             len \<leftarrow> rlp_len_loop mem input 0 (unat len_of_len) 0;
             if len > input_len - 1 - len_of_len then Some RlpErr
             else Some (RlpItem (input + (1 + len_of_len)) len (1 + len_of_len + len))
           })
      })"

text \<open>\<open>HdrErr\<close> is -1, \<open>Hdr payload_len header_len\<close> is 0 with the two out-parameters.\<close>

datatype hdr_ret = HdrErr | Hdr size_t size_t

definition parse_rlp_list_header :: "bytes \<Rightarrow> size_t \<Rightarrow> size_t \<Rightarrow> hdr_ret option" where
  "parse_rlp_list_header mem input input_len =
     (if input_len = 0 then Some HdrErr else do {
        prefix \<leftarrow> read_at mem (unat input);
        if prefix \<ge> 0xc0 \<and> prefix \<le> 0xf7 then
          (let payload_len = ucast prefix - 0xc0; header_len = 1 in
           if payload_len > input_len - header_len then Some HdrErr
           else Some (Hdr payload_len header_len))
        else if prefix \<ge> 0xf8 then
          (let len_of_len = ucast prefix - 0xf7 in
           if len_of_len > input_len - 1 then Some HdrErr
           else do {
             len \<leftarrow> rlp_len_loop mem input 0 (unat len_of_len) 0;
             (let payload_len = len; header_len = 1 + len_of_len in
              if payload_len > input_len - header_len then Some HdrErr
              else Some (Hdr payload_len header_len))
           })
        else Some HdrErr
      })"


section \<open>The eleven fields\<close>

text \<open>
  The locals of \<open>decode_ledger_tx\<close> that change from field to field (\<open>p\<close>, \<open>remaining\<close>)
  and the transaction being filled. \<open>Rejected tx\<close> is \<open>return -1\<close> with the transaction as
  far as it has been written.
\<close>

record dec_st =
  dec_p :: size_t
  dec_remaining :: size_t
  dec_tx :: zond_tx_t

datatype dec_out = Rejected zond_tx_t | Going dec_st

text \<open>
  The block repeated for each field: parse an item, reject on an error or when the field's own
  test \<open>bad\<close> on \<open>val_ptr\<close> and \<open>val_len\<close> holds, store it, and move past it.
\<close>

definition rlp_field ::
    "bytes \<Rightarrow> (size_t \<Rightarrow> size_t \<Rightarrow> bool option) \<Rightarrow>
     (size_t \<Rightarrow> size_t \<Rightarrow> zond_tx_t \<Rightarrow> zond_tx_t option) \<Rightarrow> dec_st \<Rightarrow> dec_out option" where
  "rlp_field rlp bad store s = do {
     r \<leftarrow> parse_rlp_item rlp (dec_p s) (dec_remaining s);
     case r of
       RlpErr \<Rightarrow> Some (Rejected (dec_tx s))
     | RlpItem val_ptr val_len consumed \<Rightarrow>
         if sint consumed < 0 then Some (Rejected (dec_tx s)) else do {
           reject \<leftarrow> bad val_ptr val_len;
           if reject then Some (Rejected (dec_tx s)) else do {
             tx \<leftarrow> store val_ptr val_len (dec_tx s);
             Some (Going \<lparr>dec_p = dec_p s + consumed,
                          dec_remaining = dec_remaining s - consumed, dec_tx = tx\<rparr>)
           }
         }
   }"

text \<open>\<open>memcpy(dst, rlp + ptr, len)\<close>.\<close>

definition memcpy_from :: "bytes \<Rightarrow> size_t \<Rightarrow> size_t \<Rightarrow> bytes \<Rightarrow> bytes option" where
  "memcpy_from rlp ptr len dst = do {
     src \<leftarrow> read_block rlp (unat ptr) (unat len);
     write_block dst 0 src
   }"

definition decode_chain_id :: "bytes \<Rightarrow> dec_st \<Rightarrow> dec_out option" where
  "decode_chain_id rlp = rlp_field rlp (\<lambda>_ len. Some (unat len > MAX_FIELD_SIZE))
     (\<lambda>ptr len tx. do {
        a \<leftarrow> memcpy_from rlp ptr len (tx_chain_id tx);
        Some (tx\<lparr>tx_chain_id := a, tx_chain_id_len := ucast len\<rparr>) })"

definition decode_nonce :: "bytes \<Rightarrow> dec_st \<Rightarrow> dec_out option" where
  "decode_nonce rlp = rlp_field rlp (\<lambda>_ len. Some (unat len > 8))
     (\<lambda>ptr len tx. do {
        a \<leftarrow> memcpy_from rlp ptr len (tx_nonce tx);
        Some (tx\<lparr>tx_nonce := a, tx_nonce_len := ucast len\<rparr>) })"

definition decode_gas_tip_cap :: "bytes \<Rightarrow> dec_st \<Rightarrow> dec_out option" where
  "decode_gas_tip_cap rlp = rlp_field rlp (\<lambda>_ len. Some (unat len > MAX_FIELD_SIZE))
     (\<lambda>ptr len tx. do {
        a \<leftarrow> memcpy_from rlp ptr len (tx_gas_tip_cap tx);
        Some (tx\<lparr>tx_gas_tip_cap := a, tx_gas_tip_cap_len := ucast len\<rparr>) })"

definition decode_gas_fee_cap :: "bytes \<Rightarrow> dec_st \<Rightarrow> dec_out option" where
  "decode_gas_fee_cap rlp = rlp_field rlp (\<lambda>_ len. Some (unat len > MAX_FIELD_SIZE))
     (\<lambda>ptr len tx. do {
        a \<leftarrow> memcpy_from rlp ptr len (tx_gas_fee_cap tx);
        Some (tx\<lparr>tx_gas_fee_cap := a, tx_gas_fee_cap_len := ucast len\<rparr>) })"

definition decode_gas :: "bytes \<Rightarrow> dec_st \<Rightarrow> dec_out option" where
  "decode_gas rlp = rlp_field rlp (\<lambda>_ len. Some (unat len > 8))
     (\<lambda>ptr len tx. do {
        a \<leftarrow> memcpy_from rlp ptr len (tx_gas tx);
        Some (tx\<lparr>tx_gas := a, tx_gas_len := ucast len\<rparr>) })"

definition decode_to :: "bytes \<Rightarrow> dec_st \<Rightarrow> dec_out option" where
  "decode_to rlp = rlp_field rlp (\<lambda>_ len. Some (unat len \<noteq> ADDRESS_LENGTH \<and> len \<noteq> 0))
     (\<lambda>ptr len tx. do {
        z \<leftarrow> write_block (tx_to tx) 0 (replicate ADDRESS_LENGTH 0);
        a \<leftarrow> (if len > 0 then memcpy_from rlp ptr len z else Some z);
        Some (tx\<lparr>tx_to := a, tx_to_len := ucast len\<rparr>) })"

definition decode_value :: "bytes \<Rightarrow> dec_st \<Rightarrow> dec_out option" where
  "decode_value rlp = rlp_field rlp (\<lambda>_ len. Some (unat len > MAX_FIELD_SIZE))
     (\<lambda>ptr len tx. do {
        z \<leftarrow> write_block (tx_value tx) 0 (replicate MAX_FIELD_SIZE 0);
        a \<leftarrow> memcpy_from rlp ptr len z;
        Some (tx\<lparr>tx_value := a, tx_value_len := ucast len\<rparr>) })"

definition decode_data :: "bytes \<Rightarrow> dec_st \<Rightarrow> dec_out option" where
  "decode_data rlp = rlp_field rlp (\<lambda>_ len. Some (unat len > MAX_DATA_SIZE))
     (\<lambda>ptr len tx. do {
        z \<leftarrow> write_block (tx_data tx) 0 (replicate MAX_DATA_SIZE 0);
        a \<leftarrow> (if len > 0 then memcpy_from rlp ptr len z else Some z);
        Some (tx\<lparr>tx_data := a, tx_data_len := ucast len\<rparr>) })"

definition decode_access_list :: "bytes \<Rightarrow> dec_st \<Rightarrow> dec_out option" where
  "decode_access_list rlp = rlp_field rlp (\<lambda>_ _. Some False) (\<lambda>_ _ tx. Some tx)"

text \<open>The descriptor test: the length first, then the bytes one by one, left to right.\<close>

definition bad_descriptor :: "bytes \<Rightarrow> size_t \<Rightarrow> size_t \<Rightarrow> bool option" where
  "bad_descriptor rlp ptr len =
     (if len \<noteq> 3 then Some True else do {
        b0 \<leftarrow> read_at rlp (unat ptr);
        if b0 \<noteq> 0x01 then Some True else do {
          b1 \<leftarrow> read_at rlp (unat (ptr + 1));
          if b1 \<noteq> 0x00 then Some True else do {
            b2 \<leftarrow> read_at rlp (unat (ptr + 2));
            Some (b2 \<noteq> 0x00) } } })"

definition decode_descriptor :: "bytes \<Rightarrow> dec_st \<Rightarrow> dec_out option" where
  "decode_descriptor rlp = rlp_field rlp (bad_descriptor rlp)
     (\<lambda>ptr len tx. do {
        a \<leftarrow> memcpy_from rlp ptr len (tx_descriptor tx);
        Some (tx\<lparr>tx_descriptor := a, tx_descriptor_len := ucast len\<rparr>) })"

definition decode_extra_params :: "bytes \<Rightarrow> dec_st \<Rightarrow> dec_out option" where
  "decode_extra_params rlp = rlp_field rlp (\<lambda>_ len. Some (len \<noteq> 0)) (\<lambda>_ _ tx. Some tx)"


section \<open>The decoder\<close>

fun run_fields :: "(dec_st \<Rightarrow> dec_out option) list \<Rightarrow> dec_st \<Rightarrow> dec_out option" where
  "run_fields [] s = Some (Going s)"
| "run_fields (f # fs) s = do {
     r \<leftarrow> f s;
     case r of Rejected tx \<Rightarrow> Some (Rejected tx) | Going s' \<Rightarrow> run_fields fs s'
   }"

definition tx_decoders :: "bytes \<Rightarrow> (dec_st \<Rightarrow> dec_out option) list" where
  "tx_decoders rlp =
     [decode_chain_id rlp, decode_nonce rlp, decode_gas_tip_cap rlp, decode_gas_fee_cap rlp,
      decode_gas rlp, decode_to rlp, decode_value rlp, decode_data rlp,
      decode_access_list rlp, decode_descriptor rlp, decode_extra_params rlp]"

text \<open>After the last field: the items must end where the list ends.\<close>

definition payload_result :: "size_t \<Rightarrow> dec_out \<Rightarrow> int \<times> zond_tx_t option" where
  "payload_result payload_end r =
     (case r of
        Rejected tx \<Rightarrow> (-1, Some tx)
      | Going s \<Rightarrow> if dec_p s \<noteq> payload_end then (-1, Some (dec_tx s)) else (0, Some (dec_tx s)))"

text \<open>
  The result is the returned \<open>int\<close> and the transaction after the call. A null pointer is
  \<open>None\<close>.
\<close>

definition decode_ledger_tx ::
    "bytes option \<Rightarrow> size_t \<Rightarrow> zond_tx_t option \<Rightarrow> (int \<times> zond_tx_t option) option" where
  "decode_ledger_tx rlp_ptr rlp_len tx_ptr =
     (case (rlp_ptr, tx_ptr) of
        (Some rlp, Some tx) \<Rightarrow>
          if rlp_len = 0 then Some (-1, tx_ptr) else do {
            b0 \<leftarrow> read_at rlp 0;
            if b0 \<noteq> 0x02 then Some (-1, tx_ptr) else do {
              h \<leftarrow> parse_rlp_list_header rlp 1 (rlp_len - 1);
              case h of
                HdrErr \<Rightarrow> Some (-1, tx_ptr)
              | Hdr list_payload_len list_header_len \<Rightarrow>
                  (let payload_start = 1 + list_header_len;
                       payload_end = payload_start + list_payload_len;
                       p = 1 + list_header_len;
                       remaining = (rlp_len - 1) - list_header_len in
                   if list_payload_len > remaining then Some (-1, tx_ptr) else do {
                     r \<leftarrow> run_fields (tx_decoders rlp)
                            \<lparr>dec_p = p, dec_remaining = remaining, dec_tx = tx\<rparr>;
                     Some (payload_result payload_end r) })
            } }
      | _ \<Rightarrow> Some (-1, tx_ptr))"

end
