(* ===== verification/Rlp_Spec.thy ===== *)
theory Rlp_Spec
  imports Rlp_Decode
begin

text \<open>
  A reference reader for RLP on byte lists, and the proof that the two parsers of
  \<open>src/rlp_decode.c\<close> compute it: \<open>rlp_split bs\<close> takes one item off the front of
  \<open>bs\<close> and returns its payload and the rest, \<open>rlp_list_split\<close> does so for a list. A
  length field is read modulo \<open>2 ^ 32\<close>, the width of the code's \<open>size_t\<close>.

  \<open>item_reader\<close> is the interface the decoder uses: what any reader of items guarantees about
  the input it leaves. Sequences of items (\<open>read_items\<close>) are reasoned about inside it once.
  \<open>item_codec\<close> adds a writer.
\<close>


section \<open>Reading one item off a byte list\<close>

definition take_bytes :: "nat \<Rightarrow> bytes \<Rightarrow> (bytes \<times> bytes) option" where
  "take_bytes k bs = (if k \<le> length bs then Some (take k bs, drop k bs) else None)"

definition take_long :: "nat \<Rightarrow> bytes \<Rightarrow> (bytes \<times> bytes) option" where
  "take_long k bs =
     (if k \<le> length bs then take_bytes (be_nat (take k bs) mod 2 ^ 32) (drop k bs) else None)"

fun rlp_split :: "bytes \<Rightarrow> (bytes \<times> bytes) option" where
  "rlp_split [] = None"
| "rlp_split (b # bs) =
     (if b \<le> 0x7f then Some ([b], bs)
      else if b \<le> 0xb7 then take_bytes (unat b - 0x80) bs
      else if b \<le> 0xbf then take_long (unat b - 0xb7) bs
      else if b \<le> 0xf7 then take_bytes (unat b - 0xc0) bs
      else take_long (unat b - 0xf7) bs)"

fun rlp_list_split :: "bytes \<Rightarrow> (bytes \<times> bytes) option" where
  "rlp_list_split [] = None"
| "rlp_list_split (b # bs) =
     (if b \<ge> 0xc0 \<and> b \<le> 0xf7 then take_bytes (unat b - 0xc0) bs
      else if b \<ge> 0xf8 then take_long (unat b - 0xf7) bs
      else None)"

lemma take_bytes_Some: "take_bytes k bs = Some (pl, rest) \<longleftrightarrow> bs = pl @ rest \<and> length pl = k"
  by (auto simp: take_bytes_def)

lemma take_long_Some:
  "take_long k bs = Some (pl, rest) \<longleftrightarrow>
     (\<exists>h. bs = h @ pl @ rest \<and> length h = k \<and> length pl = be_nat h mod 2 ^ 32)"
proof
  assume "take_long k bs = Some (pl, rest)"
  then show "\<exists>h. bs = h @ pl @ rest \<and> length h = k \<and> length pl = be_nat h mod 2 ^ 32"
    by (intro exI [of _ "take k bs"]) (auto simp: take_long_def take_bytes_Some split: if_splits
        intro: append_take_drop_id [symmetric, THEN trans])
next
  assume "\<exists>h. bs = h @ pl @ rest \<and> length h = k \<and> length pl = be_nat h mod 2 ^ 32"
  then show "take_long k bs = Some (pl, rest)"
    by (auto simp: take_long_def take_bytes_Some)
qed

text \<open>One item read off the front: what a reader keeps of the input.\<close>

lemma rlp_split_Some:
  "rlp_split bs = Some (pl, rest) \<longleftrightarrow> (\<exists>b t. bs = b # t \<and>
     (if b \<le> 0x7f then pl = [b] \<and> rest = t
      else if b \<le> 0xb7 then t = pl @ rest \<and> length pl = unat b - 0x80
      else if b \<le> 0xbf then take_long (unat b - 0xb7) t = Some (pl, rest)
      else if b \<le> 0xf7 then t = pl @ rest \<and> length pl = unat b - 0xc0
      else take_long (unat b - 0xf7) t = Some (pl, rest)))"
  by (cases bs) (auto simp: take_bytes_Some)

lemma rlp_split_decomp:
  "rlp_split bs = Some (pl, rest) \<Longrightarrow> \<exists>h. bs = h @ pl @ rest \<and> h @ pl \<noteq> []"
  unfolding rlp_split_Some take_long_Some by (auto split: if_splits)

lemma take_bytes_append:
  "take_bytes k bs = Some (pl, rest) \<Longrightarrow> take_bytes k (bs @ ys) = Some (pl, rest @ ys)"
  by (simp add: take_bytes_Some)

lemma take_bytes_cut:
  "take_bytes k (bs @ ys) = Some (pl, rest @ ys) \<Longrightarrow> take_bytes k bs = Some (pl, rest)"
  by (simp add: take_bytes_Some)

lemma take_long_append:
  "take_long k bs = Some (pl, rest) \<Longrightarrow> take_long k (bs @ ys) = Some (pl, rest @ ys)"
  unfolding take_long_Some by (metis append.assoc)

lemma take_long_cut:
  "take_long k (bs @ ys) = Some (pl, rest @ ys) \<Longrightarrow> take_long k bs = Some (pl, rest)"
  unfolding take_long_Some by (metis append.assoc append_same_eq)

lemma rlp_split_append:
  "rlp_split bs = Some (pl, rest) \<Longrightarrow> rlp_split (bs @ ys) = Some (pl, rest @ ys)"
  by (cases bs) (auto intro: take_bytes_append take_long_append split: if_splits)

lemma rlp_split_cut:
  "rlp_split (bs @ ys) = Some (pl, rest @ ys) \<Longrightarrow> rlp_split bs = Some (pl, rest)"
  by (cases bs) (auto intro: take_bytes_cut take_long_cut dest!: rlp_split_decomp [of ys] split: if_splits)


section \<open>Readers of items\<close>

fun read_items :: "(bytes \<Rightarrow> (bytes \<times> bytes) option) \<Rightarrow> nat \<Rightarrow> bytes \<Rightarrow> (bytes list \<times> bytes) option" where
  "read_items read 0 bs = Some ([], bs)"
| "read_items read (Suc n) bs = (case read bs of None \<Rightarrow> None
     | Some (pl, rest) \<Rightarrow> map_option (\<lambda>(its, r). (pl # its, r)) (read_items read n rest))"

lemma read_items_numeral:
  "read_items read (numeral k) bs = (case read bs of None \<Rightarrow> None
     | Some (pl, rest) \<Rightarrow> map_option (\<lambda>(its, r). (pl # its, r)) (read_items read (pred_numeral k) rest))"
  by (simp add: numeral_eq_Suc)

locale item_reader =
  fixes read :: "bytes \<Rightarrow> (bytes \<times> bytes) option"
  assumes read_decomp: "read bs = Some (pl, rest) \<Longrightarrow> \<exists>h. bs = h @ pl @ rest \<and> h @ pl \<noteq> []"
    and read_append: "read bs = Some (pl, rest) \<Longrightarrow> read (bs @ ys) = Some (pl, rest @ ys)"
    and read_cut: "read (bs @ ys) = Some (pl, rest @ ys) \<Longrightarrow> read bs = Some (pl, rest)"
begin

lemma items_length: "read_items read n bs = Some (its, rest) \<Longrightarrow> length its = n"
  by (induction n arbitrary: bs its) (auto split: option.splits)

lemma items_suffix: "read_items read n bs = Some (its, rest) \<Longrightarrow> \<exists>h. bs = h @ rest"
proof (induction n arbitrary: bs its)
  case 0
  then show ?case by simp
next
  case (Suc n)
  then obtain pl r its' where 1: "read bs = Some (pl, r)" and 2: "read_items read n r = Some (its', rest)"
    by (auto split: option.splits)
  from Suc.IH [OF 2] read_decomp [OF 1] show ?case by (metis append.assoc)
qed

lemma items_append:
  "read_items read n bs = Some (its, rest) \<Longrightarrow> read_items read n (bs @ ys) = Some (its, rest @ ys)"
  by (induction n arbitrary: bs its) (auto simp: read_append split: option.splits)

lemma items_add:
  "read_items read m bs = Some (its, r) \<Longrightarrow> read_items read n r = Some (its', r') \<Longrightarrow>
   read_items read (m + n) bs = Some (its @ its', r')"
  by (induction m arbitrary: bs its) (auto split: option.splits)

text \<open>
  Reading from a longer input that ends exactly where a prefix ends is reading the prefix: a
  decoder may parse the whole buffer and compare the final position with the end of the list.
\<close>

lemma items_cut:
  "read_items read n (bs @ ys) = Some (its, ys) \<Longrightarrow> read_items read n bs = Some (its, [])"
proof (induction n arbitrary: bs its)
  case 0
  then show ?case by simp
next
  case (Suc n)
  then obtain pl r its' where 1: "read (bs @ ys) = Some (pl, r)"
    and 2: "read_items read n r = Some (its', ys)" and its: "its = pl # its'"
    by (auto split: option.splits)
  obtain h where r: "r = h @ ys" using items_suffix [OF 2] by blast
  from 1 have "read bs = Some (pl, h)" unfolding r by (rule read_cut)
  moreover from 2 have "read_items read n h = Some (its', [])" unfolding r by (rule Suc.IH)
  ultimately show ?case by (simp add: its)
qed

end

locale item_codec = item_reader +
  fixes enc :: "bytes \<Rightarrow> bytes" and ok :: "bytes \<Rightarrow> bool"
  assumes read_enc: "ok pl \<Longrightarrow> read (enc pl @ rest) = Some (pl, rest)"
begin

lemma items_enc:
  "list_all ok its \<Longrightarrow> read_items read (length its) (concat (map enc its) @ rest) = Some (its, rest)"
  by (induction its) (simp_all add: read_enc)

lemma items_enc_eq:
  "list_all ok its \<Longrightarrow> length its = n \<Longrightarrow> bs = concat (map enc its) @ rest \<Longrightarrow>
   read_items read n bs = Some (its, rest)"
  using items_enc by blast

end

interpretation rlp: item_reader rlp_split
  by unfold_locales (rule rlp_split_decomp rlp_split_append rlp_split_cut; assumption)+


section \<open>The parsers compute the reference reader\<close>

text \<open>The bytes between the offset \<open>p\<close> and \<open>p + n\<close>.\<close>

definition view :: "bytes \<Rightarrow> size_t \<Rightarrow> size_t \<Rightarrow> bytes" where
  "view mem p n = take (unat n) (drop (unat p) mem)"

lemma view_Cons:
  assumes "0 < unat n" and "unat p + unat n \<le> length mem"
  obtains ys where "view mem p n = mem ! unat p # ys"
  using assms by (cases "view mem p n") (auto simp: view_def take_Suc_conv_app_nth nth_append
      dest!: arg_cong [where f = "\<lambda>xs. xs ! 0"])

lemma len_loop:
  assumes "unat p + 1 + unat i + k \<le> length mem" and "unat p + 1 + unat i + k < 2 ^ 32"
  shows "rlp_len_loop mem p i k acc =
    Some (acc * 256 ^ k + of_nat (be_nat (take k (drop (unat p + 1 + unat i) mem))))"
  using assms
proof (induction k arbitrary: i acc)
  case 0
  then show ?case by (simp add: be_simps)
next
  case (Suc k)
  let ?m = "unat p + 1 + unat i"
  have i1: "unat (1 + i) = 1 + unat i"
    using Suc.prems unat_add_size_t [of 1 i] by simp
  then have addr: "unat (p + (1 + i)) = ?m"
    using Suc.prems unat_add_size_t [of p "1 + i"] by simp
  have i2: "unat (i + 1) = unat i + 1" using i1 by (simp add: add.commute)
  have cons: "take (Suc k) (drop ?m mem) = mem ! ?m # take k (drop (Suc ?m) mem)"
    using Suc.prems by (subst Cons_nth_drop_Suc [symmetric]) simp_all
  have len: "length (take k (drop (Suc ?m) mem)) = k" using Suc.prems by simp
  have "rlp_len_loop mem p i (Suc k) acc =
        rlp_len_loop mem p (i + 1) k (acc * 256 + ucast (mem ! ?m))"
    using Suc.prems by (simp add: addr mem_simps shift_or_byte)
  also have "\<dots> = Some ((acc * 256 + ucast (mem ! ?m)) * 256 ^ k +
      of_nat (be_nat (take k (drop (Suc ?m) mem))))"
    using Suc.IH [of "i + 1"] Suc.prems by (simp add: i2)
  also have "\<dots> = Some (acc * 256 ^ Suc k + of_nat (be_nat (take (Suc k) (drop ?m mem))))"
    unfolding cons be_nat_Cons len by (simp add: algebra_simps)
  finally show ?case .
qed

definition item_result :: "nat \<Rightarrow> nat \<Rightarrow> (bytes \<times> bytes) option \<Rightarrow> rlp_ret" where
  "item_result P N r = (case r of None \<Rightarrow> RlpErr
     | Some (pl, rest) \<Rightarrow> RlpItem (of_nat (P + N - length rest - length pl))
         (of_nat (length pl)) (of_nat (N - length rest)))"

lemma ucast_sub_const:
  fixes b :: byte and c :: byte
  assumes "c \<le> b"
  shows "unat ((ucast b :: size_t) - ucast c) = unat b - unat c"
proof -
  have "(ucast c :: size_t) \<le> ucast b"
    using assms by (simp add: word_le_nat_alt unat_ucast_byte)
  then show ?thesis by (simp add: unat_sub_size_t unat_ucast_byte)
qed

lemma short_result:
  assumes "n \<noteq> 0" and "length ys = unat n - 1" and "unat (len :: size_t) = k"
  shows "(if len > n - 1 then RlpErr else RlpItem (p + 1) len (1 + len)) =
    item_result (unat p) (unat n) (take_bytes k ys)"
proof -
  have n: "0 < unat n" using assms(1) by (simp add: unat_gt_0)
  have n1: "unat (n - 1) = unat n - 1"
    using assms(1) by (simp add: unat_minus_one)
  have cmp: "len > n - 1 \<longleftrightarrow> k > unat n - 1"
    by (simp add: word_less_nat_alt n1 assms(3))
  show ?thesis
  proof (cases "k \<le> unat n - 1")
    case True
    then have "unat p + unat n - (unat n - 1 - k) - k = unat p + 1"
      and "unat n - (unat n - 1 - k) = 1 + k"
      using n by simp_all
    then show ?thesis using True
      by (simp add: cmp item_result_def take_bytes_def assms(2) add.commute flip: assms(3))
  next
    case False
    then show ?thesis by (simp add: cmp item_result_def take_bytes_def assms(2))
  qed
qed

lemma long_result:
  assumes "n \<noteq> 0" and "unat p + unat n \<le> length mem" and "unat p + unat n < 2 ^ 32"
    and "unat (k :: size_t) = K"
  shows "(if k > n - 1 then Some RlpErr else do {
             len \<leftarrow> rlp_len_loop mem p 0 (unat k) 0;
             if len > n - 1 - k then Some RlpErr
             else Some (RlpItem (p + (1 + k)) len (1 + k + len))
           }) = Some (item_result (unat p) (unat n) (take_long K (drop 1 (view mem p n))))"
proof -
  have n: "0 < unat n" using assms(1) by (simp add: unat_gt_0)
  have n1: "unat (n - 1) = unat n - 1"
    using assms(1) by (simp add: unat_minus_one)
  have cmp: "k > n - 1 \<longleftrightarrow> K > unat n - 1"
    by (simp add: word_less_nat_alt n1 assms(4))
  have lv: "length (view mem p n) = unat n" using assms(2) by (simp add: view_def)
  show ?thesis
  proof (cases "K \<le> unat n - 1")
    case False
    then show ?thesis by (simp add: cmp item_result_def take_long_def lv)
  next
    case True
    let ?L = "be_nat (take K (drop 1 (view mem p n))) mod 2 ^ 32"
    define len where "len = (of_nat (be_nat (take K (drop 1 (view mem p n)))) :: size_t)"
    have "take K (drop (unat p + 1) mem) = take K (drop 1 (view mem p n))"
      using True by (simp add: view_def drop_take take_take min_absorb1 add.commute)
    then have loop: "rlp_len_loop mem p 0 (unat k) 0 = Some len"
      using True n assms(2,3) by (simp add: len_loop assms(4) len_def)
    have ulen: "unat len = ?L" by (simp add: len_def unat_of_nat)
    have "unat (n - 1 - k) = unat n - 1 - K"
      using True by (simp add: unat_sub_size_t word_le_nat_alt n1 assms(4))
    then have cmp2: "len > n - 1 - k \<longleftrightarrow> ?L > unat n - 1 - K"
      by (simp add: word_less_nat_alt ulen)
    show ?thesis
    proof (cases "?L \<le> unat n - 1 - K")
      case False
      then show ?thesis using True
        by (simp add: cmp loop cmp2 item_result_def take_long_def take_bytes_def lv)
    next
      case L: True
      have e1: "unat p + unat n - (unat n - 1 - K - ?L) - ?L = unat p + (1 + K)"
        and e2: "unat n - (unat n - 1 - K - ?L) = 1 + K + ?L"
        using True L n by simp_all
      have "item_result (unat p) (unat n) (take_long K (drop 1 (view mem p n))) =
          RlpItem (of_nat (unat p + (1 + K))) (of_nat ?L) (of_nat (1 + K + ?L))"
        using True L n unfolding e1 [symmetric] e2 [symmetric]
        by (simp add: item_result_def take_long_def take_bytes_def lv)
      also have "\<dots> = RlpItem (p + (1 + k)) len (1 + k + len)"
        unfolding ulen [symmetric] unfolding assms(4) [symmetric] by simp
      finally show ?thesis using True L by (simp add: cmp loop cmp2)
    qed
  qed
qed

lemma list_payload_fits:
  assumes n: "n \<noteq> 0" and L: "unat ((ucast b :: size_t) - 0xc0) = unat (b :: byte) - 0xc0"
  shows "1 + (ucast b - 0xc0) > n \<longleftrightarrow> ucast b - 0xc0 > n - (1 :: size_t)"
proof -
  have "unat b - 0xc0 < 64" using unat_byte_less [of b] by simp
  moreover have "0 < unat n" using n by (simp add: unat_gt_0)
  ultimately show ?thesis
    using n L unat_add_size_t [of 1 "ucast b - 0xc0"]
    by (auto simp: word_less_nat_alt unat_minus_one simp del: add_diff_eq diff_add_eq)
qed

lemma item_offsets:
  "0x80 \<le> (b :: byte) \<Longrightarrow> unat ((ucast b :: size_t) - 0x80) = unat b - 0x80"
  "0xb7 \<le> b \<Longrightarrow> unat ((ucast b :: size_t) - 0xb7) = unat b - 0xb7"
  "0xc0 \<le> b \<Longrightarrow> unat ((ucast b :: size_t) - 0xc0) = unat b - 0xc0"
  "0xf7 \<le> b \<Longrightarrow> unat ((ucast b :: size_t) - 0xf7) = unat b - 0xf7"
  using ucast_sub_const [of "0x80" b] ucast_sub_const [of "0xb7" b] ucast_sub_const [of "0xc0" b]
    ucast_sub_const [of "0xf7" b] by simp_all

lemma parse_rlp_item_refines:
  assumes bnd: "unat p + unat n \<le> length mem" "unat p + unat n < 2 ^ 32"
  shows "parse_rlp_item mem p n = Some (item_result (unat p) (unat n) (rlp_split (view mem p n)))"
proof (cases "n = 0")
  case True
  then show ?thesis by (simp add: parse_rlp_item_def view_def item_result_def)
next
  case False
  then have n: "0 < unat n" by (simp add: unat_gt_0)
  let ?b = "mem ! unat p"
  have rd: "read_at mem (unat p) = Some ?b" using n bnd by (simp add: mem_simps)
  obtain ys where v: "view mem p n = ?b # ys" using view_Cons [OF n bnd(1)] .
  have lv: "length (view mem p n) = unat n" using bnd by (simp add: view_def)
  then have lt: "length ys = unat n - 1" by (simp add: v)
  note short = short_result [OF False lt]
  note long = long_result [OF False bnd, unfolded v drop_Suc_Cons drop_0 One_nat_def]
  note unfold = parse_rlp_item_def False rd Let_def v
  consider "?b \<le> 0x7f" | "\<not> ?b \<le> 0x7f" "?b \<le> 0xb7" | "\<not> ?b \<le> 0xb7" "?b \<le> 0xbf"
    | "\<not> ?b \<le> 0xbf" "?b \<le> 0xf7" | "\<not> ?b \<le> 0xf7" by blast
  then show ?thesis
  proof cases
    case 1
    then show ?thesis using n lt by (simp add: unfold item_result_def)
  next
    case 2
    then have "0x80 \<le> ?b" by (simp add: word_le_nat_alt)
    note sh = short [OF item_offsets(1) [OF this], of p]
    from 2 have "rlp_split (view mem p n) = take_bytes (unat ?b - 0x80) ys" by (simp add: v)
    then show ?thesis using 2 False unfolding unfold by (simp flip: sh)
  next
    case 3
    then have g: "0xb7 \<le> ?b" "\<not> ?b \<le> 0x7f" by (simp_all add: word_le_nat_alt)
    from long [OF item_offsets(2) [OF g(1)]] 3 g(2) show ?thesis by (simp add: unfold)
  next
    case 4
    then have g: "0xc0 \<le> ?b" "\<not> ?b \<le> 0x7f" "\<not> ?b \<le> 0xb7" by (simp_all add: word_le_nat_alt)
    note sh = short [OF item_offsets(3) [OF g(1)], of p] and n0 = list_payload_fits [OF False item_offsets(3) [OF g(1)]]
    from 4 g have "rlp_split (view mem p n) = take_bytes (unat ?b - 0xc0) ys" by (simp add: v)
    then show ?thesis using 4 g False n0 unfolding unfold by (simp flip: sh)
  next
    case 5
    then have g: "0xf7 \<le> ?b" "\<not> ?b \<le> 0x7f" "\<not> ?b \<le> 0xb7" "\<not> ?b \<le> 0xbf"
      by (simp_all add: word_le_nat_alt)
    from long [OF item_offsets(4) [OF g(1)]] 5 g show ?thesis by (simp add: unfold)
  qed
qed


definition to_hdr :: "size_t \<Rightarrow> rlp_ret \<Rightarrow> hdr_ret" where
  "to_hdr p r = (case r of RlpErr \<Rightarrow> HdrErr | RlpItem ptr len _ \<Rightarrow> Hdr len (ptr - p))"

lemma header_as_item:
  assumes n: "n \<noteq> 0" and rd: "read_at mem (unat p) = Some b" and b: "0xc0 \<le> b"
  shows "parse_rlp_list_header mem p n = map_option (to_hdr p) (parse_rlp_item mem p n)"
proof -
  have g: "\<not> b \<le> 0x7f" "\<not> b \<le> 0xb7" "\<not> b \<le> 0xbf" "b \<ge> 0xf8 \<longleftrightarrow> \<not> b \<le> 0xf7"
    using b by (simp_all add: word_le_nat_alt word_less_nat_alt not_le) presburger
  have L: "unat ((ucast b :: size_t) - 0xc0) = unat b - 0xc0"
    using ucast_sub_const [of "0xc0" b] b by simp
  have "unat b - 0xc0 < 64" using unat_byte_less [of b] by simp
  then have "1 + (ucast b - 0xc0) > n \<longleftrightarrow> ucast b - 0xc0 > n - 1"
    using n L unat_add_size_t [of 1 "ucast b - 0xc0"] unat_gt_0 [of n]
    by (auto simp: word_less_nat_alt unat_minus_one simp del: add_diff_eq diff_add_eq)
  then show ?thesis using n rd b g
    by (cases "rlp_len_loop mem p 0 (unat ((ucast b :: size_t) - 0xf7)) 0")
      (auto simp: parse_rlp_list_header_def parse_rlp_item_def to_hdr_def Let_def diff_diff_add)
qed

lemma parse_rlp_list_header_refines:
  assumes bnd: "unat p + unat n \<le> length mem" "unat p + unat n < 2 ^ 32"
  shows "parse_rlp_list_header mem p n = Some (case rlp_list_split (view mem p n) of
      None \<Rightarrow> HdrErr
    | Some (pl, rest) \<Rightarrow> Hdr (of_nat (length pl)) (of_nat (unat n - length rest - length pl)))"
proof (cases "n = 0")
  case True
  then show ?thesis by (simp add: parse_rlp_list_header_def view_def)
next
  case False
  then have n: "0 < unat n" by (simp add: unat_gt_0)
  let ?b = "mem ! unat p"
  have rd: "read_at mem (unat p) = Some ?b" using n bnd by (simp add: mem_simps)
  have lv: "length (view mem p n) = unat n" using bnd by (simp add: view_def)
  obtain ys where v: "view mem p n = ?b # ys" using view_Cons [OF n bnd(1)] .
  have lsplit: "rlp_list_split (view mem p n) = (if 0xc0 \<le> ?b then rlp_split (view mem p n) else None)"
    by (auto simp: v word_le_nat_alt word_less_nat_alt not_le)
  show ?thesis
  proof (cases "0xc0 \<le> ?b")
    case True
    have dec: "length rest + length pl \<le> unat n" if "rlp_split (view mem p n) = Some (pl, rest)" for pl rest
      using rlp_split_decomp [OF that] arg_cong [OF v, of length] lv by auto
    have off: "of_nat (unat p + unat n - (length rest + length pl)) - p =
        (of_nat (unat n - (length rest + length pl)) :: size_t)"
      if "rlp_split (view mem p n) = Some (pl, rest)" for pl rest
    proof -
      have "unat p + unat n - (length rest + length pl) = unat p + (unat n - (length rest + length pl))"
        using dec [OF that] by simp
      then show ?thesis by (simp only: of_nat_add) simp
    qed
    show ?thesis
      using True False
      by (auto simp: header_as_item [OF False rd True] parse_rlp_item_refines [OF bnd] lsplit
          to_hdr_def item_result_def off split: option.split)
  next
    case F: False
    then have "\<not> 0xf8 \<le> ?b" by (simp add: word_le_nat_alt)
    with F show ?thesis using False by (simp add: lsplit parse_rlp_list_header_def rd)
  qed
qed

end
