(* ===== verification/Rlp_Correct.thy ===== *)
theory Rlp_Correct
  imports Rlp_Spec
begin

text \<open>
  The decoder of \<open>src/rlp_decode.c\<close> against a reference decoder on byte lists
  (\<open>decode_spec\<close>): the code returns 0 exactly on the inputs the reference accepts, stores
  exactly the reference's fields, and never accesses memory outside its arrays. Then what
  acceptance guarantees, what the decoder ignores, and the round trip with the encoder the
  repository's end-to-end tests use (\<open>tests/e2e/qrltx.mjs\<close>).
\<close>


section \<open>The reference decoder\<close>

text \<open>
  One entry per field, in the order of the list: what rejects the field and what accepting it
  stores.
\<close>

type_synonym field_spec = "(bytes \<Rightarrow> bool) \<times> (bytes \<Rightarrow> zond_tx_t \<Rightarrow> zond_tx_t)"

text \<open>A payload at the start of an array that keeps its length; the rest is kept or cleared.\<close>

definition overlay :: "bytes \<Rightarrow> bytes \<Rightarrow> bytes" where
  "overlay pl old = pl @ drop (length pl) old"

definition padded :: "nat \<Rightarrow> bytes \<Rightarrow> bytes" where
  "padded n pl = pl @ replicate (n - length pl) 0"

definition tx_field_specs :: "field_spec list" where
  "tx_field_specs =
     [(\<lambda>pl. length pl > MAX_FIELD_SIZE, \<lambda>pl tx. tx\<lparr>tx_chain_id := overlay pl (tx_chain_id tx),
         tx_chain_id_len := of_nat (length pl)\<rparr>),
      (\<lambda>pl. length pl > 8, \<lambda>pl tx. tx\<lparr>tx_nonce := overlay pl (tx_nonce tx),
         tx_nonce_len := of_nat (length pl)\<rparr>),
      (\<lambda>pl. length pl > MAX_FIELD_SIZE, \<lambda>pl tx. tx\<lparr>tx_gas_tip_cap := overlay pl (tx_gas_tip_cap tx),
         tx_gas_tip_cap_len := of_nat (length pl)\<rparr>),
      (\<lambda>pl. length pl > MAX_FIELD_SIZE, \<lambda>pl tx. tx\<lparr>tx_gas_fee_cap := overlay pl (tx_gas_fee_cap tx),
         tx_gas_fee_cap_len := of_nat (length pl)\<rparr>),
      (\<lambda>pl. length pl > 8, \<lambda>pl tx. tx\<lparr>tx_gas := overlay pl (tx_gas tx),
         tx_gas_len := of_nat (length pl)\<rparr>),
      (\<lambda>pl. length pl \<noteq> ADDRESS_LENGTH \<and> pl \<noteq> [], \<lambda>pl tx. tx\<lparr>tx_to := padded ADDRESS_LENGTH pl,
         tx_to_len := of_nat (length pl)\<rparr>),
      (\<lambda>pl. length pl > MAX_FIELD_SIZE, \<lambda>pl tx. tx\<lparr>tx_value := padded MAX_FIELD_SIZE pl,
         tx_value_len := of_nat (length pl)\<rparr>),
      (\<lambda>pl. length pl > MAX_DATA_SIZE, \<lambda>pl tx. tx\<lparr>tx_data := padded MAX_DATA_SIZE pl,
         tx_data_len := of_nat (length pl)\<rparr>),
      (\<lambda>pl. False, \<lambda>pl tx. tx),
      (\<lambda>pl. pl \<noteq> [1, 0, 0], \<lambda>pl tx. tx\<lparr>tx_descriptor := overlay pl (tx_descriptor tx),
         tx_descriptor_len := of_nat (length pl)\<rparr>),
      (\<lambda>pl. pl \<noteq> [], \<lambda>pl tx. tx)]"

text \<open>Running the field specifications over the input, as the code runs its blocks.\<close>

datatype spec_out = SRejected zond_tx_t | SDone bytes zond_tx_t

fun spec_fields :: "field_spec list \<Rightarrow> bytes \<Rightarrow> zond_tx_t \<Rightarrow> spec_out" where
  "spec_fields [] cur tx = SDone cur tx"
| "spec_fields ((bad, store) # fs) cur tx = (case rlp_split cur of
     None \<Rightarrow> SRejected tx
   | Some (pl, rest) \<Rightarrow> if bad pl then SRejected tx else spec_fields fs rest (store pl tx))"

section \<open>One field of the code against its specification\<close>

text \<open>The decoder's state when \<open>cur\<close> is what is left of the first \<open>L\<close> bytes of the input.\<close>

definition st_of :: "nat \<Rightarrow> bytes \<Rightarrow> zond_tx_t \<Rightarrow> dec_st" where
  "st_of L cur tx = \<lparr>dec_p = of_nat (L - length cur), dec_remaining = of_nat (length cur), dec_tx = tx\<rparr>"

definition field_refines :: "bytes \<Rightarrow> nat \<Rightarrow> (dec_st \<Rightarrow> dec_out option) \<Rightarrow> field_spec \<Rightarrow> bool" where
  "field_refines mem L f sp \<longleftrightarrow> (\<forall>cur tx. suffix cur (take L mem) \<longrightarrow> wf_tx tx \<longrightarrow>
     f (st_of L cur tx) = Some (case rlp_split cur of
         None \<Rightarrow> Rejected tx
       | Some (pl, rest) \<Rightarrow> if fst sp pl then Rejected tx else Going (st_of L rest (snd sp pl tx))) \<and>
     (\<forall>pl rest. rlp_split cur = Some (pl, rest) \<longrightarrow> \<not> fst sp pl \<longrightarrow> wf_tx (snd sp pl tx)))"

lemma block_of_prefix: "take L mem = a @ b @ c \<Longrightarrow> take (length b) (drop (length a) mem) = b"
  by (subst append_take_drop_id [of L mem, symmetric]) (simp del: append_take_drop_id)

lemma sint_of_nat_u32: "k < 2 ^ 31 \<Longrightarrow> sint (of_nat k :: u32) = int k"
  by (simp add: signed_of_nat signed_take_bit_int_eq_self)

text \<open>The item at a position inside the input, and where its payload lies.\<close>

lemma item_at:
  assumes L: "L \<le> length mem" "L < 2 ^ 31" and suf: "suffix cur (take L mem)"
  shows "parse_rlp_item mem (of_nat (L - length cur)) (of_nat (length cur)) =
      Some (item_result (L - length cur) (length cur) (rlp_split cur))" "length cur \<le> L"
proof -
  note of_nat_diff [simp del]
  let ?p = "of_nat (L - length cur) :: size_t" and ?r = "of_nat (length cur) :: size_t"
  show lc: "length cur \<le> L" using suf L suffix_length_le by fastforce
  have up: "unat ?p = L - length cur" and ur: "unat ?r = length cur"
    by (rule unat_of_nat_size_t, use lc L in simp)+
  obtain zs where zs: "take L mem = zs @ cur" using suf by (auto simp: suffix_def)
  have "length (zs @ cur) = L" using L by (simp flip: zs)
  then have lz: "length zs = L - length cur" by simp
  have v: "view mem ?p ?r = cur"
    using block_of_prefix [of L mem zs cur "[]"] zs by (simp add: view_def up ur lz)
  show "parse_rlp_item mem ?p ?r = Some (item_result (L - length cur) (length cur) (rlp_split cur))"
    using parse_rlp_item_refines [of ?p ?r mem] lc L by (simp add: up ur v)
qed

lemma payload_at:
  assumes L: "L \<le> length mem" "L < 2 ^ 31" and suf: "suffix (h @ pl @ rest) (take L mem)"
  shows "unat (of_nat (L - (length rest + length pl)) :: size_t) + unat (of_nat (length pl) :: size_t) \<le> L"
    "view mem (of_nat (L - (length rest + length pl))) (of_nat (length pl)) = pl"
proof -
  note of_nat_diff [simp del]
  obtain zs where zs: "take L mem = (zs @ h) @ pl @ rest" using suf by (auto simp: suffix_def)
  have "length ((zs @ h) @ pl @ rest) = L" using L unfolding zs [symmetric] by simp
  then have lz: "length (zs @ h) = L - (length rest + length pl)" "length rest + length pl \<le> L" by simp_all
  have u: "unat (of_nat (L - (length rest + length pl)) :: size_t) = L - (length rest + length pl)"
    "unat (of_nat (length pl) :: size_t) = length pl"
    by (rule unat_of_nat_size_t, use lz(2) L in simp)+
  show "unat (of_nat (L - (length rest + length pl)) :: size_t) + unat (of_nat (length pl) :: size_t) \<le> L"
    unfolding u using lz(2) by simp
  show "view mem (of_nat (L - (length rest + length pl))) (of_nat (length pl)) = pl"
    unfolding view_def u using block_of_prefix [OF zs] unfolding lz(1) .
qed

lemma rlp_field_refines:
  assumes L: "L \<le> length mem" "L < 2 ^ 31"
    and bad: "\<And>ptr len. unat ptr + unat len \<le> L \<Longrightarrow> bad ptr len = Some (B (view mem ptr len))"
    and store: "\<And>ptr len tx. unat ptr + unat len \<le> L \<Longrightarrow> \<not> B (view mem ptr len) \<Longrightarrow> wf_tx tx \<Longrightarrow>
        store ptr len tx = Some (S (view mem ptr len) tx) \<and> wf_tx (S (view mem ptr len) tx)"
  shows "field_refines mem L (rlp_field mem bad store) (B, S)"
  unfolding field_refines_def
proof (intro allI impI)
  note of_nat_diff [simp del]
  fix cur tx
  assume suf: "suffix cur (take L mem)" and wf: "wf_tx tx"
  let ?p = "of_nat (L - length cur) :: size_t" and ?r = "of_nat (length cur) :: size_t"
  note item = item_at(1) [OF L suf] and lc = item_at(2) [OF L suf]
  show "rlp_field mem bad store (st_of L cur tx) = Some (case rlp_split cur of
         None \<Rightarrow> Rejected tx
       | Some (pl, rest) \<Rightarrow> if fst (B, S) pl then Rejected tx else Going (st_of L rest (snd (B, S) pl tx))) \<and>
     (\<forall>pl rest. rlp_split cur = Some (pl, rest) \<longrightarrow> \<not> fst (B, S) pl \<longrightarrow> wf_tx (snd (B, S) pl tx))"
  proof (cases "rlp_split cur")
    case None
    then show ?thesis by (simp add: rlp_field_def st_of_def item item_result_def)
  next
    case (Some res)
    obtain pl rest where res: "res = (pl, rest)" by (cases res)
    with Some have sp: "rlp_split cur = Some (pl, rest)" by simp
    obtain h where h: "cur = h @ pl @ rest" "h @ pl \<noteq> []" using rlp_split_decomp [OF sp] by blast
    let ?c = "of_nat (length cur - length rest) :: u32"
    have it: "parse_rlp_item mem ?p ?r = Some (RlpItem (of_nat (L - (length rest + length pl))) (of_nat (length pl)) ?c)"
      using lc by (simp add: item sp item_result_def)
    note pay = payload_at [OF L suf [unfolded h(1)]]
    have c0: "\<not> sint ?c < 0" using lc L by (subst sint_of_nat_u32) simp_all
    have p2: "?p + ?c = of_nat (L - length rest)"
      unfolding of_nat_add [symmetric] using lc h by (simp del: of_nat_diff of_nat_add)
    have r2: "?r - ?c = of_nat (length rest)"
      using h by (simp add: of_nat_diff [symmetric] del: of_nat_diff)
    show ?thesis
      using bad [OF pay(1)] store [OF pay(1) _ wf]
      by (auto simp: rlp_field_def st_of_def it c0 pay(2) sp p2 r2)
  qed
qed

lemma length_view: "unat ptr + unat len \<le> length mem \<Longrightarrow> length (view mem ptr len) = unat len"
  by (simp add: view_def)

lemma memcpy_view:
  assumes "unat ptr + unat len \<le> length mem" and "unat len \<le> length dst"
  shows "memcpy_from mem ptr len dst = Some (overlay (view mem ptr len) dst)"
  using assms length_view [OF assms(1)]
  by (simp add: memcpy_from_def mem_simps overlay_def view_def)

lemma ucast_len: "unat ptr + unat len \<le> length mem \<Longrightarrow> ucast len = of_nat (length (view mem ptr len))"
  by (simp add: length_view)

lemma overlay_zeros: "length pl \<le> n \<Longrightarrow> overlay pl (replicate n 0) = padded n pl"
  by (simp add: overlay_def padded_def)

lemma view_0: "view mem p 0 = []"
  by (simp add: view_def)

lemma padded_Nil: "padded n [] = replicate n 0"
  by (simp add: padded_def)

lemma length_overlay: "length pl \<le> length old \<Longrightarrow> length (overlay pl old) = length old"
  by (simp add: overlay_def)

lemma length_padded: "length pl \<le> n \<Longrightarrow> length (padded n pl) = n"
  by (simp add: padded_def)

lemma view_nth:
  "k < unat len \<Longrightarrow> unat ptr + unat len \<le> length mem \<Longrightarrow> view mem ptr len ! k = mem ! (unat ptr + k)"
  by (simp add: view_def)

lemma bad_descriptor_view:
  assumes "unat ptr + unat len \<le> L" and "L \<le> length mem" and "L < 2 ^ 31"
  shows "bad_descriptor mem ptr len = Some (view mem ptr len \<noteq> [1, 0, 0])"
proof (cases "len = 3")
  case False
  then have "length (view mem ptr len) \<noteq> 3"
    using assms by (simp add: length_view word_unat_eq_iff)
  then have "view mem ptr len \<noteq> [1, 0, 0]" by auto
  then show ?thesis using False by (simp add: bad_descriptor_def)
next
  case True
  then have l: "unat len = 3" by simp
  then have a: "unat (ptr + 1) = unat ptr + 1" "unat (ptr + 2) = unat ptr + 2"
    using assms unat_add_size_t [of ptr 1] unat_add_size_t [of ptr 2] by simp_all
  have "view mem ptr len = [mem ! unat ptr, mem ! (unat ptr + 1), mem ! (unat ptr + 2)]"
    using assms l by (intro nth_equalityI) (auto simp: length_view view_nth nth_Cons' less_Suc_eq numeral_3_eq_3)
  then show ?thesis
    using assms l by (simp add: bad_descriptor_def True a mem_simps)
qed

lemma tx_decoders_refine:
  assumes L: "L \<le> length mem" "L < 2 ^ 31"
  shows "list_all2 (field_refines mem L) (tx_decoders mem) tx_field_specs"
proof -
  have b: "unat ptr + unat len \<le> length mem" if "unat ptr + unat len \<le> L" for ptr len :: size_t
    using that L by simp
  have z: "view mem ptr len = [] \<longleftrightarrow> len = 0" if "unat ptr + unat len \<le> L" for ptr len :: size_t
    using length_view [OF b [OF that]] by (auto simp: word_unat_eq_iff)
  have d: "unat len = 3"
    if "unat ptr + unat len \<le> L" and "view mem ptr len = [1, 0, 0]" for ptr len :: size_t
    using length_view [OF b [OF that(1)]] that(2) by simp
  note facts = b length_view memcpy_view length_overlay length_padded mem_simps
    wf_tx_def size_consts overlay_zeros padded_Nil view_0 bad_descriptor_view [OF _ L] z
  have m64: "memcpy_from mem ptr len (replicate 64 0) = Some (padded 64 (view mem ptr len)) \<and>
      length (padded 64 (view mem ptr len)) = 64"
    if "unat ptr + 64 \<le> L" and "unat len = 64" for ptr len :: size_t
    using that b [of ptr len]
    by (simp add: memcpy_view length_view overlay_zeros length_padded)
  have desc: "field_refines mem L (decode_descriptor mem) (\<lambda>pl. pl \<noteq> [1, 0, 0],
      \<lambda>pl tx. tx\<lparr>tx_descriptor := overlay pl (tx_descriptor tx), tx_descriptor_len := of_nat (length pl)\<rparr>)"
    unfolding decode_descriptor_def
  proof (rule rlp_field_refines [OF L])
    fix ptr len :: size_t and tx
    assume inb: "unat ptr + unat len \<le> L" and ok: "\<not> view mem ptr len \<noteq> [1, 0, 0]" and wf: "wf_tx tx"
    have u: "unat len = 3" using d [OF inb] ok by simp
    then have "len = 3" by (simp add: word_unat_eq_iff)
    then show "(do { a \<leftarrow> memcpy_from mem ptr len (tx_descriptor tx);
          Some (tx\<lparr>tx_descriptor := a, tx_descriptor_len := ucast len\<rparr>) }) =
        Some (tx\<lparr>tx_descriptor := overlay (view mem ptr len) (tx_descriptor tx),
          tx_descriptor_len := of_nat (length (view mem ptr len))\<rparr>) \<and>
        wf_tx (tx\<lparr>tx_descriptor := overlay (view mem ptr len) (tx_descriptor tx),
          tx_descriptor_len := of_nat (length (view mem ptr len))\<rparr>)"
      using wf b [OF inb] ok by (simp add: memcpy_view wf_tx_def length_overlay)
  qed (simp add: facts)
  show ?thesis
    unfolding tx_decoders_def tx_field_specs_def decode_chain_id_def decode_nonce_def
      decode_gas_tip_cap_def decode_gas_fee_cap_def decode_gas_def decode_to_def decode_value_def
      decode_data_def decode_access_list_def decode_extra_params_def
    by (intro list.rel_intros desc rlp_field_refines [OF L]) (simp_all add: facts word_gt_0, auto simp: m64)
qed

fun step_result :: "nat \<Rightarrow> spec_out \<Rightarrow> dec_out" where
  "step_result L (SRejected tx) = Rejected tx"
| "step_result L (SDone cur tx) = Going (st_of L cur tx)"

fun spec_tx :: "spec_out \<Rightarrow> zond_tx_t" where
  "spec_tx (SRejected tx) = tx"
| "spec_tx (SDone _ tx) = tx"

lemma run_fields_refines:
  assumes "list_all2 (field_refines mem L) fs specs" and "suffix cur (take L mem)" and "wf_tx tx"
  shows "run_fields fs (st_of L cur tx) = Some (step_result L (spec_fields specs cur tx)) \<and>
    wf_tx (spec_tx (spec_fields specs cur tx))"
  using assms
proof (induction fs specs arbitrary: cur tx rule: list_all2_induct)
  case Nil
  then show ?case by simp
next
  case (Cons f fs sp specs)
  obtain bad store where sp: "sp = (bad, store)" by (cases sp)
  note ref = Cons.hyps(1) [unfolded field_refines_def, rule_format, OF Cons.prems]
  show ?case
  proof (cases "rlp_split cur")
    case None
    then show ?thesis using ref Cons.prems by (simp add: sp)
  next
    case (Some res)
    obtain pl rest where res: "res = (pl, rest)" by (cases res)
    show ?thesis
    proof (cases "bad pl")
      case True
      then show ?thesis using ref Some Cons.prems by (simp add: sp res)
    next
      case False
      have "suffix rest (take L mem)"
        using rlp_split_decomp [of cur pl rest] Some Cons.prems(1)
        by (auto simp: res suffix_def)
      moreover have "wf_tx (store pl tx)" using ref Some False by (simp add: sp res)
      ultimately show ?thesis using ref Some False Cons.IH by (simp add: sp res)
    qed
  qed
qed

definition fields_accepted :: "field_spec list \<Rightarrow> bytes list \<Rightarrow> bool" where
  "fields_accepted specs its = list_all2 (\<lambda>sp pl. \<not> fst sp pl) specs its"

fun store_all :: "field_spec list \<Rightarrow> bytes list \<Rightarrow> zond_tx_t \<Rightarrow> zond_tx_t" where
  "store_all (sp # specs) (pl # its) tx = store_all specs its (snd sp pl tx)"
| "store_all _ _ tx = tx"

lemma spec_fields_SDone:
  "spec_fields specs cur tx = SDone rest tx' \<longleftrightarrow>
     (\<exists>its. read_items rlp_split (length specs) cur = Some (its, rest) \<and>
        fields_accepted specs its \<and> tx' = store_all specs its tx)"
proof (induction specs arbitrary: cur tx)
  case Nil
  then show ?case by (auto simp: fields_accepted_def)
next
  case (Cons sp specs)
  obtain bad store where sp: "sp = (bad, store)" by (cases sp)
  show ?case
    using Cons.IH
    by (auto simp: sp fields_accepted_def split: option.splits)
qed

definition fields_ok :: "bytes list \<Rightarrow> bool" where
  "fields_ok its = fields_accepted tx_field_specs its"

definition store_fields :: "bytes list \<Rightarrow> zond_tx_t \<Rightarrow> zond_tx_t" where
  "store_fields its tx = store_all tx_field_specs its tx"

definition decode_spec :: "bytes \<Rightarrow> bytes list option" where
  "decode_spec bs = (case bs of
     [] \<Rightarrow> None
   | t # body \<Rightarrow>
       if t \<noteq> 0x02 then None else
       (case rlp_list_split body of
          None \<Rightarrow> None
        | Some (payload, _) \<Rightarrow>
            (case read_items rlp_split 11 payload of
               Some (its, []) \<Rightarrow> if fields_ok its then Some its else None
             | _ \<Rightarrow> None)))"

lemma length_tx_field_specs: "length tx_field_specs = 11"
  by (simp add: tx_field_specs_def)

lemma rlp_list_split_decomp: "rlp_list_split bs = Some (pl, rest) \<Longrightarrow> \<exists>h. bs = h @ pl @ rest \<and> h \<noteq> []"
  by (cases bs) (auto simp: take_bytes_Some take_long_Some split: if_splits)

lemma spec_fields_payload:
  "(\<exists>tx'. spec_fields tx_field_specs (payload @ rest) tx = SDone rest tx') \<longleftrightarrow>
   (\<exists>its. read_items rlp_split 11 payload = Some (its, []) \<and> fields_ok its)"
  by (auto simp: spec_fields_SDone length_tx_field_specs fields_ok_def
      dest: rlp.items_cut rlp.items_append [where ys = rest])

lemma payload_end_iff:
  assumes "suffix rest' (payload @ rest)" and "length (payload @ rest) < 2 ^ 31" and "length (payload @ rest) \<le> L" "L < 2 ^ 31"
  shows "(of_nat (L - length rest') :: size_t) = of_nat (L - length rest) \<longleftrightarrow> rest' = rest"
proof
  assume eq: "(of_nat (L - length rest') :: size_t) = of_nat (L - length rest)"
  have l: "length rest' \<le> length (payload @ rest)" using assms(1) by (rule suffix_length_le)
  have "unat (of_nat (L - length rest') :: size_t) = unat (of_nat (L - length rest) :: size_t)"
    using eq by simp
  then have "L - length rest' = L - length rest"
    using assms(4) by (subst (asm) (1 2) unat_of_nat_size_t) auto
  then have "length rest' = length rest" using l assms(3) by simp
  with assms(1) show "rest' = rest" by (auto simp: suffix_def append_eq_append_conv2)
qed simp

lemma st_of_simps [simp]:
  "dec_p (st_of L cur tx) = of_nat (L - length cur)"
  "dec_tx (st_of L cur tx) = tx"
  by (simp_all add: st_of_def)

lemma spec_fields_suffix: "spec_fields specs cur tx = SDone rest tx' \<Longrightarrow> suffix rest cur"
  by (auto simp: spec_fields_SDone suffix_def dest: rlp.items_suffix)

text \<open>The part of the decoder after the list header has been read.\<close>

lemma decode_payload:
  assumes L: "L \<le> length mem" "L < 2 ^ 31" and wf: "wf_tx tx"
    and suf: "suffix (payload @ rest) (take L mem)"
  shows "\<exists>ret tx'. (do {
      r \<leftarrow> run_fields (tx_decoders mem) (st_of L (payload @ rest) tx);
      Some (payload_result (of_nat (L - length rest)) r) }) = Some (ret, Some tx') \<and> wf_tx tx' \<and>
    (case read_items rlp_split 11 payload of
       Some (its, []) \<Rightarrow> if fields_ok its then ret = (0 :: int) \<and> tx' = store_fields its tx else ret = -1
     | _ \<Rightarrow> ret = -1)"
proof -
  let ?out = "spec_fields tx_field_specs (payload @ rest) tx"
  have run: "run_fields (tx_decoders mem) (st_of L (payload @ rest) tx) = Some (step_result L ?out)"
    and wf': "wf_tx (spec_tx ?out)"
    using run_fields_refines [OF tx_decoders_refine [OF L] suf wf] by simp_all
  have pl: "length (payload @ rest) \<le> L"
    using suffix_length_le [OF suf] L by simp
  show ?thesis
  proof (cases "\<exists>its. read_items rlp_split 11 payload = Some (its, []) \<and> fields_ok its")
    case True
    then obtain its where its: "read_items rlp_split 11 payload = Some (its, [])" "fields_ok its" by blast
    then have out: "?out = SDone rest (store_fields its tx)"
      using rlp.items_append [OF its(1), of rest]
      by (auto simp: spec_fields_SDone length_tx_field_specs fields_ok_def store_fields_def)
    show ?thesis using wf' by (simp add: run out its payload_result_def)
  next
    case False
    have reject: "dec_p (st_of L r t) \<noteq> of_nat (L - length rest)" if "?out = SDone r t" for r t
      using that False payload_end_iff [OF spec_fields_suffix [OF that] _ pl] spec_fields_payload [of payload rest tx] pl L
      by (auto simp del: of_nat_diff)
    show ?thesis using False wf' reject
      by (cases ?out) (auto simp: run payload_result_def split: option.split list.split)
  qed
qed

lemma list_header_at_one:
  assumes len: "unat len \<le> length mem" "unat len < 2 ^ 31" "len \<noteq> 0" and pre: "take (unat len) mem = v # body"
  shows "length body = unat len - 1"
    "parse_rlp_list_header mem 1 (len - 1) = Some (case rlp_list_split body of
      None \<Rightarrow> HdrErr
    | Some (pl, rest) \<Rightarrow> Hdr (of_nat (length pl)) (of_nat (unat len - 1 - length rest - length pl)))"
proof -
  define L where "L = unat len"
  have L: "0 < L" "L \<le> length mem" "L < 2 ^ 31" using len by (simp_all add: L_def unat_gt_0)
  have "length (v # body) = L" using L by (simp add: L_def flip: pre)
  then show "length body = unat len - 1" by (simp add: L_def)
  have u1: "unat (len - 1) = L - 1" using len by (simp add: unat_minus_one L_def)
  have v: "view mem 1 (len - 1) = body"
    using pre [folded L_def] L unfolding view_def u1 by (cases mem; cases L) auto
  show "parse_rlp_list_header mem 1 (len - 1) = Some (case rlp_list_split body of
      None \<Rightarrow> HdrErr
    | Some (pl, rest) \<Rightarrow> Hdr (of_nat (length pl)) (of_nat (unat len - 1 - length rest - length pl)))"
    using parse_rlp_list_header_refines [of 1 "len - 1" mem] L unfolding v u1 L_def by simp
qed

lemma decode_ledger_tx_fields:
  assumes len: "unat len \<le> length mem" "unat len < 2 ^ 31" "len \<noteq> 0" and pre: "take (unat len) mem = 0x02 # body"
    and ls: "rlp_list_split body = Some (payload, rest)"
  shows "decode_ledger_tx (Some mem) len (Some tx) = (do {
      r \<leftarrow> run_fields (tx_decoders mem) (st_of (unat len) (payload @ rest) tx);
      Some (payload_result (of_nat (unat len - length rest)) r) })"
    "suffix (payload @ rest) (take (unat len) mem)"
proof -
  define L where "L = unat len"
  have L: "0 < L" "L \<le> length mem" "L < 2 ^ 31" using len by (simp_all add: L_def unat_gt_0)
  note lb = list_header_at_one(1) [OF len pre, folded L_def]
  have m0: "read_at mem 0 = Some 0x02" using L pre by (cases mem; cases "unat len") (auto simp: mem_simps L_def)
  obtain h where h: "body = h @ payload @ rest" using rlp_list_split_decomp [OF ls] by blast
  show "suffix (payload @ rest) (take (unat len) mem)" by (auto simp: pre h suffix_def)
  have l1: "len - 1 = of_nat (L - 1)" unfolding L_def unat_minus_one [OF len(3), symmetric] by simp
  have e: "L - 1 - length rest - length payload = length h" "L - 1 = length h + length (payload @ rest)"
      "L - length (payload @ rest) = 1 + length h" "L - length rest = 1 + length h + length payload"
    using lb h L by simp_all
  have hdr: "parse_rlp_list_header mem 1 (len - 1) = Some (Hdr (of_nat (length payload)) (of_nat (length h)))"
    unfolding list_header_at_one(2) [OF len pre, folded L_def] ls by (simp only: option.case prod.case e(1))
  have rem: "len - 1 - of_nat (length h) = of_nat (length (payload @ rest))"
    unfolding l1 e(2) of_nat_add by simp
  have p: "1 + of_nat (length h) = (of_nat (L - length (payload @ rest)) :: size_t)"
    unfolding e(3) by simp
  have pe: "1 + of_nat (length h) + of_nat (length payload) = (of_nat (L - length rest) :: size_t)"
    unfolding e(4) by simp
  have st: "\<lparr>dec_p = 1 + of_nat (length h), dec_remaining = len - 1 - of_nat (length h), dec_tx = tx\<rparr> =
      st_of L (payload @ rest) tx"
    unfolding rem p st_of_def ..
  have ng: "\<not> of_nat (length payload) > (of_nat (length (payload @ rest)) :: size_t)"
    using lb h L by (simp add: word_less_nat_alt unat_of_nat_size_t flip: of_nat_add)
  show "decode_ledger_tx (Some mem) len (Some tx) = (do {
      r \<leftarrow> run_fields (tx_decoders mem) (st_of (unat len) (payload @ rest) tx);
      Some (payload_result (of_nat (unat len - length rest)) r) })"
    unfolding L_def [symmetric] using len m0 ng
    by (simp add: decode_ledger_tx_def hdr rem st [unfolded rem length_append of_nat_add] pe)
qed

lemma decode_ledger_tx_spec:
  assumes len: "unat len \<le> length mem" "unat len < 2 ^ 31" and wf: "wf_tx tx"
  shows "\<exists>ret tx'. decode_ledger_tx (Some mem) len (Some tx) = Some (ret, Some tx') \<and> wf_tx tx' \<and>
    (case decode_spec (take (unat len) mem) of
       None \<Rightarrow> ret = -1
     | Some its \<Rightarrow> ret = 0 \<and> tx' = store_fields its tx)"
proof (cases "len = 0")
  case True
  then show ?thesis using wf by (simp add: decode_ledger_tx_def decode_spec_def)
next
  case False
  define L where "L = unat len"
  have L: "0 < L" "L \<le> length mem" "L < 2 ^ 31" using len False by (simp_all add: L_def unat_gt_0)
  then have m0: "read_at mem 0 = Some (mem ! 0)" by (intro mem_simps) linarith
  obtain body where pre: "take L mem = mem ! 0 # body" using L by (cases mem; cases L) auto
  show ?thesis
  proof (cases "mem ! 0 = 0x02 \<and> rlp_list_split body \<noteq> None")
    case True
    then obtain payload rest where ls: "rlp_list_split body = Some (payload, rest)" by auto
    note run = decode_ledger_tx_fields [OF len False pre [unfolded True [THEN conjunct1] L_def] ls, folded L_def]
    have "decode_spec (take (unat len) mem) = (case read_items rlp_split 11 payload of
          Some (its, []) \<Rightarrow> if fields_ok its then Some its else None | _ \<Rightarrow> None)"
      using True by (simp add: decode_spec_def ls pre flip: L_def)
    then show ?thesis
      using decode_payload [OF L(2,3) wf run(2)] by (auto simp: run(1) split: option.splits list.splits if_splits)
  next
    case F: False
    then show ?thesis using False m0 wf
      by (cases "rlp_list_split body")
        (auto simp: decode_ledger_tx_def list_header_at_one(2) [OF len False pre [unfolded L_def]] decode_spec_def pre L_def [symmetric])
  qed
qed


text \<open>
  C9. The decoder is total and memory safe and computes the reference decoder: for every input
  buffer and every length up to its size and below \<open>2 ^ 31\<close> bytes (the application's messages have
  at most 2048), no access leaves the input, the fields or the
  transaction; it returns 0 exactly when the input is a type-2 byte, a list header and exactly
  eleven items inside that list that pass the field checks, and then the transaction holds exactly
  those payloads; otherwise it returns -1.
\<close>

theorem decode_ledger_tx_refines:
  assumes "unat len \<le> length mem" and "unat len < 2 ^ 31" and "wf_tx tx"
  shows "\<exists>ret tx'. decode_ledger_tx (Some mem) len (Some tx) = Some (ret, Some tx') \<and> wf_tx tx' \<and>
    (case decode_spec (take (unat len) mem) of
       None \<Rightarrow> ret = -1
     | Some its \<Rightarrow> ret = 0 \<and> tx' = store_fields its tx)"
  using assms by (rule decode_ledger_tx_spec)

text \<open>The contract-creation vector of the unit tests.\<close>

definition contract_creation_vector :: bytes where
  "contract_creation_vector = [0x02, 0xe4, 0x83, 0x30, 0x18, 0x24, 0x01, 0x84, 0x3b, 0x9a, 0xca, 0x00, 0x85, 0x02, 0x54,
     0x0b, 0xe4, 0x00, 0x83, 0x07, 0xa1, 0x20, 0x80, 0x87, 0x23, 0x86, 0xf2, 0x6f, 0xc1, 0x00,
     0x00, 0x80, 0xc0, 0x83, 0x01, 0x00, 0x00, 0x80]"

lemma decode_spec_contract_creation:
  "decode_spec contract_creation_vector =
     Some [[0x30, 0x18, 0x24], [0x01], [0x3b, 0x9a, 0xca, 0x00], [0x02, 0x54, 0x0b, 0xe4, 0x00],
       [0x07, 0xa1, 0x20], [], [0x23, 0x86, 0xf2, 0x6f, 0xc1, 0x00, 0x00], [], [], [1, 0, 0], []]"
  by (simp add: decode_spec_def contract_creation_vector_def take_bytes_def fields_ok_def
      fields_accepted_def tx_field_specs_def size_consts read_items_numeral)

lemma contract_creation_length:
  "unat (38 :: size_t) \<le> length contract_creation_vector" "unat (38 :: size_t) < 2 ^ 31"
  "take 38 contract_creation_vector = contract_creation_vector"
  by (simp_all add: contract_creation_vector_def)

definition contract_creation_tx :: zond_tx_t where
  "contract_creation_tx = store_fields [[0x30, 0x18, 0x24], [0x01], [0x3b, 0x9a, 0xca, 0x00],
     [0x02, 0x54, 0x0b, 0xe4, 0x00], [0x07, 0xa1, 0x20], [], [0x23, 0x86, 0xf2, 0x6f, 0xc1, 0x00, 0x00],
     [], [], [1, 0, 0], []] zero_tx"

lemma contract_creation_tx_fields:
  "tx_to_len contract_creation_tx = 0"
  "tx_descriptor contract_creation_tx = [1, 0, 0]"
  "tx_value contract_creation_tx = [0x23, 0x86, 0xf2, 0x6f, 0xc1] @ replicate 27 0"
  by (simp_all add: contract_creation_tx_def store_fields_def tx_field_specs_def padded_def overlay_def zero_tx_def size_consts
      numeral_eq_Suc)

lemma contract_creation_decodes:
  "decode_ledger_tx (Some contract_creation_vector) 38 (Some zero_tx) = Some (0, Some contract_creation_tx)"
  using decode_ledger_tx_spec [OF contract_creation_length(1,2) wf_zero_tx]
  by (auto simp: contract_creation_length(3) decode_spec_contract_creation contract_creation_tx_def)

theorem decode_ledger_tx_refines_witness:
  "\<exists>tx'. decode_ledger_tx (Some contract_creation_vector) 38 (Some zero_tx) = Some (0, Some tx') \<and>
     tx_to_len tx' = 0 \<and> tx_value tx' = [0x23, 0x86, 0xf2, 0x6f, 0xc1] @ replicate 27 0"
  using decode_ledger_tx_refines [OF contract_creation_length(1,2) wf_zero_tx] contract_creation_tx_fields
  by (auto simp: contract_creation_length(3) decode_spec_contract_creation contract_creation_tx_def)

lemma fields_ok_cases:
  assumes "fields_ok its"
  obtains c n t f g r v d a where "its = [c, n, t, f, g, r, v, d, a, [1, 0, 0], []]"
    "length c \<le> 32" "length n \<le> 8" "length t \<le> 32" "length f \<le> 32" "length g \<le> 8"
    "length r = 64 \<or> r = []" "length v \<le> 32" "length d \<le> 2048"
  using assms
  by (auto simp: fields_ok_def fields_accepted_def tx_field_specs_def size_consts list_all2_Cons1 not_less)

lemma decode_spec_fields_ok: "decode_spec bs = Some its \<Longrightarrow> fields_ok its"
  by (auto simp: decode_spec_def split: list.splits if_splits option.splits prod.splits)

lemma store_fields_bounds:
  assumes ok: "fields_ok its" and wf: "wf_tx tx"
  defines "tx' \<equiv> store_fields its tx"
  shows "wf_tx tx' \<and> tx_descriptor tx' = [1, 0, 0] \<and> tx_descriptor_len tx' = 3 \<and>
    (tx_to_len tx' = 0 \<or> tx_to_len tx' = 64) \<and> (tx_to_len tx' = 0 \<longrightarrow> tx_to tx' = replicate 64 0) \<and>
    tx_chain_id_len tx' \<le> 32 \<and> tx_nonce_len tx' \<le> 8 \<and> tx_gas_tip_cap_len tx' \<le> 32 \<and>
    tx_gas_fee_cap_len tx' \<le> 32 \<and> tx_gas_len tx' \<le> 8 \<and> tx_value_len tx' \<le> 32 \<and>
    tx_data_len tx' \<le> 2048"
  using fields_ok_cases [OF ok]
proof cases
  case 1
  then show ?thesis using wf
    by (auto simp: tx'_def store_fields_def tx_field_specs_def overlay_def padded_def size_consts
        wf_tx_def word_le_nat_alt unat_of_nat take_bit_nat_eq_self)
qed

text \<open>
  C19. What acceptance guarantees to the review and signing code: the descriptor is exactly 01 00 00,
  the recipient is absent (and its array zero) or 64 bytes, every length fits its array (for
  inputs of less than \<open>2 ^ 31\<close> bytes).
\<close>

theorem decode_accepts_only:
  assumes len: "unat len \<le> length mem" "unat len < 2 ^ 31" and wf: "wf_tx tx"
    and acc: "decode_ledger_tx (Some mem) len (Some tx) = Some (0, Some tx')"
  shows "wf_tx tx' \<and> tx_descriptor tx' = [1, 0, 0] \<and> tx_descriptor_len tx' = 3 \<and>
    (tx_to_len tx' = 0 \<or> tx_to_len tx' = 64) \<and> (tx_to_len tx' = 0 \<longrightarrow> tx_to tx' = replicate 64 0) \<and>
    tx_chain_id_len tx' \<le> 32 \<and> tx_nonce_len tx' \<le> 8 \<and> tx_gas_tip_cap_len tx' \<le> 32 \<and>
    tx_gas_fee_cap_len tx' \<le> 32 \<and> tx_gas_len tx' \<le> 8 \<and> tx_value_len tx' \<le> 32 \<and>
    tx_data_len tx' \<le> 2048"
proof -
  from decode_ledger_tx_spec [OF len wf] acc obtain its
    where its: "decode_spec (take (unat len) mem) = Some its" and tx': "tx' = store_fields its tx"
    by (auto split: option.splits)
  from store_fields_bounds [OF decode_spec_fields_ok [OF its] wf] show ?thesis unfolding tx' .
qed

lemma rlp_list_split_append:
  "rlp_list_split bs = Some (pl, rest) \<Longrightarrow> rlp_list_split (bs @ ys) = Some (pl, rest @ ys)"
  by (cases bs) (auto intro: take_bytes_append take_long_append split: if_splits)

lemma decode_spec_append: "decode_spec bs = Some its \<Longrightarrow> decode_spec (bs @ junk) = Some its"
  by (auto simp: decode_spec_def rlp_list_split_append split: list.splits if_splits option.splits prod.splits)

text \<open>
  C38. Bytes after the list are ignored: an accepted preimage followed by anything is accepted with
  the same decoded transaction (less than \<open>2 ^ 31\<close> bytes in all), although the transaction format
  says the list is the whole preimage.
\<close>

theorem decode_ignores_trailing_bytes:
  assumes acc: "decode_ledger_tx (Some bs) (of_nat (length bs)) (Some tx) = Some (0, Some tx')"
    and wf: "wf_tx tx" and len: "length (bs @ junk) < 2 ^ 31"
  shows "decode_ledger_tx (Some (bs @ junk)) (of_nat (length (bs @ junk))) (Some tx) = Some (0, Some tx')"
proof -
  have u: "unat (of_nat (length bs) :: size_t) = length bs"
    and uj: "unat (of_nat (length (bs @ junk)) :: size_t) = length (bs @ junk)"
    by (rule unat_of_nat_size_t, use len in simp)+
  from decode_ledger_tx_spec [of "of_nat (length bs)" bs tx, unfolded u] acc wf len obtain its
    where its: "decode_spec bs = Some its" and tx': "tx' = store_fields its tx"
    by (auto split: option.splits)
  from decode_ledger_tx_spec [of "of_nat (length (bs @ junk))" "bs @ junk" tx, unfolded uj] wf len
    decode_spec_append [OF its, of junk]
  show ?thesis by (auto simp: tx')
qed

text \<open>
  C39. On the 32-bit target an eight-byte length field is read modulo \<open>2 ^ 32\<close>: its four high bytes
  are shifted out of \<open>size_t\<close>, whatever they are, and the item is accepted with the length in the
  four low bytes.
\<close>

theorem parse_rlp_item_length_mod_2_32:
  assumes h: "length hi = 4" and lo: "length lo = 4" and len: "be_nat lo = length pl"
    and b: "pfx = 0xbf \<or> pfx = 0xff" and bnd: "length (pfx # hi @ lo @ pl @ rest) < 2 ^ 31"
  shows "parse_rlp_item (pfx # hi @ lo @ pl @ rest) 0 (of_nat (length (pfx # hi @ lo @ pl @ rest))) =
    Some (RlpItem 9 (of_nat (length pl)) (of_nat (9 + length pl)))"
proof -
  let ?m = "pfx # hi @ lo @ pl @ rest"
  have u: "unat (of_nat (length ?m) :: size_t) = length ?m"
    by (rule unat_of_nat_size_t) (use bnd in simp)
  have "be_nat (hi @ lo) mod 2 ^ 32 = length pl"
    using be_nat_less [of lo] lo len
    by (simp add: be_nat_append)
  then have "take_long 8 (hi @ lo @ pl @ rest) = Some (pl, rest)"
    unfolding take_long_Some using h lo by (intro exI [of _ "hi @ lo"]) simp
  then have sp: "rlp_split ?m = Some (pl, rest)" using b by auto
  have v: "view ?m 0 (of_nat (length ?m)) = ?m" unfolding view_def u by simp
  have e: "unat (0 :: size_t) + length ?m - length rest - length pl = 9"
    "length ?m - length rest = 9 + length pl" using h lo by simp_all
  have "parse_rlp_item ?m 0 (of_nat (length ?m)) =
      Some (item_result (unat (0 :: size_t)) (length ?m) (Some (pl, rest)))"
    using parse_rlp_item_refines [of 0 "of_nat (length ?m)" ?m] bnd unfolding u v sp by simp
  then show ?thesis unfolding item_result_def option.case prod.case e by simp
qed

theorem decode_accepts_only_witness:
  "tx_descriptor contract_creation_tx = [1, 0, 0] \<and>
   (tx_to_len contract_creation_tx = 0 \<or> tx_to_len contract_creation_tx = 64) \<and>
   wf_tx contract_creation_tx"
  using decode_accepts_only [OF contract_creation_length(1,2) wf_zero_tx contract_creation_decodes] by blast

theorem decode_ignores_trailing_bytes_witness:
  "decode_ledger_tx (Some (contract_creation_vector @ [0xde, 0xad])) 40 (Some zero_tx) =
     Some (0, Some contract_creation_tx)"
proof -
  have l: "length contract_creation_vector = 38" by (simp add: contract_creation_vector_def)
  show ?thesis
    using decode_ignores_trailing_bytes [of contract_creation_vector zero_tx contract_creation_tx "[0xde, 0xad]"]
      contract_creation_decodes wf_zero_tx by (simp add: l)
qed

theorem parse_rlp_item_length_mod_2_32_witness:
  "parse_rlp_item [0xbf, 0xff, 0xff, 0xff, 0xff, 0, 0, 0, 2, 0xaa, 0xbb] 0 11 = Some (RlpItem 9 2 11)"
  using parse_rlp_item_length_mod_2_32 [of "[0xff, 0xff, 0xff, 0xff]" "[0, 0, 0, 2]" "[0xaa, 0xbb]" "0xbf" "[]"]
  by (simp add: be_simps)

end
