(* ===== verification/Format.thy ===== *)
theory Format
  imports Ledger_Types
begin

text \<open>
  The text conversions of the display: \<open>bytes_to_hex_string\<close> (\<open>src/ui/ui_utils.c\<close>) and
  \<open>uint8_array_to_decimal\<close>, \<open>format_with_decimals\<close>, \<open>convert_amount_to_eth\<close>
  (\<open>src/ui/nbgl_display_transaction.c\<close>). A destination buffer is its capacity; the result is the
  string stored, without its NUL, or \<open>None\<close> when the code writes outside a buffer.
\<close>


section \<open>Decimal digits\<close>

definition MAX_DECIMAL_DIGITS :: nat where "MAX_DECIMAL_DIGITS = 40"
definition MAX_RESULT_LEN :: nat where "MAX_RESULT_LEN = 50"

definition digit_char :: "nat \<Rightarrow> char" where
  "digit_char r = char_of (of_char (CHR ''0'') + r)"

text \<open>
  One round of the inner loop divides the number in \<open>temp\<close> by ten in place. The result is the
  new \<open>temp\<close>, the remainder and \<open>is_zero\<close>.
\<close>

fun div10_pass :: "nat \<Rightarrow> bytes \<Rightarrow> bytes \<times> nat \<times> bool" where
  "div10_pass remainder [] = ([], remainder, True)"
| "div10_pass remainder (b # bs) =
     (let val = push_bit 8 remainder OR unat b;
          q = of_nat (val div 10);
          (bs', remainder', is_zero) = div10_pass (val mod 10) bs
      in (q # bs', remainder', q = 0 \<and> is_zero))"

text \<open>
  The outer loop fills \<open>result\<close> from its end; \<open>digits\<close> is the part written so far and
  \<open>result_index\<close> its start. A write at index -1 is \<open>None\<close>.
\<close>

fun decimal_loop :: "nat \<Rightarrow> bytes \<Rightarrow> string \<Rightarrow> string option" where
  "decimal_loop 0 temp digits = None"
| "decimal_loop (Suc result_index) temp digits =
     (let (temp', remainder, is_zero) = div10_pass 0 temp;
          digits' = digit_char remainder # digits
      in if is_zero then Some digits' else decimal_loop result_index temp' digits')"

definition uint8_array_to_decimal :: "bytes \<Rightarrow> nat \<Rightarrow> nat \<Rightarrow> string option" where
  "uint8_array_to_decimal bytes len out_cap = do {
     src \<leftarrow> read_block bytes 0 len;
     temp \<leftarrow> write_block (replicate 32 0) 0 src;
     digits \<leftarrow> decimal_loop MAX_DECIMAL_DIGITS (take len temp) [];
     put_string out_cap digits
   }"


section \<open>The decimal point\<close>

text \<open>\<open>for (...; i < n && pos < MAX_RESULT_LEN - 1; ...) buffer[pos++] = ...\<close>.\<close>

fun append_bounded :: "string \<Rightarrow> string \<Rightarrow> string" where
  "append_bounded buffer [] = buffer"
| "append_bounded buffer (c # cs) =
     (if length buffer < MAX_RESULT_LEN - 1 then append_bounded (buffer @ [c]) cs else buffer)"

text \<open>The trimming loops from the end of the buffer, on the reversed string.\<close>

fun trim_zeros :: "string \<Rightarrow> string" where
  "trim_zeros (c # d # cs) = (if c = CHR ''0'' then trim_zeros (d # cs) else c # d # cs)"
| "trim_zeros cs = cs"

definition trim_end :: "string \<Rightarrow> string" where
  "trim_end buffer =
     (case trim_zeros (rev buffer) of
        [] \<Rightarrow> []
      | c # cs \<Rightarrow> if c = CHR ''.'' then rev cs else rev (c # cs))"

definition format_with_decimals :: "string \<Rightarrow> nat \<Rightarrow> nat \<Rightarrow> string" where
  "format_with_decimals raw decimals out_len =
     (if decimals = 0 then snprintf_s out_len raw
      else (let len = length raw;
                buffer =
                  (if len \<le> decimals
                   then append_bounded (append_bounded ''0.'' (replicate (decimals - len) (CHR ''0''))) raw
                   else (let int_part = len - decimals;
                             b1 = append_bounded [] (take int_part raw);
                             b2 = (if length b1 < MAX_RESULT_LEN - 1 then b1 @ ''.'' else b1)
                         in append_bounded b2 (drop int_part raw)))
            in snprintf_s out_len (trim_end buffer)))"

definition convert_amount_to_eth :: "bytes \<Rightarrow> nat \<Rightarrow> nat \<Rightarrow> string option" where
  "convert_amount_to_eth amount len out_len = do {
     dec \<leftarrow> uint8_array_to_decimal amount len MAX_RESULT_LEN;
     Some (format_with_decimals dec 18 out_len)
   }"


section \<open>Hexadecimal\<close>

definition hex_chars :: string where "hex_chars = ''0123456789abcdef''"

fun hex_loop :: "bytes \<Rightarrow> string" where
  "hex_loop [] = []"
| "hex_loop (b # bs) =
     hex_chars ! unat (drop_bit 4 b AND 0x0F) # hex_chars ! unat (b AND 0x0F) # hex_loop bs"

definition bytes_to_hex_string :: "bytes \<Rightarrow> nat \<Rightarrow> nat \<Rightarrow> string option" where
  "bytes_to_hex_string src src_len dst_cap = do {
     bs \<leftarrow> read_block src 0 src_len;
     put_string dst_cap (hex_loop bs)
   }"


section \<open>Division of the array\<close>

lemma shift_or_nat: "m < 256 \<Longrightarrow> push_bit 8 (n :: nat) OR m = n * 256 + m"
proof -
  assume "m < 256"
  then have m: "take_bit 8 m = m" by (simp add: take_bit_nat_eq_self)
  have "push_bit 8 n AND take_bit 8 m = 0"
    by (rule bit_eqI) (auto simp: bit_push_bit_iff bit_and_iff bit_take_bit_iff)
  then show ?thesis unfolding m by (simp add: disjunctive_add_eq_or [symmetric] push_bit_eq_mult)
qed

lemma div10_pass_correct:
  "r < 10 \<Longrightarrow> div10_pass r bs = (q, r', z) \<Longrightarrow>
   length q = length bs \<and> be_nat q = (r * 256 ^ length bs + be_nat bs) div 10 \<and>
   r' = (r * 256 ^ length bs + be_nat bs) mod 10 \<and> (z \<longleftrightarrow> be_nat q = 0)"
proof (induction bs arbitrary: r q r' z)
  case Nil
  then show ?case by (auto simp: be_simps)
next
  case (Cons b bs)
  let ?v = "r * 256 + unat b"
  let ?M = "256 ^ length bs"
  have v: "push_bit 8 r OR unat b = ?v" by (rule shift_or_nat) (rule unat_byte_less)
  obtain q1 r1 z1 where p: "div10_pass (?v mod 10) bs = (q1, r1, z1)" by (metis prod_cases3)
  have small: "?v div 10 < 256" using Cons.prems(1) unat_byte_less [of b] by linarith
  have qv: "unat (of_nat (?v div 10) :: byte) = ?v div 10"
    using small by (simp add: unat_of_nat)
  have q: "q = of_nat (?v div 10) # q1" "r' = r1" "z \<longleftrightarrow> (of_nat (?v div 10) :: byte) = 0 \<and> z1"
    using Cons.prems(2) by (auto simp: v p Let_def)
  have IH: "length q1 = length bs" "be_nat q1 = (?v mod 10 * ?M + be_nat bs) div 10"
    "r1 = (?v mod 10 * ?M + be_nat bs) mod 10" "z1 \<longleftrightarrow> be_nat q1 = 0"
    using Cons.IH [OF _ p] by auto
  have split: "r * 256 ^ length (b # bs) + be_nat (b # bs) = 10 * (?v div 10 * ?M) + (?v mod 10 * ?M + be_nat bs)"
  proof -
    have "r * 256 ^ length (b # bs) + be_nat (b # bs) = ?v * ?M + be_nat bs"
      by (simp add: be_simps distrib_right)
    also have "?v * ?M = (10 * (?v div 10) + ?v mod 10) * ?M" by simp
    finally show ?thesis by (simp only: distrib_right mult.assoc add.assoc)
  qed
  have zero: "(of_nat (?v div 10) :: byte) = 0 \<longleftrightarrow> ?v div 10 = 0"
    unfolding unat_eq_zero [symmetric] qv ..
  let ?R = "?v mod 10 * ?M + be_nat bs"
  have d: "(10 * (?v div 10 * ?M) + ?R) div 10 = ?v div 10 * ?M + ?R div 10"
    and m: "(10 * (?v div 10 * ?M) + ?R) mod 10 = ?R mod 10" by simp_all
  have bq: "be_nat q = ?v div 10 * ?M + ?R div 10"
    unfolding q(1) be_nat_Cons qv IH(1) IH(2) ..
  show ?case
    unfolding split d m bq
  proof (intro conjI)
    show "length q = length (b # bs)" by (simp add: q(1) IH(1))
    show "r' = ?R mod 10" unfolding q(2) IH(3) ..
    show "z \<longleftrightarrow> ?v div 10 * ?M + ?R div 10 = 0"
      unfolding q(3) zero IH(4) IH(2) by simp
  qed (rule refl)
qed

lemma div10_pass_0:
  assumes "div10_pass 0 bs = (q, r, z)"
  shows "length q = length bs" "be_nat q = be_nat bs div 10" "r = be_nat bs mod 10" "z \<longleftrightarrow> be_nat bs < 10"
  using div10_pass_correct [OF _ assms] by auto


section \<open>Decimal text\<close>

text \<open>The decimal numeral of a number, and the number of a text of digits.\<close>

fun decimal :: "nat \<Rightarrow> string" where
  "decimal n = (if n < 10 then [digit_char n] else decimal (n div 10) @ [digit_char (n mod 10)])"

declare decimal.simps [simp del]

definition digit_value :: "char \<Rightarrow> nat" where
  "digit_value c = of_char c - of_char (CHR ''0'')"

definition undecimal :: "string \<Rightarrow> nat" where
  "undecimal s = foldl (\<lambda>a c. a * 10 + digit_value c) 0 s"

lemma undecimal_Nil [simp]: "undecimal [] = 0"
  by (simp add: undecimal_def)

lemma undecimal_snoc [simp]: "undecimal (s @ [c]) = undecimal s * 10 + digit_value c"
  by (simp add: undecimal_def)

lemma of_char_digit: "r < 10 \<Longrightarrow> of_char (digit_char r) = 48 + r"
  by (simp add: digit_char_def of_char_of)

lemma digit_value_digit [simp]: "r < 10 \<Longrightarrow> digit_value (digit_char r) = r"
  by (simp add: digit_value_def of_char_digit)

lemma digit_char_inj: "a < 10 \<Longrightarrow> b < 10 \<Longrightarrow> digit_char a = digit_char b \<longleftrightarrow> a = b"
  by (metis digit_value_digit)

lemma digit_char_not_dot: "r < 10 \<Longrightarrow> digit_char r \<noteq> CHR ''.''"
proof
  assume "r < 10" "digit_char r = CHR ''.''"
  then have "of_char (CHR ''.'') = 48 + r" using of_char_digit by metis
  then show False by simp
qed

lemma undecimal_decimal [simp]: "undecimal (decimal n) = n"
proof (induction n rule: decimal.induct)
  case (1 n)
  show ?case
  proof (cases "n < 10")
    case True
    have "undecimal [digit_char n] = n" using undecimal_snoc [of "[]" "digit_char n"] True by simp
    then show ?thesis using True by (simp add: decimal.simps [of n])
  next
    case False
    then show ?thesis using "1.IH" by (simp add: decimal.simps [of n])
  qed
qed

lemma length_decimal_pos: "0 < length (decimal n)"
  by (subst decimal.simps) auto

lemma length_decimal_le: "0 < k \<Longrightarrow> length (decimal n) \<le> k \<longleftrightarrow> n < 10 ^ k"
proof (induction n arbitrary: k rule: decimal.induct)
  case (1 n)
  show ?case
  proof (cases "n < 10")
    case True
    have "(10::nat) ^ 1 \<le> 10 ^ k" using 1(2) by (intro power_increasing) auto
    then show ?thesis using True 1(2) by (simp add: decimal.simps [of n])
  next
    case False
    obtain j where k: "k = Suc j" using 1(2) by (cases k) auto
    show ?thesis
    proof (cases "j = 0")
      case True
      then show ?thesis using False length_decimal_pos [of "n div 10"] by (simp add: k decimal.simps [of n])
    next
      case j: False
      then have "length (decimal (n div 10)) \<le> j \<longleftrightarrow> n div 10 < 10 ^ j"
        using "1.IH" False by simp
      also have "\<dots> \<longleftrightarrow> n < 10 ^ k" by (auto simp: k div_less_iff_less_mult mult.commute)
      finally show ?thesis using False by (simp add: k decimal.simps [of n])
    qed
  qed
qed

lemma decimal_loop_correct:
  "decimal_loop k temp digits =
     (if 0 < k \<and> be_nat temp < 10 ^ k then Some (decimal (be_nat temp) @ digits) else None)"
proof (induction k arbitrary: temp digits)
  case 0
  then show ?case by simp
next
  case (Suc k)
  obtain t r z where p: "div10_pass 0 temp = (t, r, z)" by (metis prod_cases3)
  note d = div10_pass_0 [OF p]
  show ?case
  proof (cases "be_nat temp < 10")
    case True
    have "(10::nat) ^ 1 \<le> 10 ^ Suc k" by (intro power_increasing) auto
    then have "be_nat temp < 10 ^ Suc k" using True by (simp only: power_one_right)
    then show ?thesis using True d by (simp add: p decimal.simps [of "be_nat temp"] del: power_Suc)
  next
    case False
    have "be_nat temp div 10 < 10 ^ k \<longleftrightarrow> be_nat temp < 10 ^ Suc k"
      by (auto simp: div_less_iff_less_mult mult.commute)
    then show ?thesis using False d
      by (cases "k = 0") (simp_all add: p Suc.IH decimal.simps [of "be_nat temp"] del: power_Suc)
  qed
qed

lemma uint8_array_to_decimal_result:
  assumes "len \<le> length bytes" "len \<le> 32"
  shows "uint8_array_to_decimal bytes len cap =
    (if be_nat (take len bytes) < 10 ^ 40 \<and> length (decimal (be_nat (take len bytes))) < cap
     then Some (decimal (be_nat (take len bytes))) else None)"
  using assms
  by (auto simp: uint8_array_to_decimal_def mem_simps decimal_loop_correct MAX_DECIMAL_DIGITS_def
      put_string_def)

text \<open>
  The decimal conversion stores the decimal numeral of the big-endian value, and stays within
  its buffers exactly when the value has at most forty digits (the local buffer) and the numeral
  with its NUL fits the destination. For larger values, which the decoder accepts in 32-byte
  fields, it writes below its local array.
\<close>

lemma uint8_array_to_decimal_correct:
  assumes "len \<le> length bytes" "len \<le> 32" "2 \<le> cap"
  shows "uint8_array_to_decimal bytes len cap =
      (if be_nat (take len bytes) < 10 ^ 40 \<and> be_nat (take len bytes) < 10 ^ (cap - 1)
       then Some (decimal (be_nat (take len bytes))) else None) \<and>
    undecimal (decimal (be_nat (take len bytes))) = be_nat (take len bytes)"
proof -
  have "length (decimal n) < cap \<longleftrightarrow> n < 10 ^ (cap - 1)" for n
    using length_decimal_le [of "cap - 1" n] assms(3) by auto
  then show ?thesis using uint8_array_to_decimal_result [OF assms(1,2)] by simp
qed


section \<open>Two-character byte texts\<close>

text \<open>
  The interface the displays rely on: each byte is written as two characters from which it can be
  read back. Then the text of an array has twice its length and determines the array.
\<close>

locale byte_text =
  fixes enc :: "byte \<Rightarrow> string" and dec :: "string \<Rightarrow> byte"
  assumes enc_length: "length (enc b) = 2"
    and dec_enc: "dec (enc b) = b"
begin

fun untext :: "string \<Rightarrow> bytes" where
  "untext (c # d # cs) = dec [c, d] # untext cs"
| "untext cs = []"

lemma untext_text: "untext (concat (map enc bs)) = bs"
proof (induction bs)
  case Nil
  then show ?case by simp
next
  case (Cons b bs)
  obtain c d where cd: "enc b = [c, d]"
    using enc_length [of b] by (auto simp: numeral_2_eq_2 length_Suc_conv)
  then show ?case using Cons.IH dec_enc [of b] by simp
qed

lemma text_inject: "concat (map enc as) = concat (map enc bs) \<longleftrightarrow> as = bs"
  by (metis untext_text)

lemma text_length: "length (concat (map enc bs)) = 2 * length bs"
  by (induction bs) (simp_all add: enc_length)

end

text \<open>The pair the hexadecimal loop writes, its upper-case variant, and their reader.\<close>

definition hex_pair :: "byte \<Rightarrow> string" where
  "hex_pair b = [hex_chars ! unat (drop_bit 4 b AND 0x0F), hex_chars ! unat (b AND 0x0F)]"

definition upper_char :: "char \<Rightarrow> char" where
  "upper_char c = (if of_char c \<ge> (65 :: nat) then char_of ((of_char c :: nat) - 32) else c)"

definition hex_value :: "char \<Rightarrow> nat" where
  "hex_value c =
     (let k = of_char c in if k < 58 then k - 48 else if k < 71 then k - 55 else k - 87)"

definition hex_read :: "string \<Rightarrow> byte" where
  "hex_read s = of_nat (16 * hex_value (s ! 0) + hex_value (s ! 1))"

lemma hex_loop_pairs: "hex_loop bs = concat (map hex_pair bs)"
  by (induction bs) (simp_all add: hex_pair_def)

lemma less_16_cases: "k < 16 \<Longrightarrow> k \<in> {0, 1, 2, 3, 4, 5, 6, 7, 8, 9, 10, 11, 12, 13, 14, 15 :: nat}"
  unfolding insert_iff empty_iff by presburger

lemma hex_value_chars: "k < 16 \<Longrightarrow> hex_value (hex_chars ! k) = k \<and> hex_value (upper_char (hex_chars ! k)) = k"
  by (drule less_16_cases) (auto simp: hex_chars_def hex_value_def upper_char_def Let_def)

lemma nibbles:
  "unat (drop_bit 4 b AND 0x0F :: byte) = unat b div 16" "unat (b AND 0x0F :: byte) = unat b mod 16"
proof -
  have m: "unat (w AND 0x0F :: byte) = unat w mod 16" for w :: byte
  proof -
    have "w AND mask 4 = take_bit 4 w" by (simp add: take_bit_eq_mask)
    then have "w AND 0x0F = w mod 16" by (simp add: mask_eq_exp_minus_1 take_bit_eq_mod)
    then show ?thesis by (simp add: unat_mod)
  qed
  then show "unat (b AND 0x0F :: byte) = unat b mod 16" .
  have "unat (drop_bit 4 b) = unat b div 16" by (simp add: unat_div drop_bit_eq_div)
  then show "unat (drop_bit 4 b AND 0x0F :: byte) = unat b div 16"
    using m [of "drop_bit 4 b"] unat_byte_less [of b] by simp
qed

lemma nibble_less: "unat (b :: byte) div 16 < 16" "unat (b :: byte) mod 16 < 16"
  using unat_byte_less [of b] by simp_all

lemma hex_read_pair: "hex_read (hex_pair b) = b" "hex_read (map upper_char (hex_pair b)) = b"
proof -
  have e: "16 * (unat b div 16) + unat b mod 16 = unat b" by simp
  show "hex_read (hex_pair b) = b" "hex_read (map upper_char (hex_pair b)) = b"
    unfolding hex_read_def hex_pair_def nibbles(1) nibbles(2) [of b]
    using hex_value_chars [OF nibble_less(1) [of b]] hex_value_chars [OF nibble_less(2) [of b]]
    by (simp_all add: e del: of_nat_add of_nat_mult)
qed

interpretation hexl: byte_text hex_pair hex_read
  by unfold_locales (simp add: hex_pair_def, rule hex_read_pair)

interpretation hexu: byte_text "\<lambda>b. map upper_char (hex_pair b)" hex_read
  by unfold_locales (simp add: hex_pair_def, rule hex_read_pair)

lemma length_hex_loop [simp]: "length (hex_loop bs) = 2 * length bs"
  by (simp add: hex_loop_pairs hexl.text_length)

lemma bytes_to_hex_string_Some:
  "n \<le> length src \<Longrightarrow> 2 * n < cap \<Longrightarrow> bytes_to_hex_string src n cap = Some (hex_loop (take n src))"
  by (simp add: bytes_to_hex_string_def mem_simps)

text \<open>
  The hexadecimal conversion fits a destination of \<open>2 * n + 1\<close> characters and its text
  determines the bytes: reading the pairs back gives the array.
\<close>

lemma bytes_to_hex_string_roundtrip:
  assumes "n \<le> length src" "2 * n + 1 \<le> cap"
  shows "\<exists>s. bytes_to_hex_string src n cap = Some s \<and> length s = 2 * n \<and> hexl.untext s = take n src"
  using assms bytes_to_hex_string_Some [of n src cap]
  by (simp add: hex_loop_pairs hexl.untext_text hexl.text_length)

end
