(* ===== verification/Unit_Tests.thy ===== *)
theory Unit_Tests
  imports Rlp_Correct Format
begin

text \<open>
  The repository's own tests of the decoder (\<open>unit-tests/test_rlp_decode.c\<close>, one definition per
  test, true when all its assertions hold) and its fuzz target (\<open>fuzzing/fuzz_tx_parser.c\<close>). They
  are evaluated on the decoder of the device, with its 32-bit \<open>size_t\<close>; the repository runs them on
  the host.
\<close>


section \<open>Vectors and helpers\<close>

definition VALID_64B_TO :: string where
  "VALID_64B_TO = ''02f8658330182401843b9aca008502540be4008307a120b8400838a121a6e4dd8a51e743'' @
     ''7b152fabbc76a173f077132f2c2ed021c7b0991e70da4dba44e9ec00984a90f28dfb0aab'' @
     ''bda1ddc9e98a76ab0acb6644c5e76fbbe8872386f26fc1000080c08301000080''"

definition VALID_CONTRACT_CREATION :: string where
  "VALID_CONTRACT_CREATION = ''02e48330182401843b9aca008502540be4008307a12080872386f26fc1000080c0830100'' @ ''0080''"

definition INVALID_20B_TO :: string where
  "INVALID_20B_TO = ''02f8388330182401843b9aca008502540be4008307a120940838a121a6e4dd8a51e74377'' @
     ''b152fabbc76a173f0872386f26fc1000080c08301000080''"

definition INVALID_LEGACY_10_FIELDS :: string where
  "INVALID_LEGACY_10_FIELDS = ''02f89301038477359400850ba43b74008261a894b94f5374fce5edbc8e2a8697c1533167'' @
     ''7e6ebf0b88016345785d8a0000825544f85bf85994b94f5374fce5edbc8e2a8697c15331'' @
     ''677e6ebf0bf842a000000000000000000000000000000000000000000000000000000000'' @
     ''00000000a0000000000000000000000000000000000000000000000000000000000000000'' @
     ''183010000''"

definition oversized_nonce :: string where
  "oversized_nonce = ''02f86e83301824890101010101010101010101843b9aca008502540be4008307a120'' @
     ''b8400838a121a6e4dd8a51e7437b152fabbc76a173f077132f2c2ed021c7b0991e70'' @
     ''da4dba44e9ec00984a90f28dfb0aabbda1ddc9e98a76ab0acb6644c5e76fbbe88723'' @
     ''86f26fc1000080c08301000080''"

text \<open>\<open>sscanf("%2x")\<close> reads a pair of hexadecimal digits; an odd last digit is not read.\<close>

definition unhex :: "string \<Rightarrow> nat \<Rightarrow> bytes" where
  "unhex hex out_len = (if length hex div 2 > out_len then [] else hexl.untext hex)"

text \<open>A decoded buffer: the returned value and the transaction, on a zeroed transaction.\<close>

definition decode_buf :: "bytes \<Rightarrow> nat \<Rightarrow> (int \<times> zond_tx_t option) option" where
  "decode_buf buf n = decode_ledger_tx (Some buf) (of_nat n) (Some zero_tx)"

definition decode_hex :: "string \<Rightarrow> (int \<times> zond_tx_t option) option" where
  "decode_hex hex = (let buf = unhex hex 600 in decode_buf buf (length buf))"

definition rejects :: "(int \<times> zond_tx_t option) option \<Rightarrow> bool" where
  "rejects r = (case r of Some (ret, tx) \<Rightarrow> ret \<noteq> 0 | None \<Rightarrow> False)"

lemma decode_buf_rejects:
  assumes "decode_spec (take n buf) = None" "n \<le> length buf" "n < 2 ^ 31"
  shows "rejects (decode_buf buf n)"
proof -
  have u: "unat (of_nat n :: size_t) = n" using assms(3) by (simp add: unat_of_nat_size_t)
  from decode_ledger_tx_spec [of "of_nat n" buf zero_tx] wf_zero_tx obtain tx' where
    "decode_ledger_tx (Some buf) (of_nat n) (Some zero_tx) = Some (-1, Some tx')"
    using assms u by auto
  then show ?thesis by (simp add: decode_buf_def rejects_def)
qed

lemma decode_buf_accepts:
  assumes "decode_spec (take n buf) = Some its" "n \<le> length buf" "n < 2 ^ 31"
  shows "decode_buf buf n = Some (0, Some (store_fields its zero_tx))"
proof -
  have u: "unat (of_nat n :: size_t) = n" using assms(3) by (simp add: unat_of_nat_size_t)
  from decode_ledger_tx_spec [of "of_nat n" buf zero_tx] wf_zero_tx show ?thesis
    using assms u by (auto simp: decode_buf_def)
qed

lemmas hex_eval = hex_read_def hex_value_def Let_def unhex_def

definition valid_bytes :: bytes where
  "valid_bytes = [0x02, 0xf8, 0x65, 0x83, 0x30, 0x18, 0x24, 0x01, 0x84, 0x3b, 0x9a, 0xca, 0x00, 0x85, 0x02, 0x54,
     0x0b, 0xe4, 0x00, 0x83, 0x07, 0xa1, 0x20, 0xb8, 0x40, 0x08, 0x38, 0xa1, 0x21, 0xa6, 0xe4, 0xdd,
     0x8a, 0x51, 0xe7, 0x43, 0x7b, 0x15, 0x2f, 0xab, 0xbc, 0x76, 0xa1, 0x73, 0xf0, 0x77, 0x13, 0x2f,
     0x2c, 0x2e, 0xd0, 0x21, 0xc7, 0xb0, 0x99, 0x1e, 0x70, 0xda, 0x4d, 0xba, 0x44, 0xe9, 0xec, 0x00,
     0x98, 0x4a, 0x90, 0xf2, 0x8d, 0xfb, 0x0a, 0xab, 0xbd, 0xa1, 0xdd, 0xc9, 0xe9, 0x8a, 0x76, 0xab,
     0x0a, 0xcb, 0x66, 0x44, 0xc5, 0xe7, 0x6f, 0xbb, 0xe8, 0x87, 0x23, 0x86, 0xf2, 0x6f, 0xc1, 0x00,
     0x00, 0x80, 0xc0, 0x83, 0x01, 0x00, 0x00, 0x80]"

lemma valid_unhex: "unhex VALID_64B_TO 600 = valid_bytes" "length valid_bytes = 104"
  by (simp_all add: VALID_64B_TO_def hex_eval valid_bytes_def)

lemma other_unhex:
  "unhex VALID_CONTRACT_CREATION 600 = contract_creation_vector"
  "unhex INVALID_20B_TO 600 = [0x02, 0xf8, 0x38, 0x83, 0x30, 0x18, 0x24, 0x01, 0x84, 0x3b, 0x9a, 0xca, 0x00, 0x85, 0x02, 0x54,
     0x0b, 0xe4, 0x00, 0x83, 0x07, 0xa1, 0x20, 0x94, 0x08, 0x38, 0xa1, 0x21, 0xa6, 0xe4, 0xdd, 0x8a,
     0x51, 0xe7, 0x43, 0x77, 0xb1, 0x52, 0xfa, 0xbb, 0xc7, 0x6a, 0x17, 0x3f, 0x08, 0x72, 0x38, 0x6f,
     0x26, 0xfc, 0x10, 0x00, 0x08, 0x0c, 0x08, 0x30, 0x10, 0x00, 0x08]"
  "unhex INVALID_LEGACY_10_FIELDS 600 = [0x02, 0xf8, 0x93, 0x01, 0x03, 0x84, 0x77, 0x35, 0x94, 0x00, 0x85, 0x0b, 0xa4, 0x3b, 0x74, 0x00,
     0x82, 0x61, 0xa8, 0x94, 0xb9, 0x4f, 0x53, 0x74, 0xfc, 0xe5, 0xed, 0xbc, 0x8e, 0x2a, 0x86, 0x97,
     0xc1, 0x53, 0x31, 0x67, 0x7e, 0x6e, 0xbf, 0x0b, 0x88, 0x01, 0x63, 0x45, 0x78, 0x5d, 0x8a, 0x00,
     0x00, 0x82, 0x55, 0x44, 0xf8, 0x5b, 0xf8, 0x59, 0x94, 0xb9, 0x4f, 0x53, 0x74, 0xfc, 0xe5, 0xed,
     0xbc, 0x8e, 0x2a, 0x86, 0x97, 0xc1, 0x53, 0x31, 0x67, 0x7e, 0x6e, 0xbf, 0x0b, 0xf8, 0x42, 0xa0,
     0x00, 0x00, 0x00, 0x00, 0x00, 0x00, 0x00, 0x00, 0x00, 0x00, 0x00, 0x00, 0x00, 0x00, 0x00, 0x00,
     0x00, 0x00, 0x00, 0x00, 0x00, 0x00, 0x00, 0x00, 0x00, 0x00, 0x00, 0x00, 0x00, 0x00, 0x00, 0x00,
     0xa0, 0x00, 0x00, 0x00, 0x00, 0x00, 0x00, 0x00, 0x00, 0x00, 0x00, 0x00, 0x00, 0x00, 0x00, 0x00,
     0x00, 0x00, 0x00, 0x00, 0x00, 0x00, 0x00, 0x00, 0x00, 0x00, 0x00, 0x00, 0x00, 0x00, 0x00, 0x00,
     0x01, 0x83, 0x01, 0x00, 0x00]"
  "unhex oversized_nonce 600 = [0x02, 0xf8, 0x6e, 0x83, 0x30, 0x18, 0x24, 0x89, 0x01, 0x01, 0x01, 0x01, 0x01, 0x01, 0x01, 0x01,
     0x01, 0x01, 0x01, 0x84, 0x3b, 0x9a, 0xca, 0x00, 0x85, 0x02, 0x54, 0x0b, 0xe4, 0x00, 0x83, 0x07,
     0xa1, 0x20, 0xb8, 0x40, 0x08, 0x38, 0xa1, 0x21, 0xa6, 0xe4, 0xdd, 0x8a, 0x51, 0xe7, 0x43, 0x7b,
     0x15, 0x2f, 0xab, 0xbc, 0x76, 0xa1, 0x73, 0xf0, 0x77, 0x13, 0x2f, 0x2c, 0x2e, 0xd0, 0x21, 0xc7,
     0xb0, 0x99, 0x1e, 0x70, 0xda, 0x4d, 0xba, 0x44, 0xe9, 0xec, 0x00, 0x98, 0x4a, 0x90, 0xf2, 0x8d,
     0xfb, 0x0a, 0xab, 0xbd, 0xa1, 0xdd, 0xc9, 0xe9, 0x8a, 0x76, 0xab, 0x0a, 0xcb, 0x66, 0x44, 0xc5,
     0xe7, 0x6f, 0xbb, 0xe8, 0x87, 0x23, 0x86, 0xf2, 0x6f, 0xc1, 0x00, 0x00, 0x80, 0xc0, 0x83, 0x01,
     0x00, 0x00, 0x80]"
  by (simp_all add: VALID_CONTRACT_CREATION_def INVALID_20B_TO_def INVALID_LEGACY_10_FIELDS_def oversized_nonce_def hex_eval
      contract_creation_vector_def)

lemmas spec_eval = decode_spec_def take_bytes_def take_long_def be_simps fields_ok_def fields_accepted_def tx_field_specs_def size_consts read_items_numeral

lemma valid_spec: "decode_spec valid_bytes = Some [[0x30, 0x18, 0x24], [0x01], [0x3b, 0x9a, 0xca, 0x00],
     [0x02, 0x54, 0x0b, 0xe4, 0x00], [0x07, 0xa1, 0x20],
     [0x08, 0x38, 0xa1, 0x21, 0xa6, 0xe4, 0xdd, 0x8a, 0x51, 0xe7, 0x43, 0x7b, 0x15, 0x2f, 0xab, 0xbc,
     0x76, 0xa1, 0x73, 0xf0, 0x77, 0x13, 0x2f, 0x2c, 0x2e, 0xd0, 0x21, 0xc7, 0xb0, 0x99, 0x1e, 0x70,
     0xda, 0x4d, 0xba, 0x44, 0xe9, 0xec, 0x00, 0x98, 0x4a, 0x90, 0xf2, 0x8d, 0xfb, 0x0a, 0xab, 0xbd,
     0xa1, 0xdd, 0xc9, 0xe9, 0x8a, 0x76, 0xab, 0x0a, 0xcb, 0x66, 0x44, 0xc5, 0xe7, 0x6f, 0xbb, 0xe8],
     [0x23, 0x86, 0xf2, 0x6f, 0xc1, 0x00, 0x00], [], [], [1, 0, 0], []]"
  by (simp add: valid_bytes_def spec_eval)

lemma invalid_spec:
  "decode_spec (unhex INVALID_20B_TO 600) = None"
  "decode_spec (unhex INVALID_LEGACY_10_FIELDS 600) = None"
  "decode_spec (unhex oversized_nonce 600) = None"
  by (simp_all only: other_unhex) (simp_all add: spec_eval)



section \<open>The tests\<close>

definition test_decode_valid_64byte_recipient :: bool where
  "test_decode_valid_64byte_recipient = (case decode_hex VALID_64B_TO of
     Some (ret, Some tx) \<Rightarrow> ret = 0 \<and> tx_descriptor_len tx = 3 \<and> tx_descriptor tx ! 0 = 0x01 \<and>
       tx_descriptor tx ! 1 = 0x00 \<and> tx_descriptor tx ! 2 = 0x00 \<and> tx_to tx ! 0 = 0x08 \<and> tx_to tx ! 63 = 0xe8 \<and>
       tx_chain_id_len tx = 3 \<and> tx_nonce_len tx = 1 \<and> tx_nonce tx ! 0 = 0x01
   | _ \<Rightarrow> False)"

definition test_decode_contract_creation :: bool where
  "test_decode_contract_creation = (case decode_hex VALID_CONTRACT_CREATION of
     Some (ret, tx) \<Rightarrow> ret = 0 | None \<Rightarrow> False)"

definition test_reject_20byte_recipient :: bool where
  "test_reject_20byte_recipient = rejects (decode_hex INVALID_20B_TO)"

definition test_reject_legacy_10_fields :: bool where
  "test_reject_legacy_10_fields = rejects (decode_hex INVALID_LEGACY_10_FIELDS)"

definition test_reject_bad_descriptor :: bool where
  "test_reject_bad_descriptor =
     (let buf = unhex VALID_64B_TO 600; n = length buf in rejects (decode_buf (buf[n - 2 := 0x01]) n))"

definition test_reject_nonempty_extra_params :: bool where
  "test_reject_nonempty_extra_params =
     (let buf = unhex VALID_64B_TO 600; n = length buf in rejects (decode_buf (buf[n - 1 := 0x01]) n))"

definition test_reject_wrong_type_byte :: bool where
  "test_reject_wrong_type_byte =
     (let buf = unhex VALID_64B_TO 600; n = length buf in rejects (decode_buf (buf[0 := 0x01]) n))"

definition test_reject_length_overflow :: bool where
  "test_reject_length_overflow =
     (let buf = (replicate 64 0xff)[0 := 0x02, 1 := 0xf8, 2 := 0x3b] in rejects (decode_buf buf 64))"

definition test_reject_oversized_nonce :: bool where
  "test_reject_oversized_nonce = rejects (decode_hex oversized_nonce)"

text \<open>The cuts of the loop are 1, 8, 15 and so on below \<open>n\<close>.\<close>

definition test_reject_truncated :: bool where
  "test_reject_truncated =
     (let buf = unhex VALID_64B_TO 600; n = length buf in
      (\<forall>cut \<in> set (filter (\<lambda>c. c mod 7 = 1) [1..<n]). rejects (decode_buf buf (n - cut))) \<and>
      rejects (decode_buf buf 0) \<and>
      rejects (decode_ledger_tx None (of_nat n) (Some zero_tx)) \<and>
      rejects (decode_ledger_tx (Some buf) (of_nat n) None))"

text \<open>The group of all tests: the result is the number of failed ones.\<close>

definition unit_tests_main :: nat where
  "unit_tests_main =
     (let tests =
        [test_decode_valid_64byte_recipient, test_decode_contract_creation, test_reject_20byte_recipient,
         test_reject_legacy_10_fields, test_reject_bad_descriptor, test_reject_nonempty_extra_params,
         test_reject_wrong_type_byte, test_reject_length_overflow, test_reject_oversized_nonce, test_reject_truncated]
      in length (filter Not tests))"

definition LLVMFuzzerTestOneInput :: "bytes \<Rightarrow> size_t \<Rightarrow> int option" where
  "LLVMFuzzerTestOneInput data len = do { r \<leftarrow> decode_ledger_tx (Some data) len (Some zero_tx); Some 0 }"


section \<open>They pass\<close>

lemma length_unhex: "length (unhex h n) \<le> n"
proof -
  have "length (hexl.untext h) = length h div 2" by (induction h rule: hexl.untext.induct) auto
  then show ?thesis by (simp add: unhex_def)
qed

lemma changed_spec:
  "decode_spec (valid_bytes[102 := 0x01]) = None" "decode_spec (valid_bytes[103 := 0x01]) = None"
  "decode_spec (valid_bytes[0 := 0x01]) = None"
  by (simp_all add: valid_bytes_def spec_eval)

lemma replicate_numeral_Cons: "replicate (numeral k) x = x # replicate (pred_numeral k) x"
  by (simp add: numeral_eq_Suc)

lemma overflow_spec: "decode_spec ((replicate 64 0xff)[0 := 0x02, 1 := 0xf8, 2 := 0x3b]) = None"
  by (simp add: replicate_numeral_Cons spec_eval)

lemma truncated_spec:
  assumes "m < 104"
  shows "decode_spec (take m valid_bytes) = None"
proof -
  define body where "body = drop 3 valid_bytes"
  have v: "valid_bytes = 0x02 # 0xf8 # 0x65 # body" "length body = 101" by (simp_all add: valid_bytes_def body_def)
  consider "m = 0" | "m = 1" | "m = 2" | k where "m = Suc (Suc (Suc k))" "k < 101"
    using assms by (cases m; cases "m - 1"; cases "m - 2") auto
  then show ?thesis by cases (simp_all add: v spec_eval)
qed

lemma tests_pass:
  "test_decode_valid_64byte_recipient" "test_decode_contract_creation" "test_reject_20byte_recipient"
  "test_reject_legacy_10_fields" "test_reject_bad_descriptor" "test_reject_nonempty_extra_params"
  "test_reject_wrong_type_byte" "test_reject_length_overflow" "test_reject_oversized_nonce" "test_reject_truncated"
proof -
  have v: "decode_hex VALID_64B_TO = Some (0, Some (store_fields [[0x30, 0x18, 0x24], [0x01], [0x3b, 0x9a, 0xca, 0x00],
     [0x02, 0x54, 0x0b, 0xe4, 0x00], [0x07, 0xa1, 0x20], take 64 (drop 25 valid_bytes),
     [0x23, 0x86, 0xf2, 0x6f, 0xc1, 0x00, 0x00], [], [], [1, 0, 0], []] zero_tx))"
    unfolding decode_hex_def valid_unhex Let_def
    by (rule decode_buf_accepts) (simp_all add: valid_spec valid_unhex(2), simp add: valid_bytes_def)
  show "test_decode_valid_64byte_recipient"
    unfolding test_decode_valid_64byte_recipient_def v
    by (simp add: store_fields_def tx_field_specs_def padded_def overlay_def zero_tx_def size_consts valid_bytes_def)
  have "length contract_creation_vector = 38" by (simp add: contract_creation_vector_def)
  then have "decode_buf contract_creation_vector 38 \<noteq> None \<and> fst (the (decode_buf contract_creation_vector 38)) = 0"
    using contract_creation_decodes by (simp add: decode_buf_def)
  then show "test_decode_contract_creation"
    using \<open>length contract_creation_vector = 38\<close>
    by (auto simp: test_decode_contract_creation_def decode_hex_def other_unhex(1))
  have r: "rejects (decode_hex h)" if "decode_spec (unhex h 600) = None" for h
  proof -
    have "length (unhex h 600) < 2 ^ 31" using length_unhex [of h 600] by simp
    then show ?thesis using that by (simp add: decode_hex_def Let_def decode_buf_rejects)
  qed
  show "test_reject_20byte_recipient" "test_reject_legacy_10_fields" "test_reject_oversized_nonce"
    unfolding test_reject_20byte_recipient_def test_reject_legacy_10_fields_def test_reject_oversized_nonce_def
    by (rule r, rule invalid_spec)+
  show "test_reject_bad_descriptor" "test_reject_nonempty_extra_params" "test_reject_wrong_type_byte"
    unfolding test_reject_bad_descriptor_def test_reject_nonempty_extra_params_def test_reject_wrong_type_byte_def
      Let_def valid_unhex
    by (rule decode_buf_rejects; simp add: valid_unhex(2) changed_spec)+
  show "test_reject_length_overflow"
    unfolding test_reject_length_overflow_def Let_def
    by (rule decode_buf_rejects) (simp_all only: overflow_spec length_list_update length_replicate take_all order.refl, simp)
  have "rejects (decode_buf valid_bytes m)" if "m < 104" for m
    by (rule decode_buf_rejects [OF truncated_spec [OF that]]) (use that valid_unhex(2) in simp_all)
  then show "test_reject_truncated"
    unfolding test_reject_truncated_def Let_def valid_unhex
    by (simp add: rejects_def [of "Some _"] decode_ledger_tx_def)
qed

text \<open>
  C40. The decoder passes its tests: the ten unit tests of the repository hold of the model of the
  decoder, and the fuzz target returns on every input of less than \<open>2 ^ 31\<close> bytes, so that no
  input makes the decoder read or write out of bounds.
\<close>

theorem decoder_tests:
  "unit_tests_main = 0 \<and>
   (length data < 2 ^ 31 \<longrightarrow> LLVMFuzzerTestOneInput data (of_nat (length data)) = Some 0)"
proof -
  have "LLVMFuzzerTestOneInput data (of_nat (length data)) = Some 0" if "length data < 2 ^ 31"
  proof -
    have u: "unat (of_nat (length data) :: size_t) = length data" using that by (simp add: unat_of_nat_size_t)
    then show ?thesis
      using decode_ledger_tx_spec [of "of_nat (length data)" data zero_tx] wf_zero_tx that
      by (auto simp: LLVMFuzzerTestOneInput_def)
  qed
  then show ?thesis by (simp add: unit_tests_main_def tests_pass)
qed

theorem decoder_tests_witness:
  "LLVMFuzzerTestOneInput [0x02, 0xbf, 0xff] 3 = Some 0"
  using decoder_tests [of "[0x02, 0xbf, 0xff]"] by simp

end
