(* ===== verification/Device.thy ===== *)
theory Device
  imports Ledger_Types
begin

text \<open>
  The surroundings of the application's code: \<open>env\<close> collects what lives outside the
  repository (the SDK's cryptography, buffers, transport and constants) as parameters, and
  \<open>device\<close> is the mutable state the code works on: \<open>G_context\<close>, \<open>N_storage\<close>
  (\<open>src/globals.h\<close>), the statics of the user interface files, the screen on display and the
  responses sent to the host.

  A C function that writes through a pointer into a persistent buffer takes the old content and
  returns the new one. \<open>nvm_write\<close> is an assignment. \<open>PRINTF\<close> is debug output and is left out.
\<close>


section \<open>Types of the SDK interface\<close>

record buffer_t =
  buf_ptr :: "bytes option"
  buf_size :: size_t
  buf_offset :: size_t

record command_t =
  cmd_cla :: byte
  cmd_ins :: byte
  cmd_p1 :: byte
  cmd_p2 :: byte
  cmd_lc :: byte
  cmd_data :: "bytes option"

text \<open>
  Parameters. \<open>uninit n\<close> is the content of an uninitialised array of \<open>n\<close> bytes;
  \<open>mldsa_sign\<close> takes the random bytes of the hedged signature as its first argument; the SHA-3
  context \<open>cx_sha3_t\<close> is opaque memory.
\<close>

record env =
  max_bip32_path :: nat
  secret_key_bytes :: nat
  screen_size_wallet :: bool
  first_user_token :: int
  copyright_year :: string
  uninit :: "nat \<Rightarrow> bytes"
  os_derive_bip32_no_throw :: "u32 list \<Rightarrow> size_t \<Rightarrow> bytes \<Rightarrow> cx_err_t \<times> bytes"
  mldsa_keygen :: "bytes \<Rightarrow> bytes \<Rightarrow> bytes \<Rightarrow> cx_err_t \<times> bytes \<times> bytes"
  mldsa_sign :: "bytes \<Rightarrow> bytes \<Rightarrow> bytes \<Rightarrow> bytes \<Rightarrow> bytes \<Rightarrow> cx_err_t \<times> bytes \<times> size_t"
  mldsa_verify :: "bytes \<Rightarrow> bytes \<Rightarrow> bytes \<Rightarrow> bytes \<Rightarrow> cx_err_t"
  cx_sha3_xof_init :: "nat \<Rightarrow> nat \<Rightarrow> cx_err_t \<times> bytes"
  cx_sha3_update :: "bytes \<Rightarrow> bytes \<Rightarrow> cx_err_t \<times> bytes"
  cx_sha3_final :: "bytes \<Rightarrow> bytes \<Rightarrow> cx_err_t \<times> bytes"
  cx_keccak_256_hash :: "bytes \<Rightarrow> bytes \<Rightarrow> cx_err_t \<times> bytes"
  format_hex :: "bytes \<Rightarrow> string \<Rightarrow> string"
  buffer_read_u8 :: "buffer_t \<Rightarrow> byte \<Rightarrow> bool \<times> byte \<times> buffer_t"
  buffer_read_bip32_path :: "buffer_t \<Rightarrow> u32 list \<Rightarrow> size_t \<Rightarrow> bool \<times> u32 list \<times> buffer_t"
  buffer_move :: "buffer_t \<Rightarrow> bytes \<Rightarrow> bool \<times> bytes \<times> buffer_t"
  apdu_parser :: "bytes \<Rightarrow> command_t option"
  io_ret :: "bytes \<Rightarrow> u16 \<Rightarrow> int"


section \<open>Screens\<close>

record nbgl_switch =
  sw_text :: string
  sw_subtext :: string
  sw_token :: int
  sw_init :: byte

datatype page = INIT_HOME_PAGE | Setting_Page nat

datatype review_status = TRANSACTION_SIGNED | TRANSACTION_REJECTED | ADDRESS_VERIFIED | ADDRESS_REJECTED

text \<open>
  The use-case page on display, with the strings it shows (the home page shows the
  application's name, its information list and, as its settings, the \<open>switches\<close> of the device). A review page carries the callback
  that receives the user's choice. \<open>Blank\<close> is a page whose callback has been called.
\<close>

datatype review_callback = Transaction_Choice | Parameter_Choice

datatype screen =
    Blank
  | Home_And_Settings string page "(string \<times> string) list"
  | Choice_Page string string string string
  | Action_Page string
  | Review_Status review_status
  | Address_Review string
  | Review bool "(string \<times> string) list" string "string option" review_callback

datatype e_confirmation_type = PARAMETER_CONFIRMATION | SELECTOR_CONFIRMATION


section \<open>The device\<close>

record device =
  ctx :: global_ctx_t
  nvm :: internal_storage_t
  on_screen :: screen
  sent :: "(bytes \<times> u16) list"
  g_current_screen :: e_confirmation_type
  g_param_index :: byte
  g_param_count :: byte
  switches :: "nbgl_switch list"
  initSettingPage :: byte
  exited :: bool

text \<open>
  \<open>io_send_response_pointer(data, len, sw)\<close> and \<open>io_send_sw(sw)\<close>: one response to the host.
  The returned \<open>int\<close> is the transport's.
\<close>

definition io_send_response :: "env \<Rightarrow> bytes \<Rightarrow> u16 \<Rightarrow> device \<Rightarrow> int \<times> device" where
  "io_send_response e data sw d = (io_ret e data sw, d\<lparr>sent := sent d @ [(data, sw)]\<rparr>)"

definition io_send_sw :: "env \<Rightarrow> u16 \<Rightarrow> device \<Rightarrow> int \<times> device" where
  "io_send_sw e sw d = io_send_response e [] sw d"

definition bzero_ctx :: "env \<Rightarrow> device \<Rightarrow> device" where
  "bzero_ctx e d = d\<lparr>ctx := zero_ctx (max_bip32_path e)\<rparr>"

definition set_state :: "state_e \<Rightarrow> device \<Rightarrow> device" where
  "set_state s d = d\<lparr>ctx := (ctx d)\<lparr>g_state := s\<rparr>\<rparr>"

definition show_screen :: "screen \<Rightarrow> device \<Rightarrow> device" where
  "show_screen s d = d\<lparr>on_screen := s\<rparr>"

text \<open>What every operation keeps: the arrays have their declared lengths.\<close>

definition wf_device :: "env \<Rightarrow> device \<Rightarrow> bool" where
  "wf_device e d \<longleftrightarrow> wf_ctx (max_bip32_path e) (ctx d) \<and> wf_nvm (nvm d)"

named_theorems dev_simps \<open>unfolding rules for the primitive effects\<close>

lemmas [dev_simps] =
  io_send_sw_def io_send_response_def bzero_ctx_def set_state_def show_screen_def


section \<open>Documented behaviour of the SDK\<close>

text \<open>
  Functions that fill a buffer they are given leave its length as it is (they write at most the
  length they are told).
\<close>

definition env_lengths :: "env \<Rightarrow> bool" where
  "env_lengths e \<longleftrightarrow>
     (\<forall>n. length (uninit e n) = n) \<and>
     (\<forall>p n s. length (snd (os_derive_bip32_no_throw e p n s)) = length s) \<and>
     (\<forall>pk sk s. length (fst (snd (mldsa_keygen e pk sk s))) = length pk) \<and>
     (\<forall>r s m c k. length (fst (snd (mldsa_sign e r s m c k))) = length s) \<and>
     (\<forall>c o'. length (snd (cx_sha3_final e c o')) = length o') \<and>
     (\<forall>m o'. length (snd (cx_keccak_256_hash e m o')) = length o') \<and>
     (\<forall>b p n. length (fst (snd (buffer_read_bip32_path e b p n))) = length p) \<and>
     (\<forall>b o'. length (fst (snd (buffer_move e b o'))) = length o')"

text \<open>
  The incremental SHA-3 interface computes one function of the bytes absorbed: \<open>st x\<close> is the
  context after absorbing \<open>x\<close>.
\<close>

definition xof_ok :: "env \<Rightarrow> (bytes \<Rightarrow> bytes) \<Rightarrow> (bytes \<Rightarrow> bytes) \<Rightarrow> bool" where
  "xof_ok e st shake \<longleftrightarrow>
     cx_sha3_xof_init e 256 ADDRESS_SIZE = (CX_OK, st []) \<and>
     (\<forall>x y. cx_sha3_update e (st x) y = (CX_OK, st (x @ y))) \<and>
     (\<forall>x out. length out = ADDRESS_SIZE \<longrightarrow> cx_sha3_final e (st x) out = (CX_OK, shake x)) \<and>
     (\<forall>x. length (shake x) = ADDRESS_SIZE)"

text \<open>
  The readers of \<open>buffer.h\<close> on a command's data: a length byte, then that many big-endian
  32-bit numbers, and the copy of what is left.
\<close>

definition buffer_rest :: "buffer_t \<Rightarrow> bytes" where
  "buffer_rest b = (case buf_ptr b of None \<Rightarrow> [] | Some p \<Rightarrow>
     take (unat (buf_size b) - unat (buf_offset b)) (drop (unat (buf_offset b)) p))"

definition buffers_ok :: "env \<Rightarrow> bool" where
  "buffers_ok e \<longleftrightarrow>
     (\<forall>b old. fst (buffer_read_u8 e b old) \<longrightarrow>
        buffer_rest b = fst (snd (buffer_read_u8 e b old)) # buffer_rest (snd (snd (buffer_read_u8 e b old)))) \<and>
     (\<forall>b old n. fst (buffer_read_bip32_path e b old n) \<longrightarrow> unat n \<le> length old) \<and>
     (\<forall>b out. fst (buffer_move e b out) \<longleftrightarrow> length (buffer_rest b) \<le> length out) \<and>
     (\<forall>b out. length (buffer_rest b) \<le> length out \<longrightarrow>
        fst (snd (buffer_move e b out)) = buffer_rest b @ drop (length (buffer_rest b)) out)"

text \<open>The parser of the SDK: a command has a data field when its length byte is not zero, of that length.\<close>

definition parser_ok :: "env \<Rightarrow> bool" where
  "parser_ok e \<longleftrightarrow> (\<forall>apdu cmd c. apdu_parser e apdu = Some cmd \<longrightarrow> cmd_data cmd = Some c \<longrightarrow>
     c \<noteq> [] \<and> length c = unat (cmd_lc cmd))"

end
