(* ===== verification/Sample.thy ===== *)
theory Sample
  imports Device Format
begin

text \<open>
  One concrete instance of the parameters, for the theorems that apply the properties at concrete
  inputs: key material made of constants, a SHA-3 context that is the absorbed bytes, and the
  SDK's readers written out.
\<close>

definition sample_shake :: "bytes \<Rightarrow> bytes" where
  "sample_shake x = take 64 (x @ replicate 64 0xff)"

definition u32_be :: "bytes \<Rightarrow> u32" where "u32_be bs = of_nat (be_nat bs)"

fun u32s_be :: "nat \<Rightarrow> bytes \<Rightarrow> u32 list" where
  "u32s_be 0 bs = []"
| "u32s_be (Suc n) bs = u32_be (take 4 bs) # u32s_be n (drop 4 bs)"

lemma u32s_be_numeral [simp]:
  "u32s_be (numeral k) bs = u32_be (take 4 bs) # u32s_be (pred_numeral k) (drop 4 bs)"
  by (simp add: numeral_eq_Suc)

lemma length_u32s_be [simp]: "length (u32s_be n bs) = n"
  by (induction n arbitrary: bs) simp_all

definition sample_env :: env where
  "sample_env = \<lparr>max_bip32_path = 10, secret_key_bytes = 4896, screen_size_wallet = True,
     first_user_token = 20, copyright_year = ''2025'', uninit = (\<lambda>n. replicate n 0),
     os_derive_bip32_no_throw = (\<lambda>p n s. (CX_OK, replicate (length s) 7)),
     mldsa_keygen = (\<lambda>pk sk s. (CX_OK, replicate (length pk) 3, replicate (length sk) 4)),
     mldsa_sign = (\<lambda>r s m c k. (CX_OK, replicate (length s) 5, of_nat (length s))),
     mldsa_verify = (\<lambda>s m c p. CX_OK),
     cx_sha3_xof_init = (\<lambda>k n. (CX_OK, [])),
     cx_sha3_update = (\<lambda>c x. (CX_OK, c @ x)),
     cx_sha3_final = (\<lambda>c out. (CX_OK, take (length out) (c @ replicate (length out) 0xff))),
     cx_keccak_256_hash = (\<lambda>m out. (CX_OK, take (length out) (m @ replicate (length out) 0))),
     format_hex = (\<lambda>bs buf. concat (map (\<lambda>b. map upper_char (hex_pair b)) bs) @ [CHR 0x00]
                     @ drop (2 * length bs + 1) buf),
     buffer_read_u8 = (\<lambda>b old. case buffer_rest b of [] \<Rightarrow> (False, 0, b)
                         | x # xs \<Rightarrow> (True, x, b\<lparr>buf_offset := buf_offset b + 1\<rparr>)),
     buffer_read_bip32_path = (\<lambda>b old n.
       if n = 0 \<or> unat n > length old \<or> 4 * unat n > length (buffer_rest b) then (False, old, b)
       else (True, u32s_be (unat n) (buffer_rest b) @ drop (unat n) old,
             b\<lparr>buf_offset := buf_offset b + 4 * n\<rparr>)),
     buffer_move = (\<lambda>b out.
       if length (buffer_rest b) \<le> length out
       then (True, buffer_rest b @ drop (length (buffer_rest b)) out, b\<lparr>buf_offset := buf_size b\<rparr>)
       else (False, out, b)),
     apdu_parser = (\<lambda>bs. case bs of
         [cla, ins, p1, p2] \<Rightarrow> Some \<lparr>cmd_cla = cla, cmd_ins = ins, cmd_p1 = p1, cmd_p2 = p2, cmd_lc = 0, cmd_data = None\<rparr>
       | cla # ins # p1 # p2 # lc # data \<Rightarrow>
           if unat lc \<noteq> length data then None
           else Some \<lparr>cmd_cla = cla, cmd_ins = ins, cmd_p1 = p1, cmd_p2 = p2, cmd_lc = lc,
                      cmd_data = (if lc = 0 then None else Some data)\<rparr>
       | _ \<Rightarrow> None),
     io_ret = (\<lambda>data sw. int (length data) + 2)\<rparr>"

lemma sample_xof: "xof_ok sample_env (\<lambda>x. x) sample_shake"
  by (auto simp: xof_ok_def sample_env_def sample_shake_def size_consts min_def)

lemma sample_parser: "parser_ok sample_env"
  by (auto simp: parser_ok_def sample_env_def unat_eq_zero split: list.splits if_splits)

lemma sample_lengths: "env_lengths sample_env"
  by (auto simp: env_lengths_def sample_env_def split: list.splits)

lemma sample_buffers: "buffers_ok sample_env"
proof -
  have "buffer_rest (b\<lparr>buf_offset := buf_offset b + 1\<rparr>) = xs" if r: "buffer_rest b = x # xs" for b x xs
  proof -
    obtain p where p: "buf_ptr b = Some p" using r by (auto simp: buffer_rest_def split: option.splits)
    let ?o = "unat (buf_offset b)" and ?s = "unat (buf_size b)"
    have t: "take (?s - ?o) (drop ?o p) = x # xs" using r p by (simp add: buffer_rest_def)
    then have lt: "?o < ?s" by (cases "?s - ?o") auto
    have "?s < 2 ^ 32" using unsigned_less [of "buf_size b", where 'a = nat] by simp
    then have o: "unat (buf_offset b + 1) = ?o + 1" using lt by (simp add: unat_add_size_t)
    have "take (?s - (?o + 1)) (drop (?o + 1) p) = tl (take (?s - ?o) (drop ?o p))"
      using lt by (simp add: tl_take tl_drop drop_Suc)
    then show ?thesis using t p o by (simp add: buffer_rest_def)
  qed
  then show ?thesis
    by (auto simp: buffers_ok_def sample_env_def split: list.splits)
qed

definition start_device :: device where
  "start_device = \<lparr>ctx = zero_ctx 10, nvm = zero_nvm, on_screen = Blank, sent = [],
     g_current_screen = PARAMETER_CONFIRMATION, g_param_index = 0, g_param_count = 0,
     switches = replicate 4 \<lparr>sw_text = [], sw_subtext = [], sw_token = 0, sw_init = 0\<rparr>, initSettingPage = 0, exited = False\<rparr>"

lemma wf_start_device: "wf_device sample_env start_device"
  by (simp add: wf_device_def start_device_def sample_env_def wf_zero_ctx wf_zero_nvm)

end
