(* ===== verification/Send_Response.thy ===== *)
theory Send_Response
  imports Sample
begin

text \<open>
  \<open>src/helper/send_response.c\<close>: the address response and the chunked transfer of the stored
  signature (18 chunks) and public key (11 chunks). The operations return the C function's
  \<open>int\<close> and the device; \<open>None\<close> is a read outside a stored array.
\<close>


section \<open>The responses\<close>

definition helper_send_response_address :: "env \<Rightarrow> device \<Rightarrow> (int \<times> device) option" where
  "helper_send_response_address e d = do {
     a \<leftarrow> read_block (g_address (ctx d)) 0 ADDRESS_SIZE;
     Some (io_send_response e (ZOND_ADDRESS_PREFIX # a) SW_OK d)
   }"

text \<open>The copy loops of the two branches, \<open>resp[i] = N_storage.sig[i + index * 258]\<close>.\<close>

definition sig_chunk :: "bytes \<Rightarrow> nat \<Rightarrow> bytes option" where
  "sig_chunk sig index =
     (if index < 17 then read_block sig (index * SIGNATURE_CHUNK_SIZE) SIGNATURE_CHUNK_SIZE
      else read_block sig (index * SIGNATURE_CHUNK_SIZE) SIGNATURE_LAST_CHUNK_SIZE)"

definition helper_send_response_sig :: "env \<Rightarrow> byte \<Rightarrow> device \<Rightarrow> (int \<times> device) option" where
  "helper_send_response_sig e index d = do {
     resp \<leftarrow> sig_chunk (nv_sig (nvm d)) (unat index);
     (let d1 = snd (io_send_response e resp SW_OK d) in
      Some (0,
        if index = 0 then d1\<lparr>nvm := (nvm d1)\<lparr>is_sending_signature := 1\<rparr>\<rparr>
        else if index = 17 then
          set_state STATE_NONE (bzero_ctx e (d1\<lparr>nvm := (nvm d1)\<lparr>is_sending_signature := 0\<rparr>\<rparr>))
        else d1))
   }"

definition pk_chunk :: "bytes \<Rightarrow> nat \<Rightarrow> bytes option" where
  "pk_chunk pk index =
     (let chunk_size = (if index < PK_CHUNKS - 1 then PK_CHUNK_SIZE else PK_LAST_CHUNK_SIZE)
      in read_block pk (index * PK_CHUNK_SIZE) chunk_size)"

definition helper_send_response_pk_chunk :: "env \<Rightarrow> byte \<Rightarrow> device \<Rightarrow> (int \<times> device) option" where
  "helper_send_response_pk_chunk e index d =
     (if unat index \<ge> PK_CHUNKS then Some (io_send_sw e SW_WRONG_DATA_LENGTH d)
      else do {
        resp \<leftarrow> pk_chunk (nv_pk (nvm d)) (unat index);
        Some (0, snd (io_send_response e resp SW_OK d))
      })"


section \<open>Chunked transfer\<close>

text \<open>
  The contract of a chunked transfer: each chunk is the next \<open>size\<close> bytes of the array (fewer at
  its end), and the chunks reach its end. Then the chunks put together are the array.
\<close>

locale chunked =
  fixes chunk :: "bytes \<Rightarrow> nat \<Rightarrow> bytes option" and len size count :: nat
  assumes chunk_at: "length store = len \<Longrightarrow> i < count \<Longrightarrow> chunk store i = Some (take size (drop (i * size) store))"
    and covers: "len \<le> count * size"
begin

lemma chunks_prefix: "concat (map (\<lambda>i. take size (drop (i * size) (store :: bytes))) [0..<n]) = take (n * size) store"
proof (induction n)
  case 0
  then show ?case by simp
next
  case (Suc n)
  have e: "Suc n * size = n * size + size" by simp
  show ?case unfolding e take_add using Suc by simp
qed

definition pieces :: "bytes \<Rightarrow> bytes list" where
  "pieces store = map (\<lambda>i. take size (drop (i * size) store)) [0..<count]"

lemma concat_pieces: "length store = len \<Longrightarrow> concat (pieces store) = store"
  using covers by (simp add: chunks_prefix pieces_def)

lemma pieces_nth: "length store = len \<Longrightarrow> i < count \<Longrightarrow> chunk store i = Some (pieces store ! i)"
  by (simp add: chunk_at pieces_def)

lemma length_pieces: "length (pieces store) = count"
  by (simp add: pieces_def)

lemma piece_size: "p \<in> set (pieces store) \<Longrightarrow> length p \<le> size"
  by (auto simp: pieces_def)

end

interpretation sigc: chunked sig_chunk MLDSA87_SIGBYTES SIGNATURE_CHUNK_SIZE 18
proof
  fix store :: bytes and i :: nat
  assume l: "length store = MLDSA87_SIGBYTES" and i: "i < 18"
  show "sig_chunk store i = Some (take SIGNATURE_CHUNK_SIZE (drop (i * SIGNATURE_CHUNK_SIZE) store))"
  proof (cases "i < 17")
    case True
    then show ?thesis using l by (simp add: sig_chunk_def read_block_def size_consts)
  next
    case False
    then have "i = 17" using i by simp
    then show ?thesis using l by (simp add: sig_chunk_def read_block_def size_consts)
  qed
qed (simp add: size_consts)

interpretation pkc: chunked pk_chunk MLDSA87_PUBLICKEYBYTES PK_CHUNK_SIZE PK_CHUNKS
proof
  fix store :: bytes and i :: nat
  assume l: "length store = MLDSA87_PUBLICKEYBYTES" and i: "i < PK_CHUNKS"
  show "pk_chunk store i = Some (take PK_CHUNK_SIZE (drop (i * PK_CHUNK_SIZE) store))"
  proof (cases "i < 10")
    case True
    then show ?thesis using l by (simp add: pk_chunk_def read_block_def size_consts)
  next
    case False
    then have "i = 10" using i by (simp add: size_consts)
    then show ?thesis using l by (simp add: pk_chunk_def read_block_def size_consts)
  qed
qed (simp add: size_consts)

text \<open>The operation for each index of a list, in order.\<close>

fun send_each :: "('i \<Rightarrow> device \<Rightarrow> (int \<times> device) option) \<Rightarrow> 'i list \<Rightarrow> device \<Rightarrow> device option" where
  "send_each f [] d = Some d"
| "send_each f (i # is) d = do { r \<leftarrow> f i d; send_each f is (snd r) }"

lemma send_each_append:
  "send_each f (is @ js) d = do { d' \<leftarrow> send_each f is d; send_each f js d' }"
  by (induction "is" arbitrary: d) (auto split: bind_splits)

definition sending_flag :: "byte \<Rightarrow> device \<Rightarrow> byte" where
  "sending_flag i d = (if i = 0 then 1 else if i = 17 then 0 else is_sending_signature (nvm d))"

text \<open>What one signature chunk does, on every index that is in range.\<close>

lemma helper_send_response_sig_result:
  assumes "wf_nvm (nvm d)" "unat i < 18"
  shows "helper_send_response_sig e i d =
    Some (0, d\<lparr>sent := sent d @ [(sigc.pieces (nv_sig (nvm d)) ! unat i, SW_OK)],
               nvm := (nvm d)\<lparr>is_sending_signature := sending_flag i d\<rparr>,
               ctx := (if i = 17 then zero_ctx (max_bip32_path e) else ctx d)\<rparr>)"
proof -
  have "sig_chunk (nv_sig (nvm d)) (unat i) = Some (sigc.pieces (nv_sig (nvm d)) ! unat i)"
    by (rule sigc.pieces_nth) (use assms in \<open>simp_all add: wf_nvm_def\<close>)
  then show ?thesis
    by (simp add: helper_send_response_sig_def dev_simps Let_def sending_flag_def zero_ctx_def)
qed

lemma helper_send_response_pk_chunk_result:
  assumes "wf_nvm (nvm d)"
  shows "helper_send_response_pk_chunk e i d =
    Some (if unat i < PK_CHUNKS
          then (0, d\<lparr>sent := sent d @ [(pkc.pieces (nv_pk (nvm d)) ! unat i, SW_OK)]\<rparr>)
          else (io_ret e [] SW_WRONG_DATA_LENGTH, d\<lparr>sent := sent d @ [([], SW_WRONG_DATA_LENGTH)]\<rparr>))"
proof (cases "unat i < PK_CHUNKS")
  case True
  have "pk_chunk (nv_pk (nvm d)) (unat i) = Some (pkc.pieces (nv_pk (nvm d)) ! unat i)"
    by (rule pkc.pieces_nth) (use assms True in \<open>simp_all add: wf_nvm_def\<close>)
  then show ?thesis using True by (simp add: helper_send_response_pk_chunk_def dev_simps)
next
  case False
  then show ?thesis by (simp add: helper_send_response_pk_chunk_def dev_simps)
qed


section \<open>Complete transfers\<close>

lemma send_each_sig:
  "wf_nvm (nvm d) \<Longrightarrow> k < 18 \<Longrightarrow>
   send_each (helper_send_response_sig e) (map of_nat [0..<k]) d =
     Some (d\<lparr>sent := sent d @ map (\<lambda>i. (sigc.pieces (nv_sig (nvm d)) ! i, SW_OK)) [0..<k],
             nvm := (if k = 0 then nvm d else (nvm d)\<lparr>is_sending_signature := 1\<rparr>)\<rparr>)"
proof (induction k)
  case 0
  then show ?case by simp
next
  case (Suc k)
  let ?d = "d\<lparr>sent := sent d @ map (\<lambda>i. (sigc.pieces (nv_sig (nvm d)) ! i, SW_OK)) [0..<k],
             nvm := (if k = 0 then nvm d else (nvm d)\<lparr>is_sending_signature := 1\<rparr>)\<rparr>"
  have u: "unat (of_nat k :: byte) = k" using Suc.prems by (simp add: unat_of_nat)
  have k0: "(of_nat k :: byte) = 0 \<longleftrightarrow> k = 0" "(of_nat k :: byte) \<noteq> 17"
    using Suc.prems u by (auto simp: word_unat_eq_iff)
  have wf: "wf_nvm (nvm ?d)" using Suc.prems(1) by (simp add: wf_nvm_def)
  have "helper_send_response_sig e (of_nat k) ?d = Some (0, d\<lparr>
      sent := sent d @ map (\<lambda>i. (sigc.pieces (nv_sig (nvm d)) ! i, SW_OK)) [0..<Suc k],
      nvm := (nvm d)\<lparr>is_sending_signature := 1\<rparr>\<rparr>)"
    using helper_send_response_sig_result [OF wf, of "of_nat k" e] Suc.prems u k0
    by (simp add: sending_flag_def)
  then show ?case using Suc by (simp add: send_each_append)
qed

text \<open>
  C30. The signature transfer is complete: requesting the chunks 0 to 17 in order sends eighteen
  responses of at most 258 bytes with status 9000 whose concatenation is the stored 4627-byte
  signature, and after the last one the context is wiped and the transfer flag is clear.
\<close>

theorem signature_transfer:
  assumes "wf_nvm (nvm d)"
  shows "\<exists>chunks d'. send_each (helper_send_response_sig e) (map of_nat [0..<18]) d = Some d' \<and>
    sent d' = sent d @ map (\<lambda>c. (c, SW_OK)) chunks \<and> concat chunks = nv_sig (nvm d) \<and>
    length chunks = 18 \<and> (\<forall>c \<in> set chunks. length c \<le> 258) \<and>
    ctx d' = zero_ctx (max_bip32_path e) \<and> is_sending_signature (nvm d') = 0 \<and>
    nv_sig (nvm d') = nv_sig (nvm d)"
proof -
  let ?p = "sigc.pieces (nv_sig (nvm d))"
  let ?d = "d\<lparr>sent := sent d @ map (\<lambda>i. (?p ! i, SW_OK)) [0..<17],
             nvm := (nvm d)\<lparr>is_sending_signature := 1\<rparr>\<rparr>"
  have l: "length ?p = 18" by (rule sigc.length_pieces)
  have upt: "[0..<18] = [0..<17] @ [17 :: nat]" by (simp add: upt_rec)
  have s17: "send_each (helper_send_response_sig e) (map of_nat [0..<17]) d = Some ?d"
    using send_each_sig [OF assms, of 17 e] by simp
  have wf: "wf_nvm (nvm ?d)" using assms by (simp add: wf_nvm_def)
  have last: "helper_send_response_sig e 17 ?d = Some (0, ?d\<lparr>sent := sent ?d @ [(?p ! 17, SW_OK)],
      nvm := (nvm ?d)\<lparr>is_sending_signature := 0\<rparr>, ctx := zero_ctx (max_bip32_path e)\<rparr>)"
    using helper_send_response_sig_result [OF wf, of 17 e] by (simp add: sending_flag_def)
  let ?d' = "?d\<lparr>sent := sent ?d @ [(?p ! 17, SW_OK)],
      nvm := (nvm ?d)\<lparr>is_sending_signature := 0\<rparr>, ctx := zero_ctx (max_bip32_path e)\<rparr>"
  have "send_each (helper_send_response_sig e) (map of_nat [0..<18]) d = Some ?d'"
    unfolding upt map_append send_each_append s17 using last by simp
  moreover have "map (\<lambda>i. (?p ! i, SW_OK)) [0..<17] @ [(?p ! 17, SW_OK)] = map (\<lambda>c. (c, SW_OK)) ?p"
  proof -
    have "map (\<lambda>c. (c, SW_OK)) ?p = map (\<lambda>i. (?p ! i, SW_OK)) [0..<18]"
      using l by (intro nth_equalityI) simp_all
    then show ?thesis unfolding upt by simp
  qed
  then have "sent ?d' = sent d @ map (\<lambda>c. (c, SW_OK)) ?p" by simp
  moreover have "concat ?p = nv_sig (nvm d)" by (rule sigc.concat_pieces) (use assms in \<open>simp add: wf_nvm_def\<close>)
  moreover have "\<forall>c \<in> set ?p. length c \<le> 258" using sigc.piece_size by (simp add: size_consts)
  ultimately show ?thesis using l by (intro exI [of _ ?p] exI [of _ ?d']) simp
qed

theorem signature_transfer_witness:
  "\<exists>chunks d'. send_each (helper_send_response_sig sample_env) (map of_nat [0..<18]) start_device = Some d' \<and>
     sent d' = map (\<lambda>c. (c, SW_OK)) chunks \<and> concat chunks = replicate 4627 0"
  using signature_transfer [of start_device sample_env] wf_zero_nvm
  by (auto simp: start_device_def zero_nvm_def MLDSA87_SIGBYTES_def)

lemma send_each_pk:
  "wf_nvm (nvm d) \<Longrightarrow> k \<le> PK_CHUNKS \<Longrightarrow>
   send_each (helper_send_response_pk_chunk e) (map of_nat [0..<k]) d =
     Some (d\<lparr>sent := sent d @ map (\<lambda>i. (pkc.pieces (nv_pk (nvm d)) ! i, SW_OK)) [0..<k]\<rparr>)"
proof (induction k)
  case 0
  then show ?case by simp
next
  case (Suc k)
  have u: "unat (of_nat k :: byte) = k" using Suc.prems by (simp add: unat_of_nat size_consts)
  let ?d = "d\<lparr>sent := sent d @ map (\<lambda>i. (pkc.pieces (nv_pk (nvm d)) ! i, SW_OK)) [0..<k]\<rparr>"
  have "wf_nvm (nvm ?d)" using Suc.prems by simp
  from helper_send_response_pk_chunk_result [OF this, of e "of_nat k"] show ?case
    using Suc by (simp add: send_each_append u)
qed

lemma transfer_key:
  assumes "wf_nvm (nvm d)"
  shows "\<exists>chunks. send_each (helper_send_response_pk_chunk e) (map of_nat [0..<11]) d =
      Some (d\<lparr>sent := sent d @ map (\<lambda>c. (c, SW_OK)) chunks\<rparr>) \<and>
    concat chunks = nv_pk (nvm d) \<and> length chunks = 11 \<and> (\<forall>c \<in> set chunks. length c \<le> 258)"
proof -
  let ?p = "pkc.pieces (nv_pk (nvm d))"
  have l: "length ?p = 11" using pkc.length_pieces by (simp add: size_consts)
  have "map (\<lambda>i. (?p ! i, SW_OK)) [0..<11] = map (\<lambda>c. (c, SW_OK)) ?p"
    using l by (intro nth_equalityI) simp_all
  moreover have "send_each (helper_send_response_pk_chunk e) (map of_nat [0..<11]) d =
      Some (d\<lparr>sent := sent d @ map (\<lambda>i. (?p ! i, SW_OK)) [0..<11]\<rparr>)"
    using send_each_pk [OF assms, of 11 e] by (simp add: PK_CHUNKS_def del: upt_Suc)
  moreover have "concat ?p = nv_pk (nvm d)" by (rule pkc.concat_pieces) (use assms in \<open>simp add: wf_nvm_def\<close>)
  moreover have "\<forall>c \<in> set ?p. length c \<le> 258" using pkc.piece_size by (simp add: size_consts)
  ultimately show ?thesis using l by (intro exI [of _ ?p]) simp
qed

text \<open>
  C31. The public key transfer is complete: chunk indices 0 to 10 send eleven responses of at most
  258 bytes whose concatenation is the stored 2592-byte key, and change nothing else; every other
  index is answered with the wrong-length status.
\<close>

theorem public_key_transfer:
  assumes "wf_nvm (nvm d)"
  shows "\<exists>chunks. send_each (helper_send_response_pk_chunk e) (map of_nat [0..<11]) d =
      Some (d\<lparr>sent := sent d @ map (\<lambda>c. (c, SW_OK)) chunks\<rparr>) \<and>
    concat chunks = nv_pk (nvm d) \<and> length chunks = 11 \<and> (\<forall>c \<in> set chunks. length c \<le> 258) \<and>
    (\<forall>i. 11 \<le> unat i \<longrightarrow> helper_send_response_pk_chunk e i d =
       Some (io_ret e [] SW_WRONG_DATA_LENGTH, d\<lparr>sent := sent d @ [([], SW_WRONG_DATA_LENGTH)]\<rparr>))"
  using transfer_key [OF assms, of e] helper_send_response_pk_chunk_result [OF assms, of e]
  by (auto simp: PK_CHUNKS_def)

theorem public_key_transfer_witness:
  "\<exists>chunks. send_each (helper_send_response_pk_chunk sample_env) (map of_nat [0..<11]) start_device =
      Some (start_device\<lparr>sent := map (\<lambda>c. (c, SW_OK)) chunks\<rparr>) \<and> concat chunks = replicate 2592 0"
  using public_key_transfer [of start_device sample_env] wf_zero_nvm
  by (auto simp: start_device_def zero_nvm_def MLDSA87_PUBLICKEYBYTES_def simp del: upt_Suc)

end
