(* ===== verification/Validate.thy ===== *)
theory Validate
  imports Send_Response
begin

text \<open>
  \<open>src/ui/action/validate.c\<close>: what the user's answer does. \<open>validate_pubkey\<close> releases or
  refuses the address; \<open>validate_transaction\<close> signs the hash of the reviewed transaction,
  checks the signature and sends its first chunk, or refuses.
\<close>


section \<open>The operations\<close>

definition QRL_CTX :: bytes where
  "QRL_CTX = [0x5A, 0x4F, 0x4E, 0x44, 0x01, 0x01, 0x00, 0x00]"

definition validate_pubkey :: "env \<Rightarrow> bool \<Rightarrow> device \<Rightarrow> device option" where
  "validate_pubkey e choice d =
     (if choice then do {
        (r, d') \<leftarrow> helper_send_response_address e (set_state STATE_APPROVED d);
        Some d' }
      else Some (bzero_ctx e (snd (io_send_sw e SW_DENY d))))"

text \<open>
  \<open>crypto_sign_message\<close>: the key pair is generated with the public key written over the start of
  the signature buffer, as in the code. \<open>rnd\<close> is the randomness of the hedged signature.
\<close>

definition crypto_sign_message :: "env \<Rightarrow> bytes \<Rightarrow> device \<Rightarrow> int \<times> device" where
  "crypto_sign_message e rnd d =
     (let sk = uninit e (secret_key_bytes e);
          sig = uninit e MLDSA87_SIGBYTES;
          (err, raw_seed) = os_derive_bip32_no_throw e (bip32_path (ctx d))
                              (ucast (bip32_path_len (ctx d))) (replicate 64 0) in
      if err \<noteq> CX_OK then (-1, d)
      else (let (err, pk, sk) = mldsa_keygen e (take MLDSA87_PUBLICKEYBYTES sig) sk raw_seed;
                sig = pk @ drop MLDSA87_PUBLICKEYBYTES sig in
      if err \<noteq> CX_OK then (-1, d)
      else (let (err, sig, actual_len) = mldsa_sign e rnd sig (m_hash (tx_info (ctx d))) QRL_CTX sk;
                d1 = d\<lparr>nvm := (nvm d)\<lparr>nv_sig := sig\<rparr>\<rparr> in
      if err \<noteq> CX_OK \<or> unat actual_len \<noteq> MLDSA87_SIGBYTES then (-1, d1)
      else (let err = mldsa_verify e (nv_sig (nvm d1)) (m_hash (tx_info (ctx d1))) QRL_CTX (nv_pk (nvm d1)) in
      if err \<noteq> CX_OK then (-1, d1) else (0, d1)))))"

definition validate_transaction :: "env \<Rightarrow> bytes \<Rightarrow> bool \<Rightarrow> device \<Rightarrow> (bool \<times> device) option" where
  "validate_transaction e rnd choice d =
     (if choice then
        (let (r, d1) = crypto_sign_message e rnd (set_state STATE_APPROVED d) in
         if r \<noteq> 0 then Some (False, snd (io_send_sw e SW_SIGNATURE_FAIL (set_state STATE_NONE d1)))
         else do {
           (r', d2) \<leftarrow> helper_send_response_sig e 0 d1;
           Some (True, d2) })
      else Some (False, bzero_ctx e (snd (io_send_sw e SW_DENY d))))"


section \<open>What they guarantee\<close>

definition signature_valid :: "env \<Rightarrow> device \<Rightarrow> bool" where
  "signature_valid e d \<longleftrightarrow>
     mldsa_verify e (nv_sig (nvm d)) (m_hash (tx_info (ctx d))) QRL_CTX (nv_pk (nvm d)) = CX_OK"

text \<open>Signing changes the stored signature only, and success means that it verifies.\<close>

lemma crypto_sign_message_result:
  assumes e: "env_lengths e" and s: "crypto_sign_message e rnd d = (r, d')"
  shows "\<exists>sig. d' = d\<lparr>nvm := (nvm d)\<lparr>nv_sig := sig\<rparr>\<rparr> \<and>
    (length (nv_sig (nvm d)) = MLDSA87_SIGBYTES \<longrightarrow> length sig = MLDSA87_SIGBYTES) \<and>
    (r = 0 \<longrightarrow> signature_valid e d')"
proof -
  obtain err1 seed where k1: "os_derive_bip32_no_throw e (bip32_path (ctx d))
      (ucast (bip32_path_len (ctx d))) (replicate 64 0) = (err1, seed)" by fastforce
  obtain err2 pk sk where k2: "mldsa_keygen e (take MLDSA87_PUBLICKEYBYTES (uninit e MLDSA87_SIGBYTES))
      (uninit e (secret_key_bytes e)) seed = (err2, pk, sk)" by (metis prod_cases3)
  let ?sig0 = "pk @ drop MLDSA87_PUBLICKEYBYTES (uninit e MLDSA87_SIGBYTES)"
  obtain err3 sig n where k3: "mldsa_sign e rnd ?sig0 (m_hash (tx_info (ctx d))) QRL_CTX sk = (err3, sig, n)"
    by (metis prod_cases3)
  have u: "length (uninit e MLDSA87_SIGBYTES) = MLDSA87_SIGBYTES" using e by (simp add: env_lengths_def)
  have "length (take MLDSA87_PUBLICKEYBYTES (uninit e MLDSA87_SIGBYTES)) = MLDSA87_PUBLICKEYBYTES"
    using u by (simp add: size_consts)
  then have "length pk = MLDSA87_PUBLICKEYBYTES"
    using e k2 unfolding env_lengths_def by (metis fst_conv snd_conv)
  then have "length ?sig0 = MLDSA87_SIGBYTES" using u by (simp add: size_consts)
  then have l: "length sig = MLDSA87_SIGBYTES"
    using e k3 unfolding env_lengths_def by (metis fst_conv snd_conv)
  have keep: "d = d\<lparr>nvm := (nvm d)\<lparr>nv_sig := nv_sig (nvm d)\<rparr>\<rparr>" by simp
  show ?thesis
  proof (cases "err1 \<noteq> CX_OK \<or> err2 \<noteq> CX_OK")
    case True
    then have "d' = d \<and> r = -1"
      using s by (cases "err1 = CX_OK") (simp_all add: crypto_sign_message_def k1 k2 Let_def)
    then show ?thesis using keep by (intro exI [of _ "nv_sig (nvm d)"]) simp
  next
    case False
    then have "d' = d\<lparr>nvm := (nvm d)\<lparr>nv_sig := sig\<rparr>\<rparr>" "r = 0 \<longrightarrow> signature_valid e d'"
      using s by (auto simp: crypto_sign_message_def k1 k2 k3 Let_def signature_valid_def split: if_splits)
    then show ?thesis using l by blast
  qed
qed

text \<open>The complete behaviour of an approval.\<close>

lemma validate_transaction_approved:
  assumes e: "env_lengths e" and wf: "wf_device e d"
  shows "\<exists>r d' sig. validate_transaction e rnd True d = Some (r, d') \<and> length sig = MLDSA87_SIGBYTES \<and>
    (if r then d' = (set_state STATE_APPROVED d)
                 \<lparr>nvm := (nvm d)\<lparr>nv_sig := sig, is_sending_signature := 1\<rparr>,
                  sent := sent d @ [(sigc.pieces sig ! 0, SW_OK)]\<rparr> \<and> signature_valid e d'
     else d' = (set_state STATE_NONE d)
                 \<lparr>nvm := (nvm d)\<lparr>nv_sig := sig\<rparr>, sent := sent d @ [([], SW_SIGNATURE_FAIL)]\<rparr>)"
proof -
  let ?da = "set_state STATE_APPROVED d"
  obtain r d1 where c: "crypto_sign_message e rnd ?da = (r, d1)" by fastforce
  have la: "length (nv_sig (nvm ?da)) = MLDSA87_SIGBYTES"
    using wf by (simp add: wf_device_def wf_nvm_def set_state_def)
  from crypto_sign_message_result [OF e c] la obtain sig
    where d1: "d1 = ?da\<lparr>nvm := (nvm ?da)\<lparr>nv_sig := sig\<rparr>\<rparr>" and l: "length sig = MLDSA87_SIGBYTES"
      and v: "r = 0 \<longrightarrow> signature_valid e d1" by blast
  show ?thesis
  proof (cases "r = 0")
    case False
    then show ?thesis using c l
      by (intro exI [of _ False] exI [of _ "snd (io_send_sw e SW_SIGNATURE_FAIL (set_state STATE_NONE d1))"] exI [of _ sig])
        (simp add: validate_transaction_def d1 dev_simps)
  next
    case True
    have "wf_nvm (nvm d1)" using wf l by (simp add: d1 wf_device_def wf_nvm_def set_state_def)
    from helper_send_response_sig_result [OF this, of 0 e]
    have h: "helper_send_response_sig e 0 d1 = Some (0, ?da
        \<lparr>nvm := (nvm d)\<lparr>nv_sig := sig, is_sending_signature := 1\<rparr>,
         sent := sent d @ [(sigc.pieces sig ! 0, SW_OK)]\<rparr>)"
      by (simp add: d1 set_state_def sending_flag_def)
    show ?thesis using c True h l v
      by (intro exI [of _ True] exI [of _ "?da\<lparr>nvm := (nvm d)\<lparr>nv_sig := sig, is_sending_signature := 1\<rparr>,
         sent := sent d @ [(sigc.pieces sig ! 0, SW_OK)]\<rparr>"] exI [of _ sig])
        (simp add: validate_transaction_def signature_valid_def d1 set_state_def)
  qed
qed

text \<open>
  C17. A signature leaves the device only after an approval and only if it verifies: approving
  either sends exactly one response, the first 258 bytes of a stored signature that verifies for
  the hash in the context under the stored public key, and leaves the context approved, or sends
  the failure status alone and leaves the approved state; refusing sends the denial status and
  wipes the context.
\<close>

theorem validate_transaction_releases:
  assumes "env_lengths e" "wf_device e d"
  shows "(\<exists>r d'. validate_transaction e rnd True d = Some (r, d') \<and>
      (r \<longrightarrow> signature_valid e d' \<and> sent d' = sent d @ [(take 258 (nv_sig (nvm d')), SW_OK)] \<and>
         ctx d' = (ctx d)\<lparr>g_state := STATE_APPROVED\<rparr> \<and> nv_pk (nvm d') = nv_pk (nvm d)) \<and>
      (\<not> r \<longrightarrow> sent d' = sent d @ [([], SW_SIGNATURE_FAIL)] \<and> ctx d' = (ctx d)\<lparr>g_state := STATE_NONE\<rparr>)) \<and>
    validate_transaction e rnd False d =
      Some (False, d\<lparr>sent := sent d @ [([], SW_DENY)], ctx := zero_ctx (max_bip32_path e)\<rparr>)"
proof -
  obtain r d' sig where v: "validate_transaction e rnd True d = Some (r, d')" "length sig = MLDSA87_SIGBYTES"
    and cases: "if r then d' = (set_state STATE_APPROVED d)
                 \<lparr>nvm := (nvm d)\<lparr>nv_sig := sig, is_sending_signature := 1\<rparr>,
                  sent := sent d @ [(sigc.pieces sig ! 0, SW_OK)]\<rparr> \<and> signature_valid e d'
     else d' = (set_state STATE_NONE d)
                 \<lparr>nvm := (nvm d)\<lparr>nv_sig := sig\<rparr>, sent := sent d @ [([], SW_SIGNATURE_FAIL)]\<rparr>"
    using validate_transaction_approved [OF assms, of rnd] by blast
  have "sigc.pieces sig ! 0 = take 258 sig" unfolding sigc.pieces_def by (simp add: size_consts)
  then have "(r \<longrightarrow> signature_valid e d' \<and> sent d' = sent d @ [(take 258 (nv_sig (nvm d')), SW_OK)] \<and>
         ctx d' = (ctx d)\<lparr>g_state := STATE_APPROVED\<rparr> \<and> nv_pk (nvm d') = nv_pk (nvm d)) \<and>
      (\<not> r \<longrightarrow> sent d' = sent d @ [([], SW_SIGNATURE_FAIL)] \<and> ctx d' = (ctx d)\<lparr>g_state := STATE_NONE\<rparr>)"
    using cases by (cases r) (auto simp: set_state_def)
  then show ?thesis using v(1) by (auto simp: validate_transaction_def dev_simps)
qed

theorem validate_transaction_releases_witness:
  "\<exists>r d'. validate_transaction sample_env [] True start_device = Some (r, d') \<and>
     (r \<longrightarrow> sent d' = [(take 258 (nv_sig (nvm d')), SW_OK)])"
  using validate_transaction_releases [OF sample_lengths wf_start_device, of "[]"]
  by (auto simp: start_device_def)

end
