(* ===== verification/Address.thy ===== *)
theory Address
  imports Sample
begin

text \<open>
  \<open>src/address.c\<close>: the check of the derivation path, the derivation of the address from the
  path, and the checksummed text of an address.
\<close>


section \<open>The derivation path\<close>

definition is_valid_zond_bip32_path :: "u32 list \<Rightarrow> size_t \<Rightarrow> bool option" where
  "is_valid_zond_bip32_path path path_len =
     (if path_len \<noteq> 5 then Some False else do {
        p0 \<leftarrow> read_at path 0;
        p1 \<leftarrow> read_at path 1;
        p2 \<leftarrow> read_at path 2;
        p3 \<leftarrow> read_at path 3;
        p4 \<leftarrow> read_at path 4;
        if p0 \<noteq> 0x8000002C \<or> p1 \<noteq> 0x800000EE \<or> p2 AND 0x80000000 = 0 \<or>
           p3 AND 0x80000000 \<noteq> 0 \<or> p4 AND 0x80000000 \<noteq> 0
        then Some False else Some True })"


section \<open>The address of a path\<close>

definition ZOND_DESCRIPTOR :: bytes where "ZOND_DESCRIPTOR = [1, 0, 0]"

text \<open>
  The hashing part: one hash of the descriptor and the stored key into \<open>address\<close>; every error is
  the return value -1.
\<close>

definition hash_address :: "env \<Rightarrow> bytes \<Rightarrow> bytes \<Rightarrow> cx_err_t \<times> bytes" where
  "hash_address e pk address =
     (let (err, hash) = cx_sha3_xof_init e 256 ADDRESS_SIZE in
      if err \<noteq> CX_OK then (- 1, address)
      else (let (err, hash) = cx_sha3_update e hash ZOND_DESCRIPTOR in
      if err \<noteq> CX_OK then (- 1, address)
      else (let (err, hash) = cx_sha3_update e hash pk in
      if err \<noteq> CX_OK then (- 1, address)
      else (let (err, address') = cx_sha3_final e hash address in
      if err \<noteq> CX_OK then (- 1, address') else (0, address')))))"

text \<open>
  \<open>address_from_bip32_path(path, path_len, address)\<close>: the error code, the address array and the
  storage after the call. The public key is stored in \<open>N_storage.pk\<close> before it is hashed.
\<close>

definition address_from_bip32_path ::
    "env \<Rightarrow> u32 list \<Rightarrow> size_t \<Rightarrow> bytes \<Rightarrow> internal_storage_t \<Rightarrow> cx_err_t \<times> bytes \<times> internal_storage_t" where
  "address_from_bip32_path e path path_len address n =
     (let (err, raw_seed) = os_derive_bip32_no_throw e path path_len (replicate 64 0) in
      if err \<noteq> CX_OK then (err, address, n)
      else (let (err, pk, sk) = mldsa_keygen e (replicate MLDSA87_PUBLICKEYBYTES 0)
                                  (replicate (secret_key_bytes e) 0) raw_seed in
      if err \<noteq> CX_OK then (- 1, address, n)
      else (let n' = n\<lparr>nv_pk := pk\<rparr>;
                (err, address') = hash_address e (nv_pk n') address in (err, address', n'))))"


section \<open>The checksummed text\<close>

definition hexc :: string where "hexc = ''0123456789abcdef''"

fun hex_body :: "bytes \<Rightarrow> string" where
  "hex_body [] = []"
| "hex_body (b # bs) = hexc ! unat (drop_bit 4 b) # hexc ! unat (b AND 0x0f) # hex_body bs"

text \<open>The second loop, from index \<open>i\<close> on, over the characters still to be cased.\<close>

fun case_body :: "bytes \<Rightarrow> nat \<Rightarrow> string \<Rightarrow> string option" where
  "case_body hmask i [] = Some []"
| "case_body hmask i (c # cs) = do {
     m \<leftarrow> read_at hmask (i div 2);
     (let nibble = (if i mod 2 = 0 then drop_bit 4 m else m AND 0x0f);
          c' = (if of_char c \<ge> (97 :: nat) \<and> of_char c \<le> (102 :: nat) \<and> nibble \<ge> 8
                then char_of (of_char c - 32 :: nat) else c)
      in do {
        rest \<leftarrow> case_body hmask (i + 1) cs;
        Some (c' # rest) })
   }"

text \<open>
  \<open>format_checksummed_address(address, out, out_len)\<close>: the returned boolean and the string in
  \<open>out\<close>, which is only complete when the result is true. A null \<open>out\<close> has no capacity.
\<close>

definition format_checksummed_address ::
    "env \<Rightarrow> bytes \<Rightarrow> nat option \<Rightarrow> (bool \<times> string) option" where
  "format_checksummed_address e address out =
     (case out of None \<Rightarrow> Some (False, [])
      | Some out_len \<Rightarrow>
          if out_len < 1 + 2 * ADDRESS_SIZE + 1 then Some (False, []) else do {
            addr \<leftarrow> read_block address 0 ADDRESS_SIZE;
            (let body = hex_body addr;
                 hmask = replicate ADDRESS_SIZE 0;
                 (err, hash) = cx_sha3_xof_init e 256 ADDRESS_SIZE in
             if err \<noteq> CX_OK then Some (False, body)
             else (let (err, hash) = cx_sha3_update e hash (map of_char body) in
             if err \<noteq> CX_OK then Some (False, body)
             else (let (err, hmask) = cx_sha3_final e hash hmask in
             if err \<noteq> CX_OK then Some (False, body)
             else do {
               body' \<leftarrow> case_body hmask 0 body;
               Some (True, CHR ''Q'' # body') })))
          })"


section \<open>Which paths are accepted\<close>

lemma top_bit: "(w :: u32) AND 0x80000000 = 0 \<longleftrightarrow> unat w < 2 ^ 31"
proof -
  have "w AND 2 ^ 31 = 0 \<longleftrightarrow> \<not> bit w 31" by (rule and_exp_eq_0_iff_not_bit)
  moreover have "bit (unat w) 31 \<longleftrightarrow> bit w 31" by (simp add: bit_unsigned_iff)
  then have "bit w 31 \<longleftrightarrow> odd (unat w div 2 ^ 31)" using bit_iff_odd [of "unat w" 31] by blast
  moreover have "unat w < 2 ^ 32" using unsigned_less [of w, where 'a = nat] by simp
  then have "unat w div 2 ^ 31 < 2" by (simp add: div_less_iff_less_mult)
  then have "odd (unat w div 2 ^ 31) \<longleftrightarrow> \<not> unat w < 2 ^ 31"
    by (auto simp: less_2_cases_iff div_eq_0_iff elim: oddE)
  ultimately show ?thesis by simp
qed

definition zond_path :: "u32 list \<Rightarrow> bool" where
  "zond_path p \<longleftrightarrow> (\<exists>account change index.
     p = [of_nat (2 ^ 31 + 44), of_nat (2 ^ 31 + 238), account, change, index] \<and>
     2 ^ 31 \<le> unat account \<and> unat change < 2 ^ 31 \<and> unat index < 2 ^ 31)"

lemma zond_path_length: "zond_path p \<Longrightarrow> length p = 5"
  by (auto simp: zond_path_def)

lemma is_valid_path_result:
  "unat path_len \<le> length path \<Longrightarrow>
   is_valid_zond_bip32_path path path_len = Some (zond_path (take (unat path_len) path))"
proof (cases "path_len = 5")
  case False
  assume le: "unat path_len \<le> length path"
  have "unat path_len \<noteq> 5" using False by (simp add: word_unat_eq_iff)
  then have "\<not> zond_path (take (unat path_len) path)" using le zond_path_length [of "take (unat path_len) path"] by auto
  then show ?thesis using False by (simp add: is_valid_zond_bip32_path_def)
next
  case True
  assume "unat path_len \<le> length path"
  then have "5 \<le> length path" using True by simp
  then obtain p0 p1 p2 p3 p4 rest where p: "path = p0 # p1 # p2 # p3 # p4 # rest"
    by (auto simp: numeral_eq_Suc Suc_le_length_iff)
  then show ?thesis using True
    by (auto simp: is_valid_zond_bip32_path_def zond_path_def mem_simps top_bit not_less)
qed

text \<open>
  C34. The path check accepts exactly the five-level paths
  \<open>m/44'/238'/account'/change/index\<close>: purpose and coin type hardened, account hardened, the last
  two levels not hardened.
\<close>

theorem is_valid_zond_bip32_path_iff:
  assumes "unat path_len \<le> length path"
  shows "\<exists>b. is_valid_zond_bip32_path path path_len = Some b \<and>
    (b \<longleftrightarrow> zond_path (take (unat path_len) path))"
  using is_valid_path_result [OF assms] by blast

theorem is_valid_zond_bip32_path_iff_witness:
  "is_valid_zond_bip32_path [0x8000002C, 0x800000EE, 0x80000000, 0, 3] 5 = Some True \<and>
   is_valid_zond_bip32_path [0x8000002C, 0x8000003C, 0x80000000, 0, 3] 5 = Some False"
  using is_valid_zond_bip32_path_iff [of 5 "[0x8000002C, 0x800000EE, 0x80000000, 0, 3]"]
    is_valid_zond_bip32_path_iff [of 5 "[0x8000002C, 0x8000003C, 0x80000000, 0, 3]"]
  by (auto simp: zond_path_def)


section \<open>What the derivation computes\<close>

lemma hash_address_ok:
  assumes "xof_ok e st shake" "length address = ADDRESS_SIZE"
  shows "hash_address e pk address = (CX_OK, shake (ZOND_DESCRIPTOR @ pk))"
  using assms by (simp add: hash_address_def xof_ok_def CX_OK_def)

lemma address_from_bip32_path_ok:
  assumes x: "xof_ok e st shake" "length address = ADDRESS_SIZE"
  shows "address_from_bip32_path e path path_len address n =
    (case os_derive_bip32_no_throw e path path_len (replicate 64 0) of (err, seed) \<Rightarrow>
       if err \<noteq> CX_OK then (err, address, n)
       else (case mldsa_keygen e (replicate MLDSA87_PUBLICKEYBYTES 0) (replicate (secret_key_bytes e) 0) seed of
         (err, pk, sk) \<Rightarrow>
           if err \<noteq> CX_OK then (- 1, address, n)
           else (CX_OK, shake ([1, 0, 0] @ pk), n\<lparr>nv_pk := pk\<rparr>)))"
  by (auto simp: address_from_bip32_path_def hash_address_ok [OF x] ZOND_DESCRIPTOR_def CX_OK_def
      split: prod.splits)

text \<open>The public key of a path, when both the derivation and the key generation succeed.\<close>

definition key_of :: "env \<Rightarrow> u32 list \<Rightarrow> size_t \<Rightarrow> bytes option" where
  "key_of e path path_len =
     (case os_derive_bip32_no_throw e path path_len (replicate 64 0) of (err, seed) \<Rightarrow>
        if err \<noteq> CX_OK then None
        else (case mldsa_keygen e (replicate MLDSA87_PUBLICKEYBYTES 0) (replicate (secret_key_bytes e) 0) seed of
          (err, pk, sk) \<Rightarrow> if err \<noteq> CX_OK then None else Some pk))"

lemma minus_1_not_ok: "(- 1 :: cx_err_t) \<noteq> CX_OK"
  by (simp add: CX_OK_def)

lemma address_of_key:
  assumes "xof_ok e st shake" "length address = ADDRESS_SIZE"
  shows "key_of e path path_len = Some pk \<Longrightarrow>
      address_from_bip32_path e path path_len address n = (CX_OK, shake ([1, 0, 0] @ pk), n\<lparr>nv_pk := pk\<rparr>)"
    and "key_of e path path_len = None \<Longrightarrow>
      \<exists>err. address_from_bip32_path e path path_len address n = (err, address, n) \<and> err \<noteq> CX_OK"
  unfolding address_from_bip32_path_ok [OF assms] key_of_def
  using minus_1_not_ok by (auto split: prod.splits if_splits)

lemma key_of_length: "env_lengths e \<Longrightarrow> key_of e path n = Some pk \<Longrightarrow> length pk = MLDSA87_PUBLICKEYBYTES"
proof -
  assume e: "env_lengths e" and k: "key_of e path n = Some pk"
  obtain seed err sk where
    "mldsa_keygen e (replicate MLDSA87_PUBLICKEYBYTES 0) (replicate (secret_key_bytes e) 0) seed = (err, pk, sk)"
    using k by (auto simp: key_of_def split: prod.splits if_splits)
  then show ?thesis using e unfolding env_lengths_def by (metis fst_conv snd_conv length_replicate)
qed

text \<open>
  C33. The address of a path is SHAKE-256 (64 bytes) of the descriptor 01 00 00 and the ML-DSA-87
  public key of the seed derived at the path, and that key is what the storage holds afterwards;
  when the derivation or the key generation fails, its error code (or -1) is returned and neither
  the address nor the storage changes.
\<close>

theorem address_from_bip32_path_correct:
  assumes "xof_ok e st shake" "length address = ADDRESS_SIZE"
  shows "address_from_bip32_path e path path_len address n =
    (case os_derive_bip32_no_throw e path path_len (replicate 64 0) of (err, seed) \<Rightarrow>
       if err \<noteq> CX_OK then (err, address, n)
       else (case mldsa_keygen e (replicate MLDSA87_PUBLICKEYBYTES 0) (replicate (secret_key_bytes e) 0) seed of
         (err, pk, sk) \<Rightarrow>
           if err \<noteq> CX_OK then (- 1, address, n)
           else (CX_OK, shake ([1, 0, 0] @ pk), n\<lparr>nv_pk := pk\<rparr>)))"
  by (rule address_from_bip32_path_ok [OF assms])


section \<open>What the checksummed text means\<close>

definition mask_nibble :: "bytes \<Rightarrow> nat \<Rightarrow> nat" where
  "mask_nibble m i = (if i mod 2 = 0 then unat (m ! (i div 2)) div 16 else unat (m ! (i div 2)) mod 16)"

definition cased :: "bytes \<Rightarrow> nat \<Rightarrow> char \<Rightarrow> char" where
  "cased m i c = (if c \<in> set ''abcdef'' \<and> 8 \<le> mask_nibble m i then upper_char c else c)"

lemma hex_body_pairs: "hex_body bs = hex_loop bs"
proof (induction bs)
  case Nil
  then show ?case by simp
next
  case (Cons b bs)
  have "unat (drop_bit 4 b) = unat b div 16" by (simp add: unat_div drop_bit_eq_div)
  then show ?case using Cons.IH nibbles(1) [of b] by (simp add: hexc_def hex_chars_def)
qed

lemma hex_loop_set: "c \<in> set (hex_loop bs) \<Longrightarrow> c \<in> set hex_chars"
proof (induction bs)
  case Nil
  then show ?case by simp
next
  case (Cons b bs)
  have "length hex_chars = 16" by (simp add: hex_chars_def)
  then have "hex_chars ! unat (drop_bit 4 b AND 0x0F) \<in> set hex_chars"
    "hex_chars ! unat (b AND 0x0F) \<in> set hex_chars"
    using nibbles(1) [of b] nibbles(2) [of b] nibble_less [of b] by (auto intro: nth_mem)
  then show ?case using Cons by auto
qed

lemma lower_letter:
  assumes "c \<in> set hex_chars"
  shows "of_char c \<ge> (97 :: nat) \<and> of_char c \<le> (102 :: nat) \<longleftrightarrow> c \<in> set ''abcdef''"
  using assms unfolding hex_chars_def list.set insert_iff empty_iff
  by (elim disjE) simp_all

lemma case_char:
  assumes "c \<in> set hex_chars"
  shows "(if of_char c \<ge> (97 :: nat) \<and> of_char c \<le> (102 :: nat) \<and> p then char_of (of_char c - 32 :: nat) else c) =
    (if c \<in> set ''abcdef'' \<and> p then upper_char c else c)"
  unfolding lower_letter [OF assms, symmetric] upper_char_def by simp

lemma nibble_ge_8:
  "drop_bit 4 (m :: byte) \<ge> 8 \<longleftrightarrow> 8 \<le> unat m div 16" "m AND 0x0f \<ge> 8 \<longleftrightarrow> 8 \<le> unat m mod 16"
proof -
  have "unat (drop_bit 4 m) = unat m div 16" by (simp add: unat_div drop_bit_eq_div)
  then show "drop_bit 4 m \<ge> 8 \<longleftrightarrow> 8 \<le> unat m div 16" by (simp add: word_le_nat_alt)
  show "m AND 0x0f \<ge> 8 \<longleftrightarrow> 8 \<le> unat m mod 16"
    using nibbles(2) [of m] by (simp add: word_le_nat_alt)
qed

lemma case_body_result:
  "i + length cs \<le> 2 * length m \<Longrightarrow> set cs \<subseteq> set hex_chars \<Longrightarrow>
   case_body m i cs = Some (map (\<lambda>(j, c). cased m j c) (enumerate i cs))"
proof (induction cs arbitrary: i)
  case Nil
  then show ?case by simp
next
  case (Cons c cs)
  have r: "read_at m (i div 2) = Some (m ! (i div 2))"
    using Cons.prems(1) by (simp add: read_at_def)
  have ih: "case_body m (i + 1) cs = Some (map (\<lambda>(j, c). cased m j c) (enumerate (Suc i) cs))"
    using Cons.IH [of "i + 1"] Cons.prems by simp
  have c: "c \<in> set hex_chars" using Cons.prems(2) by simp
  show ?case
    unfolding case_body.simps r Option.bind.bind_lunit Let_def ih case_char [OF c] conj_assoc [symmetric]
    by (auto simp: cased_def mask_nibble_def nibble_ge_8 case_char [OF c])
qed

lemma hex_read_cong:
  "hex_value c = hex_value c' \<Longrightarrow> hex_value d = hex_value d' \<Longrightarrow> hex_read [c, d] = hex_read [c', d']"
  by (simp add: hex_read_def)

lemma untext_cong:
  "list_all2 (\<lambda>c d. hex_value c = hex_value d) xs ys \<Longrightarrow> hexl.untext xs = hexl.untext ys"
proof (induction xs arbitrary: ys rule: hexl.untext.induct)
  case (1 c d cs)
  then obtain c' d' cs' where "ys = c' # d' # cs'" "hex_value c = hex_value c'" "hex_value d = hex_value d'"
    "list_all2 (\<lambda>c d. hex_value c = hex_value d) cs cs'"
    by (auto simp: list_all2_Cons1)
  then show ?case using "1.IH" [of cs'] hex_read_cong [of c c' d d'] by simp
qed (auto simp: list_all2_Cons1)

lemma hex_value_cased: "c \<in> set hex_chars \<Longrightarrow> hex_value (cased m i c) = hex_value c"
proof -
  assume "c \<in> set hex_chars"
  then obtain k where "k < length hex_chars" "c = hex_chars ! k" by (auto simp: in_set_conv_nth)
  then have "k < 16" "c = hex_chars ! k" by (simp_all add: hex_chars_def)
  then show ?thesis using hex_value_chars [of k] by (simp add: cased_def)
qed

definition checksummed :: "(bytes \<Rightarrow> bytes) \<Rightarrow> bytes \<Rightarrow> string" where
  "checksummed shake address =
     (let body = hex_loop address
      in CHR ''Q'' # map (\<lambda>(i, c). cased (shake (map of_char body)) i c) (enumerate 0 body))"

lemma format_checksummed_address_ok:
  assumes x: "xof_ok e st shake" and a: "length address = ADDRESS_SIZE" and cap: "130 \<le> cap"
  shows "format_checksummed_address e address (Some cap) = Some (True, checksummed shake address)"
proof -
  let ?body = "hex_loop address"
  let ?m = "shake (map of_char ?body)"
  have lm: "length ?m = 64" using x by (simp add: xof_ok_def size_consts)
  have cb: "case_body ?m 0 ?body = Some (map (\<lambda>(j, c). cased ?m j c) (enumerate 0 ?body))"
    by (rule case_body_result) (use a lm hex_loop_set in \<open>auto simp: size_consts\<close>)
  have r: "read_block address 0 ADDRESS_SIZE = Some address" using a by (simp add: mem_simps)
  have c: "\<not> cap < 1 + 2 * ADDRESS_SIZE + 1" using cap by (simp add: size_consts)
  have h: "cx_sha3_xof_init e 256 ADDRESS_SIZE = (CX_OK, st [])"
    "cx_sha3_update e (st []) y = (CX_OK, st y)"
    "cx_sha3_final e (st y) (replicate ADDRESS_SIZE 0) = (CX_OK, shake y)" for y
    using x by (simp_all add: xof_ok_def)
  show ?thesis using c
    by (simp add: format_checksummed_address_def r hex_body_pairs h cb checksummed_def Let_def)
qed

lemma untext_checksummed: "hexl.untext (tl (checksummed shake address)) = address"
proof -
  let ?body = "hex_loop address"
  have "list_all2 (\<lambda>c d. hex_value c = hex_value d)
      (map (\<lambda>(i, c). cased (shake (map of_char ?body)) i c) (enumerate 0 ?body)) ?body"
    by (auto simp: list_all2_conv_all_nth nth_enumerate_eq intro!: hex_value_cased hex_loop_set [of _ address])
  from untext_cong [OF this] show ?thesis
    by (simp add: checksummed_def Let_def hex_loop_pairs hexl.untext_text)
qed

lemma length_checksummed: "length (checksummed shake address) = 1 + 2 * length address"
  by (simp add: checksummed_def Let_def)

text \<open>
  C32. The checksummed text fits its buffer of 130 characters, starts with Q, and determines the
  address: reading the hexadecimal pairs back, in either case, gives its 64 bytes. A letter is
  upper case exactly when the matching nibble of SHAKE-256 over the lower-case body is 8 or more.
\<close>

theorem format_checksummed_address_roundtrip:
  assumes "xof_ok e st shake" "length address = ADDRESS_SIZE" "130 \<le> cap"
  shows "\<exists>s. format_checksummed_address e address (Some cap) = Some (True, s) \<and>
    length s + 1 = 130 \<and> hd s = CHR ''Q'' \<and> hexl.untext (tl s) = address \<and>
    (\<forall>i < 128. s ! Suc i = cased (shake (map of_char (hex_loop address))) i (hex_loop address ! i))"
proof -
  have "checksummed shake address ! Suc i =
      cased (shake (map of_char (hex_loop address))) i (hex_loop address ! i)" if "i < 128" for i
    using that assms(2) by (simp add: checksummed_def Let_def nth_enumerate_eq size_consts)
  moreover have "hd (checksummed shake address) = CHR ''Q''" by (simp add: checksummed_def Let_def)
  ultimately show ?thesis
    using format_checksummed_address_ok [OF assms] assms(2)
    by (simp add: untext_checksummed length_checksummed size_consts)
qed

definition sample_pk :: bytes where "sample_pk = replicate MLDSA87_PUBLICKEYBYTES 3"

theorem address_from_bip32_path_correct_witness:
  "address_from_bip32_path sample_env [0x8000002C, 0x800000EE, 0x80000000, 0, 0] 5 (replicate 64 0) zero_nvm =
     (CX_OK, sample_shake ([1, 0, 0] @ sample_pk), zero_nvm\<lparr>nv_pk := sample_pk\<rparr>)"
  using address_from_bip32_path_correct [OF sample_xof, of "replicate 64 0"
      "[0x8000002C, 0x800000EE, 0x80000000, 0, 0]" 5 zero_nvm]
  by (simp add: sample_env_def sample_pk_def ADDRESS_SIZE_def)

theorem format_checksummed_address_roundtrip_witness:
  "\<exists>s. format_checksummed_address sample_env (replicate 64 0xab) (Some 130) = Some (True, s) \<and>
     hexl.untext (tl s) = replicate 64 0xab"
  using format_checksummed_address_roundtrip [OF sample_xof, of "replicate 64 0xab" 130]
  by (auto simp: ADDRESS_SIZE_def)

end
