(* ===== verification/Amount.thy ===== *)
theory Amount
  imports Format
begin

text \<open>
  What the amount shown on the screen means: the text of \<open>convert_amount_to_eth\<close> as a decimal
  fraction with eighteen places, compared with the number of the smallest units it was made from.
\<close>


section \<open>Fixed-width digits\<close>

fun fixed_digits :: "nat \<Rightarrow> nat \<Rightarrow> string" where
  "fixed_digits 0 n = []"
| "fixed_digits (Suc k) n = fixed_digits k (n div 10) @ [digit_char (n mod 10)]"

lemma length_fixed_digits [simp]: "length (fixed_digits k n) = k"
  by (induction k arbitrary: n) simp_all

lemma undecimal_fixed [simp]: "undecimal (fixed_digits k n) = n mod 10 ^ k"
proof (induction k arbitrary: n)
  case 0
  then show ?case by simp
next
  case (Suc k)
  have "n div 10 mod 10 ^ k * 10 + n mod 10 = n mod 10 ^ Suc k"
    by (simp add: mod_mult2_eq)
  then show ?case by (simp add: Suc.IH)
qed

lemma take_fixed: "j \<le> k \<Longrightarrow> take j (fixed_digits k n) = fixed_digits j (n div 10 ^ (k - j))"
proof (induction k arbitrary: n)
  case 0
  then show ?case by simp
next
  case (Suc k)
  show ?case
  proof (cases "j = Suc k")
    case True
    then show ?thesis by simp
  next
    case False
    then have "j \<le> k" using Suc.prems by simp
    then show ?thesis by (simp add: Suc.IH Suc_diff_le div_mult2_eq)
  qed
qed

lemma fixed_digits_set: "c \<in> set (fixed_digits k n) \<Longrightarrow> c \<noteq> CHR ''.''"
proof (induction k arbitrary: n)
  case 0
  then show ?case by simp
next
  case (Suc k)
  have "digit_char (n mod 10) \<noteq> CHR ''.''" by (rule digit_char_not_dot) simp
  then show ?case using Suc by auto
qed

lemma decimal_set: "c \<in> set (decimal n) \<Longrightarrow> c \<noteq> CHR ''.''"
proof (induction n rule: decimal.induct)
  case (1 n)
  show ?case
  proof (cases "n < 10")
    case True
    then show ?thesis using 1(2) by (auto simp: decimal.simps [of n] digit_char_not_dot)
  next
    case False
    then have "c \<in> set (decimal (n div 10)) \<or> c = digit_char (n mod 10)"
      using 1(2) by (auto simp: decimal.simps [of n])
    then show ?thesis using 1(1) [OF False] digit_char_not_dot [of "n mod 10"] by auto
  qed
qed

lemma decimal_split: "10 ^ k \<le> n \<Longrightarrow> decimal n = decimal (n div 10 ^ k) @ fixed_digits k n"
proof (induction k arbitrary: n)
  case 0
  then show ?case by simp
next
  case (Suc k)
  have "10 ^ k \<le> n div 10" using Suc.prems by (simp add: less_eq_div_iff_mult_less_eq mult.commute)
  from Suc.IH [OF this] have
    "decimal (n div 10) = decimal (n div 10 ^ Suc k) @ fixed_digits k (n div 10)"
    by (simp add: div_mult2_eq)
  moreover have "(10 :: nat) ^ 1 \<le> 10 ^ Suc k" by (intro power_increasing) auto
  then have "(10 :: nat) ^ 1 \<le> n" using Suc.prems by (rule le_trans)
  then have "\<not> n < 10" by simp
  ultimately show ?case by (simp add: decimal.simps [of n])
qed

lemma digit_char_0: "digit_char 0 = CHR ''0''"
  by (simp only: digit_char_def add_0_right char_of_char)

lemma fixed_zero: "fixed_digits k 0 = replicate k (CHR ''0'')"
  by (induction k) (simp_all add: digit_char_0 replicate_append_same)

lemma fixed_pad:
  "n < 10 ^ k \<Longrightarrow> 0 < k \<Longrightarrow> fixed_digits k n = replicate (k - length (decimal n)) (CHR ''0'') @ decimal n"
proof (induction k arbitrary: n)
  case 0
  then show ?case by simp
next
  case (Suc k)
  show ?case
  proof (cases "n < 10")
    case True
    then show ?thesis by (simp add: decimal.simps [of n] fixed_zero)
  next
    case False
    have "n div 10 < 10 ^ k" using Suc.prems by (simp add: div_less_iff_less_mult mult.commute)
    moreover have "0 < k" using False Suc.prems by (cases k) auto
    ultimately show ?thesis using Suc.IH [of "n div 10"] False
      by (simp add: decimal.simps [of n])
  qed
qed


section \<open>The text of an amount\<close>

definition strip_zeros :: "string \<Rightarrow> string" where
  "strip_zeros f = rev (dropWhile (\<lambda>c. c = CHR ''0'') (rev f))"

definition point_text :: "string \<Rightarrow> string \<Rightarrow> string" where
  "point_text i f = (if f = [] then i else i @ CHR ''.'' # f)"

definition amount_text :: "nat \<Rightarrow> nat \<Rightarrow> string" where
  "amount_text k n = point_text (decimal (n div 10 ^ k)) (strip_zeros (fixed_digits k n))"

lemma trim_zeros_point: "trim_zeros (xs @ CHR ''.'' # ys) = dropWhile (\<lambda>c. c = CHR ''0'') xs @ CHR ''.'' # ys"
proof (induction xs)
  case Nil
  then show ?case by (cases ys) auto
next
  case (Cons x xs)
  then show ?case by (cases xs) auto
qed

lemma trim_end_point:
  assumes "\<forall>c \<in> set f. c \<noteq> CHR ''.''"
  shows "trim_end (i @ CHR ''.'' # f) = point_text i (strip_zeros f)"
proof -
  let ?d = "dropWhile (\<lambda>c. c = CHR ''0'') (rev f)"
  have t: "trim_zeros (rev (i @ CHR ''.'' # f)) = ?d @ CHR ''.'' # rev i"
    using trim_zeros_point [of "rev f" "rev i"] by simp
  show ?thesis
  proof (cases ?d)
    case Nil
    then show ?thesis using t unfolding trim_end_def point_text_def strip_zeros_def t Nil by simp
  next
    case (Cons c cs)
    then have "c \<in> set (rev f)" by (metis list.set_intros(1) set_dropWhileD)
    then have "c \<noteq> CHR ''.''" using assms by simp
    then show ?thesis using t Cons by (simp add: trim_end_def point_text_def strip_zeros_def)
  qed
qed

lemma append_bounded_fits:
  "length buffer + length cs < MAX_RESULT_LEN \<Longrightarrow> append_bounded buffer cs = buffer @ cs"
  by (induction buffer cs rule: append_bounded.induct) auto

lemma format_with_decimals_18:
  assumes "n < 10 ^ 40"
  shows "format_with_decimals (decimal n) 18 out_len = snprintf_s out_len (amount_text 18 n)"
proof -
  let ?raw = "decimal n"
  have len: "length ?raw \<le> 40" using length_decimal_le [of 40 n] assms by simp
  have small: "length ?raw \<le> 18 \<longleftrightarrow> n < 10 ^ 18" by (rule length_decimal_le) simp
  show ?thesis
  proof (cases "length ?raw \<le> 18")
    case True
    then have n: "n < 10 ^ 18" using small by simp
    have "append_bounded (append_bounded ''0.'' (replicate (18 - length ?raw) (CHR ''0''))) ?raw =
        ''0'' @ CHR ''.'' # fixed_digits 18 n"
      using True fixed_pad [OF n] by (simp add: append_bounded_fits MAX_RESULT_LEN_def)
    moreover have "decimal (n div 10 ^ 18) = ''0''" using n by (simp add: decimal.simps digit_char_0)
    ultimately show ?thesis using True trim_end_point [of "fixed_digits 18 n" "''0''"] fixed_digits_set
      by (auto simp: format_with_decimals_def Let_def amount_text_def)
  next
    case False
    then have "10 ^ 18 \<le> n" using small by simp
    then have s: "?raw = decimal (n div 10 ^ 18) @ fixed_digits 18 n" by (rule decimal_split)
    let ?i = "decimal (n div 10 ^ 18)"
    have l: "length ?raw - 18 = length ?i" "length ?i \<le> 22" using arg_cong [OF s, of length] len by simp_all
    have t: "take (length ?raw - 18) ?raw = ?i" "drop (length ?raw - 18) ?raw = fixed_digits 18 n"
      unfolding l(1) by (subst s, simp)+
    have "append_bounded (append_bounded [] ?i @ ''.'') (fixed_digits 18 n) = ?i @ CHR ''.'' # fixed_digits 18 n"
      using l(2) by (simp add: append_bounded_fits MAX_RESULT_LEN_def)
    moreover have "length (append_bounded [] ?i) < MAX_RESULT_LEN - 1"
      using l(2) by (simp add: append_bounded_fits MAX_RESULT_LEN_def)
    ultimately show ?thesis using False trim_end_point [of "fixed_digits 18 n" ?i] fixed_digits_set
      by (auto simp: format_with_decimals_def Let_def amount_text_def t)
  qed
qed

lemma convert_amount_to_eth_result:
  assumes "len \<le> length amount" "len \<le> 32"
  shows "convert_amount_to_eth amount len out_len =
    (if be_nat (take len amount) < 10 ^ 40
     then Some (snprintf_s out_len (amount_text 18 (be_nat (take len amount)))) else None)"
proof (cases "be_nat (take len amount) < 10 ^ 40")
  case True
  then have "length (decimal (be_nat (take len amount))) < 50"
    using length_decimal_le [of 40 "be_nat (take len amount)"] by simp
  then show ?thesis using True uint8_array_to_decimal_result [OF assms, of 50]
    by (simp add: convert_amount_to_eth_def format_with_decimals_18 MAX_RESULT_LEN_def)
next
  case False
  then show ?thesis using uint8_array_to_decimal_result [OF assms, of 50]
    by (simp add: convert_amount_to_eth_def MAX_RESULT_LEN_def)
qed


section \<open>The value of the text\<close>

text \<open>A decimal fraction read as a number of units of \<open>10 ^ (- k)\<close>.\<close>

definition fixed_value :: "nat \<Rightarrow> string \<Rightarrow> nat" where
  "fixed_value k s =
     (let i = takeWhile (\<lambda>c. c \<noteq> CHR ''.'') s; f = drop 1 (dropWhile (\<lambda>c. c \<noteq> CHR ''.'') s)
      in undecimal i * 10 ^ k + undecimal (f @ replicate (k - length f) (CHR ''0'')))"

lemma digit_value_0: "digit_value (CHR ''0'') = 0"
  by (simp add: digit_value_def)

lemma undecimal_zeros: "undecimal (xs @ replicate m (CHR ''0'')) = undecimal xs * 10 ^ m"
proof (induction m)
  case 0
  then show ?case by simp
next
  case (Suc m)
  have "xs @ replicate (Suc m) (CHR ''0'') = (xs @ replicate m (CHR ''0'')) @ [CHR ''0'']"
    by (simp add: replicate_append_same)
  then show ?case using Suc.IH undecimal_snoc [of "xs @ replicate m (CHR ''0'')" "CHR ''0''"]
    by (simp add: digit_value_0)
qed

lemma strip_zeros_split: "\<exists>z. f = strip_zeros f @ replicate z (CHR ''0'')"
proof -
  let ?p = "\<lambda>c. c = CHR ''0''"
  have "takeWhile ?p (rev f) = replicate (length (takeWhile ?p (rev f))) (CHR ''0'')"
    by (rule replicate_eqI) (auto dest: set_takeWhileD)
  then have "rev f = replicate (length (takeWhile ?p (rev f))) (CHR ''0'') @ dropWhile ?p (rev f)"
    by (metis takeWhile_dropWhile_id)
  then have "f = rev (dropWhile ?p (rev f)) @ replicate (length (takeWhile ?p (rev f))) (CHR ''0'')"
    by (metis rev_append rev_replicate rev_rev_ident)
  then show ?thesis unfolding strip_zeros_def by blast
qed

lemma take_strip_padded:
  "j \<le> length f \<Longrightarrow>
   take j (strip_zeros f) @ replicate (length f - length (take j (strip_zeros f))) (CHR ''0'') =
   take j f @ replicate (length f - j) (CHR ''0'')"
proof -
  assume j: "j \<le> length f"
  obtain z where f: "f = strip_zeros f @ replicate z (CHR ''0'')" using strip_zeros_split by blast
  have l: "length f = length (strip_zeros f) + z" using arg_cong [OF f, of length] by simp
  show ?thesis
  proof (cases "j \<le> length (strip_zeros f)")
    case True
    then have "take j f = take j (strip_zeros f)" by (subst f) simp
    then show ?thesis using True by simp
  next
    case False
    have "take j f = strip_zeros f @ replicate (j - length (strip_zeros f)) (CHR ''0'')"
      using False j l by (subst f) simp
    then show ?thesis using False j l by (simp add: replicate_add [symmetric])
  qed
qed

lemma strip_zeros_set: "c \<in> set (strip_zeros f) \<Longrightarrow> c \<in> set f"
  by (auto simp: strip_zeros_def dest: set_dropWhileD)

lemma fixed_value_point:
  assumes "\<forall>c \<in> set i. c \<noteq> CHR ''.''" "length i < m"
  shows "fixed_value k (take m (point_text i f)) =
    undecimal i * 10 ^ k +
    undecimal (take (m - length i - 1) f @ replicate (k - length (take (m - length i - 1) f)) (CHR ''0''))"
proof (cases "f = []")
  case True
  have p: "take m (point_text i f) = i" using True assms by (simp add: point_text_def)
  have tw: "takeWhile (\<lambda>c. c \<noteq> CHR ''.'') i = i" "dropWhile (\<lambda>c. c \<noteq> CHR ''.'') i = []"
    using assms(1) takeWhile_eq_all_conv [of "\<lambda>c. c \<noteq> CHR ''.''" i] by auto
  show ?thesis unfolding fixed_value_def p Let_def tw using True by simp
next
  case False
  have "take m (point_text i f) = i @ CHR ''.'' # take (m - length i - 1) f"
    using False assms(2) by (simp add: point_text_def take_Cons')
  moreover have "takeWhile (\<lambda>c. c \<noteq> CHR ''.'') (i @ CHR ''.'' # g) = i"
    "dropWhile (\<lambda>c. c \<noteq> CHR ''.'') (i @ CHR ''.'' # g) = CHR ''.'' # g" for g
    using assms(1) by (simp_all add: takeWhile_append2 dropWhile_append2)
  ultimately show ?thesis by (simp add: fixed_value_def)
qed

lemma div_mod_scaled: "a div q * (p * q) + a mod q * p = a * (p :: nat)"
proof -
  have "a div q * (p * q) + a mod q * p = (a div q * q + a mod q) * p"
    unfolding distrib_right by (simp only: ac_simps)
  then show ?thesis by simp
qed

text \<open>
  With at most \<open>j\<close> places kept after the point, the text is the amount rounded down to a multiple
  of \<open>10 ^ (18 - j)\<close>.
\<close>

lemma fixed_value_amount:
  assumes "length (decimal (n div 10 ^ 18)) < m"
  defines "j \<equiv> min 18 (m - length (decimal (n div 10 ^ 18)) - 1)"
  shows "fixed_value 18 (take m (amount_text 18 n)) = n div 10 ^ (18 - j) * 10 ^ (18 - j)"
proof -
  let ?i = "decimal (n div 10 ^ 18)"
  let ?f = "fixed_digits 18 n"
  let ?p = "m - length ?i - 1"
  have ls: "length (strip_zeros ?f) \<le> 18"
    using strip_zeros_split [of ?f] by (metis length_append length_fixed_digits le_add1)
  have t: "take ?p (strip_zeros ?f) = take j (strip_zeros ?f)"
    using ls by (simp add: j_def min_def)
  have j: "j \<le> 18" by (simp add: j_def)
  have "fixed_value 18 (take m (amount_text 18 n)) =
      undecimal ?i * 10 ^ 18
      + undecimal (take j (strip_zeros ?f) @ replicate (18 - length (take j (strip_zeros ?f))) (CHR ''0''))"
    unfolding amount_text_def t [symmetric]
    by (rule fixed_value_point) (use decimal_set assms(1) in auto)
  also have "\<dots> = n div 10 ^ 18 * 10 ^ 18 + undecimal (take j ?f @ replicate (18 - j) (CHR ''0''))"
    using take_strip_padded [of j ?f] j by simp
  also have "\<dots> = n div 10 ^ 18 * 10 ^ 18 + n div 10 ^ (18 - j) mod 10 ^ j * 10 ^ (18 - j)"
    using j by (simp add: undecimal_zeros take_fixed)
  also have "\<dots> = n div 10 ^ (18 - j) * 10 ^ (18 - j)"
  proof -
    have e: "(10 :: nat) ^ 18 = 10 ^ (18 - j) * 10 ^ j" using j by (simp add: power_add [symmetric])
    have "n div 10 ^ 18 = n div 10 ^ (18 - j) div 10 ^ j" unfolding e by (rule div_mult2_eq)
    then show ?thesis unfolding e by (simp only: div_mod_scaled)
  qed
  finally show ?thesis .
qed

text \<open>
  C35. The amount and fee texts (thirty-character buffers). For every value below \<open>10 ^ 40\<close> the
  conversion stays in its buffers; read as a decimal fraction with eighteen places the text never
  exceeds the value and misses it by less than \<open>10 ^ 12\<close> smallest units; and below
  \<open>10 ^ 28\<close> units (ten thousand million coins) it is exact.
\<close>

theorem convert_amount_to_eth_value:
  assumes len: "len \<le> length amount" "len \<le> 32" and n: "n = be_nat (take len amount)" "n < 10 ^ 40"
  shows "\<exists>s. convert_amount_to_eth amount len 30 = Some s \<and> length s < 30 \<and>
    fixed_value 18 s \<le> n \<and> n < fixed_value 18 s + 10 ^ 12 \<and> (n < 10 ^ 28 \<longrightarrow> fixed_value 18 s = n)"
proof -
  let ?i = "decimal (n div 10 ^ 18)"
  let ?j = "min 18 (29 - length ?i - 1)"
  let ?s = "take 29 (amount_text 18 n)"
  have r: "convert_amount_to_eth amount len 30 = Some ?s"
    using convert_amount_to_eth_result [OF len, of 30] n by (simp add: snprintf_s_def)
  have "n div 10 ^ 18 < 10 ^ 22" using n(2) by (simp add: div_less_iff_less_mult)
  then have i: "length ?i \<le> 22" using length_decimal_le [of 22 "n div 10 ^ 18"] by simp
  have v: "fixed_value 18 ?s = n div 10 ^ (18 - ?j) * 10 ^ (18 - ?j)"
    by (rule fixed_value_amount) (use i in simp)
  have "n mod 10 ^ (18 - ?j) < 10 ^ (18 - ?j)" by simp
  also have "(10 :: nat) ^ (18 - ?j) \<le> 10 ^ 12" using i by (intro power_increasing) auto
  finally have up: "n < fixed_value 18 ?s + 10 ^ 12"
    unfolding v using div_mult_mod_eq [of n "10 ^ (18 - ?j)"] by linarith
  have lo: "fixed_value 18 ?s \<le> n" unfolding v by simp
  have "fixed_value 18 ?s = n" if "n < 10 ^ 28"
  proof -
    have "n div 10 ^ 18 < 10 ^ 10" using that by (simp add: div_less_iff_less_mult)
    then have "length ?i \<le> 10" using length_decimal_le [of 10 "n div 10 ^ 18"] by simp
    then have "?j = 18" by simp
    then show ?thesis using v by simp
  qed
  moreover have "length ?s < 30" by simp
  ultimately show ?thesis using r up lo by blast
qed

theorem convert_amount_to_eth_value_witness:
  "\<exists>s. convert_amount_to_eth [0x0d, 0xe0, 0xb6, 0xb3, 0xa7, 0x64, 0x00, 0x00] 8 30 = Some s \<and>
     fixed_value 18 s = 10 ^ 18"
  using convert_amount_to_eth_value [of 8 "[0x0d, 0xe0, 0xb6, 0xb3, 0xa7, 0x64, 0x00, 0x00]" "10 ^ 18"]
  by (auto simp: be_simps)

end
