(* ===== verification/Menu.thy ===== *)
theory Menu
  imports Sample
begin

text \<open>
  \<open>src/ui/menu_nbgl.c\<close> and \<open>src/ui/common_ui.c\<close>: the home page with its four settings
  switches, the callback that toggles a setting, and the page that refuses a transaction when
  blind signing is off.
\<close>


section \<open>Name and version\<close>

text \<open>The values of \<open>src/Makefile\<close>; the year of the copyright line is that of the build.\<close>

definition APPNAME :: string where "APPNAME = ''QRL v2.0''"
definition MAJOR_VERSION :: byte where "MAJOR_VERSION = 2"
definition MINOR_VERSION :: byte where "MINOR_VERSION = 2"
definition PATCH_VERSION :: byte where "PATCH_VERSION = 2"
definition APPVERSION :: string where "APPVERSION = ''2.2.2''"

text \<open>The information list of the home page.\<close>

definition INFO_TYPES :: "string list" where "INFO_TYPES = [''Version'', ''Developer'', ''Copyright'']"

definition INFO_CONTENTS :: "env \<Rightarrow> string list" where
  "INFO_CONTENTS e = [APPVERSION, ''Ledger'', ''Ledger (c) '' @ copyright_year e]"

definition infoList :: "env \<Rightarrow> (string \<times> string) list" where
  "infoList e = zip INFO_TYPES (INFO_CONTENTS e)"


section \<open>The settings page\<close>

definition BLIND_SIGNING_SWITCH_ID :: nat where "BLIND_SIGNING_SWITCH_ID = 0"
definition NONCE_SWITCH_ID :: nat where "NONCE_SWITCH_ID = 1"
definition TX_HASH_SWITCH_ID :: nat where "TX_HASH_SWITCH_ID = 2"
definition DEBUG_SMART_CONTRACT_SWITCH_ID :: nat where "DEBUG_SMART_CONTRACT_SWITCH_ID = 3"

lemmas switch_ids =
  BLIND_SIGNING_SWITCH_ID_def NONCE_SWITCH_ID_def TX_HASH_SWITCH_ID_def DEBUG_SMART_CONTRACT_SWITCH_ID_def

text \<open>The tokens are consecutive from the SDK's first user token, in the order of the switches.\<close>

definition switch_token :: "env \<Rightarrow> nat \<Rightarrow> int" where
  "switch_token e i = first_user_token e + int i"

definition init_switches :: "env \<Rightarrow> internal_storage_t \<Rightarrow> nbgl_switch list" where
  "init_switches e n =
     [\<lparr>sw_text = ''Blind signing'', sw_subtext = ''Enable transaction blind signing'',
       sw_token = switch_token e BLIND_SIGNING_SWITCH_ID, sw_init = enable_blind_signing n\<rparr>,
      \<lparr>sw_text = ''Nonce'', sw_subtext = ''Display nonce in transactions'',
       sw_token = switch_token e NONCE_SWITCH_ID, sw_init = display_nonce n\<rparr>,
      \<lparr>sw_text = ''Transaction hash'', sw_subtext = ''Always display the transaction hash'',
       sw_token = switch_token e TX_HASH_SWITCH_ID, sw_init = display_tx_hash n\<rparr>,
      \<lparr>sw_text = (if screen_size_wallet e then ''Debug smart contracts'' else ''Debug contracts''),
       sw_subtext = ''Display contract data details'',
       sw_token = switch_token e DEBUG_SMART_CONTRACT_SWITCH_ID, sw_init = enable_debug_smart_contract n\<rparr>]"

definition ui_menu_main :: "env \<Rightarrow> device \<Rightarrow> device" where
  "ui_menu_main e d =
     show_screen (Home_And_Settings APPNAME INIT_HOME_PAGE (infoList e)) (d\<lparr>switches := init_switches e (nvm d)\<rparr>)"

definition ui_settings :: "env \<Rightarrow> device \<Rightarrow> device" where
  "ui_settings e d =
     show_screen (Home_And_Settings APPNAME (Setting_Page 0) (infoList e)) (d\<lparr>switches := init_switches e (nvm d)\<rparr>)"

definition app_quit :: "device \<Rightarrow> device" where
  "app_quit d = d\<lparr>exited := True\<rparr>"

text \<open>\<open>switches[id].initState = v\<close>.\<close>

definition set_switch :: "nat \<Rightarrow> byte \<Rightarrow> nbgl_switch list \<Rightarrow> nbgl_switch list" where
  "set_switch i v sw = sw[i := (sw ! i)\<lparr>sw_init := v\<rparr>]"

definition c_not :: "byte \<Rightarrow> byte" where "c_not b = (if b = 0 then 1 else 0)"

definition controls_callback :: "env \<Rightarrow> int \<Rightarrow> byte \<Rightarrow> int \<Rightarrow> device \<Rightarrow> device" where
  "controls_callback e token index page d =
     (let d0 = d\<lparr>initSettingPage := word_of_int page\<rparr>; n = nvm d0 in
      if token = switch_token e BLIND_SIGNING_SWITCH_ID then
        (let v = c_not (enable_blind_signing n) in
         d0\<lparr>switches := set_switch BLIND_SIGNING_SWITCH_ID v (switches d0),
            nvm := n\<lparr>enable_blind_signing := v\<rparr>\<rparr>)
      else if token = switch_token e NONCE_SWITCH_ID then
        (let v = c_not (display_nonce n) in
         d0\<lparr>switches := set_switch NONCE_SWITCH_ID v (switches d0), nvm := n\<lparr>display_nonce := v\<rparr>\<rparr>)
      else if token = switch_token e TX_HASH_SWITCH_ID then
        (let v = c_not (display_tx_hash n) in
         d0\<lparr>switches := set_switch TX_HASH_SWITCH_ID v (switches d0), nvm := n\<lparr>display_tx_hash := v\<rparr>\<rparr>)
      else if token = switch_token e DEBUG_SMART_CONTRACT_SWITCH_ID then
        (let v = c_not (enable_debug_smart_contract n) in
         d0\<lparr>switches := set_switch DEBUG_SMART_CONTRACT_SWITCH_ID v (switches d0),
            nvm := n\<lparr>enable_debug_smart_contract := v\<rparr>\<rparr>)
      else d0)"


section \<open>Blind signing refused\<close>

definition ui_error_blind_signing_choice :: "env \<Rightarrow> bool \<Rightarrow> device \<Rightarrow> device" where
  "ui_error_blind_signing_choice e confirm d = (if confirm then ui_settings e d else ui_menu_main e d)"

definition ui_error_blind_signing :: "env \<Rightarrow> device \<Rightarrow> device" where
  "ui_error_blind_signing e d =
     (if screen_size_wallet e
      then show_screen (Choice_Page ''This transaction cannot be clear-signed''
             ''Enable blind signing in the settings to sign this transaction.''
             ''Go to settings'' ''Reject transaction'') d
      else show_screen (Action_Page (''Blind signing must'' @ [CHR 0x0A] @ ''be enabled in'' @ [CHR 0x0A] @ ''settings'')) d)"


section \<open>Settings and switches agree\<close>

definition settings_of :: "internal_storage_t \<Rightarrow> byte list" where
  "settings_of n = [enable_blind_signing n, display_nonce n, display_tx_hash n, enable_debug_smart_contract n]"

definition shown_settings :: "device \<Rightarrow> byte list" where
  "shown_settings d = map sw_init (switches d)"

lemma shown_settings_menu:
  "shown_settings (ui_menu_main e d) = settings_of (nvm d)" "nvm (ui_menu_main e d) = nvm d"
  "shown_settings (ui_settings e d) = settings_of (nvm d)" "nvm (ui_settings e d) = nvm d"
  by (simp_all add: shown_settings_def settings_of_def ui_menu_main_def ui_settings_def show_screen_def
      init_switches_def)

lemma map_set_switch: "i < length sw \<Longrightarrow> map sw_init (set_switch i v sw) = (map sw_init sw)[i := v]"
  by (simp add: set_switch_def map_update)

text \<open>
  A settings switch toggles exactly its own stored setting: with the page in step with the
  storage, the callback for the switch of index \<open>i\<close> negates the setting \<open>i\<close> in the storage and on
  the page, any other token changes no setting, and the stored signature and key, the request
  context and the responses are untouched.
\<close>

lemma controls_callback_toggles:
  fixes e :: env and token :: int and index :: byte and page :: int and d :: device
  assumes ok: "shown_settings d = settings_of (nvm d)"
  defines "d' \<equiv> controls_callback e token index page d"
  shows "shown_settings d' = settings_of (nvm d') \<and>
    (\<forall>i < 4. token = switch_token e i \<longrightarrow>
       settings_of (nvm d') = (settings_of (nvm d))[i := c_not (settings_of (nvm d) ! i)]) \<and>
    ((\<forall>i < 4. token \<noteq> switch_token e i) \<longrightarrow> settings_of (nvm d') = settings_of (nvm d)) \<and>
    nv_sig (nvm d') = nv_sig (nvm d) \<and> nv_pk (nvm d') = nv_pk (nvm d) \<and>
    ctx d' = ctx d \<and> sent d' = sent d"
proof -
  have l: "length (switches d) = 4"
    using arg_cong [OF ok, of length] by (simp add: shown_settings_def settings_of_def)
  have k: "i < 4 \<Longrightarrow> i = 0 \<or> i = 1 \<or> i = 2 \<or> i = (3 :: nat)" for i by arith
  have shown: "shown_settings d' = settings_of (nvm d')"
    using ok l
    by (auto simp: d'_def controls_callback_def shown_settings_def settings_of_def switch_ids
        map_set_switch Let_def)
  have toggle: "settings_of (nvm d') = (settings_of (nvm d))[i := c_not (settings_of (nvm d) ! i)]"
    if "i < 4" "token = switch_token e i" for i
    using k [OF that(1)] that(2)
    by (elim disjE) (simp_all add: d'_def controls_callback_def settings_of_def switch_ids switch_token_def Let_def)
  have other: "settings_of (nvm d') = settings_of (nvm d)" if "\<forall>i < 4. token \<noteq> switch_token e i"
    using that by (simp add: d'_def controls_callback_def settings_of_def switch_ids Let_def)
  have rest: "nv_sig (nvm d') = nv_sig (nvm d) \<and> nv_pk (nvm d') = nv_pk (nvm d) \<and> ctx d' = ctx d \<and> sent d' = sent d"
    by (simp add: d'_def controls_callback_def Let_def)
  show ?thesis using shown toggle other rest by blast
qed

end
