(* ===== verification/Tx_Review.thy ===== *)
theory Tx_Review
  imports Validate Address Amount Menu
begin

text \<open>
  \<open>src/ui/nbgl_display_transaction.c\<close> and \<open>src/ui/nbgl_display_address.c\<close>: the review of a
  decoded transaction (which texts are shown under which names, for each combination of the
  settings), the review of an address, and the callbacks of both. \<open>None\<close> is a write outside one of
  the static text buffers or of the local digit buffer.
\<close>


section \<open>The list of pairs\<close>

definition hash_item :: "env \<Rightarrow> string" where
  "hash_item e = (if screen_size_wallet e then ''Transaction hash'' else ''Tx hash'')"

text \<open>The texts of one review: sender, amount, recipient, nonce, fees and hash.\<close>

record review_texts =
  txt_from :: string
  txt_amount :: string
  txt_to :: string
  txt_nonce :: string
  txt_fees :: string
  txt_hash :: string

definition CONTRACT_STR :: string where "CONTRACT_STR = ''Contract''"

text \<open>The recipient in the branches with data: replaced when there is no recipient.\<close>

definition data_to :: "zond_tx_t \<Rightarrow> review_texts \<Rightarrow> string" where
  "data_to tx t = (if tx_to_len tx = 0 then snprintf_s 130 CONTRACT_STR else txt_to t)"

text \<open>The four branches of the settings, each with and without data.\<close>

definition nonce_and_hash_pairs :: "env \<Rightarrow> zond_tx_t \<Rightarrow> review_texts \<Rightarrow> (string \<times> string) list" where
  "nonce_and_hash_pairs e tx t =
     (if tx_data_len tx > 0 then
       [(''From'', txt_from t), (''To'', data_to tx t), (''Nonce'', txt_nonce t),
        (''Max fees'', txt_fees t), (hash_item e, txt_hash t)]
      else
       [(''From'', txt_from t), (''Amount'', txt_amount t), (''To'', txt_to t), (''Nonce'', txt_nonce t),
        (''Max fees'', txt_fees t), (hash_item e, txt_hash t)])"

definition nonce_pairs :: "env \<Rightarrow> zond_tx_t \<Rightarrow> review_texts \<Rightarrow> (string \<times> string) list" where
  "nonce_pairs e tx t =
     (if tx_data_len tx > 0 then
       [(''From'', txt_from t), (''To'', data_to tx t), (''Nonce'', txt_nonce t),
        (''Max fees'', txt_fees t), (hash_item e, txt_hash t)]
      else
       [(''From'', txt_from t), (''Amount'', txt_amount t), (''To'', txt_to t), (''Nonce'', txt_nonce t),
        (''Max fees'', txt_fees t)])"

definition hash_pairs :: "env \<Rightarrow> zond_tx_t \<Rightarrow> review_texts \<Rightarrow> (string \<times> string) list" where
  "hash_pairs e tx t =
     (if tx_data_len tx > 0 then
       [(''From'', txt_from t), (''To'', data_to tx t), (''Max fees'', txt_fees t), (hash_item e, txt_hash t)]
      else
       [(''From'', txt_from t), (''Amount'', txt_amount t), (''To'', txt_to t),
        (''Max fees'', txt_fees t), (hash_item e, txt_hash t)])"

definition plain_pairs :: "env \<Rightarrow> zond_tx_t \<Rightarrow> review_texts \<Rightarrow> (string \<times> string) list" where
  "plain_pairs e tx t =
     (if tx_data_len tx > 0 then
       [(''From'', txt_from t), (''To'', data_to tx t), (''Max fees'', txt_fees t), (hash_item e, txt_hash t)]
      else
       [(''From'', txt_from t), (''Amount'', txt_amount t), (''To'', txt_to t), (''Max fees'', txt_fees t)])"

definition review_pairs :: "env \<Rightarrow> internal_storage_t \<Rightarrow> zond_tx_t \<Rightarrow> review_texts \<Rightarrow> (string \<times> string) list" where
  "review_pairs e n tx t =
     (if display_nonce n \<noteq> 0 \<and> display_tx_hash n \<noteq> 0 then nonce_and_hash_pairs e tx t
      else if display_nonce n \<noteq> 0 then nonce_pairs e tx t
      else if display_tx_hash n \<noteq> 0 then hash_pairs e tx t
      else plain_pairs e tx t)"

lemmas pair_defs = nonce_and_hash_pairs_def nonce_pairs_def hash_pairs_def plain_pairs_def


section \<open>The transaction review\<close>

definition REVIEW_TITLE :: string where "REVIEW_TITLE = ''Review transaction'' @ [CHR 0x0A]"

text \<open>The finishing question of the blind and of the clear review; none on the small screens.\<close>

definition finish_title :: "env \<Rightarrow> bool \<Rightarrow> string option" where
  "finish_title e is_blind_signed =
     (if screen_size_wallet e
      then Some ((if is_blind_signed then ''Accept risk and sign transaction?'' else ''Sign transaction'') @ [CHR 0x0A])
      else None)"

text \<open>The list of pairs handed to the blind-signing or to the clear review, with its callback.\<close>

definition transaction_page :: "env \<Rightarrow> bool \<Rightarrow> (string \<times> string) list \<Rightarrow> screen" where
  "transaction_page e is_blind_signed pairs =
     Review is_blind_signed pairs REVIEW_TITLE (finish_title e is_blind_signed) Transaction_Choice"

text \<open>\<open>snprintf(out, 35, "%.*s QRL", strlen(s), s)\<close> and \<open>snprintf(out, 67, "0x%.*s", 65, s)\<close>.\<close>

definition with_unit :: "string \<Rightarrow> string" where "with_unit s = snprintf_s 35 (s @ '' QRL'')"

definition with_0x :: "string \<Rightarrow> string" where "with_0x s = snprintf_s 67 (''0x'' @ take 65 s)"

definition UI_BUFFER_SIZE :: nat where "UI_BUFFER_SIZE = 140"

definition ui_display_transaction_bs_choice :: "env \<Rightarrow> bool \<Rightarrow> device \<Rightarrow> (int \<times> device) option" where
  "ui_display_transaction_bs_choice e is_blind_signed d =
     (if req_type (ctx d) \<noteq> CONFIRM_TRANSACTION \<or> g_state (ctx d) \<noteq> STATE_PARSED then
        Some (io_send_sw e SW_BAD_STATE (set_state STATE_NONE d))
      else
        (let (error, addr, n) = address_from_bip32_path e (bip32_path (ctx d))
               (ucast (bip32_path_len (ctx d))) (g_address (ctx d)) (nvm d);
             d1 = d\<lparr>ctx := (ctx d)\<lparr>g_address := addr\<rparr>, nvm := n\<rparr>;
             tx = tx_data_of (tx_info (ctx d1))
         in
         if error \<noteq> CX_OK then Some (io_send_sw e SW_DISPLAY_ADDRESS_FAIL d1) else do {
           nonce \<leftarrow> uint8_array_to_decimal (tx_nonce tx) (unat (tx_nonce_len tx)) 10;
           tx_hash \<leftarrow> bytes_to_hex_string (m_hash (tx_info (ctx d1))) 32 65;
           (ok_from, from) \<leftarrow> format_checksummed_address e (g_address (ctx d1)) (Some UI_BUFFER_SIZE);
           if \<not> ok_from then Some (io_send_sw e SW_DISPLAY_ADDRESS_FAIL d1) else do {
             amount \<leftarrow> convert_amount_to_eth (tx_value tx) (unat (tx_value_len tx)) 30;
             (ok_to, to) \<leftarrow> format_checksummed_address e (tx_to tx) (Some (1 + ADDRESS_SIZE * 2 + 1));
             if \<not> ok_to then Some (io_send_sw e SW_DISPLAY_ADDRESS_FAIL d1) else do {
               max_fees \<leftarrow> convert_amount_to_eth (tx_gas_fee_cap tx) (unat (tx_gas_fee_cap_len tx)) 30;
               (let texts = \<lparr>txt_from = from, txt_amount = with_unit amount, txt_to = to,
                             txt_nonce = nonce, txt_fees = with_unit max_fees, txt_hash = with_0x tx_hash\<rparr> in
                Some (0, show_screen (transaction_page e is_blind_signed (review_pairs e (nvm d1) tx texts)) d1))
             }
           }
         }))"

definition ui_display_blind_signed_transaction :: "env \<Rightarrow> device \<Rightarrow> (int \<times> device) option" where
  "ui_display_blind_signed_transaction e d = ui_display_transaction_bs_choice e True d"

definition ui_display_transaction :: "env \<Rightarrow> device \<Rightarrow> (int \<times> device) option" where
  "ui_display_transaction e d = ui_display_transaction_bs_choice e False d"

text \<open>The callback of the transaction review.\<close>

definition review_choice :: "env \<Rightarrow> bytes \<Rightarrow> bool \<Rightarrow> device \<Rightarrow> device option" where
  "review_choice e rnd confirm d = do {
     (result, d1) \<leftarrow> validate_transaction e rnd confirm d;
     Some (show_screen (Review_Status (if confirm \<and> result then TRANSACTION_SIGNED else TRANSACTION_REJECTED)) d1)
   }"


section \<open>The address review\<close>

definition ui_display_address :: "env \<Rightarrow> device \<Rightarrow> (int \<times> device) option" where
  "ui_display_address e d =
     (if req_type (ctx d) \<noteq> CONFIRM_ADDRESS \<or> g_state (ctx d) \<noteq> STATE_NONE then
        Some (io_send_sw e SW_BAD_STATE (set_state STATE_NONE d))
      else do {
        (ok, text) \<leftarrow> format_checksummed_address e (g_address (ctx d)) (Some UI_BUFFER_SIZE);
        if \<not> ok then Some (io_send_sw e SW_DISPLAY_ADDRESS_FAIL d)
        else Some (0, show_screen (Address_Review text) d)
      })"

definition address_review_choice :: "env \<Rightarrow> bool \<Rightarrow> device \<Rightarrow> device option" where
  "address_review_choice e confirm d = do {
     d1 \<leftarrow> validate_pubkey e confirm d;
     Some (show_screen (Review_Status (if confirm then ADDRESS_VERIFIED else ADDRESS_REJECTED)) d1)
   }"


section \<open>The texts in terms of the transaction\<close>

text \<open>Decoded transactions: the field lengths fit their arrays (\<open>decode_ledger_tx\<close> ensures it).\<close>

definition tx_in_bounds :: "zond_tx_t \<Rightarrow> bool" where
  "tx_in_bounds tx \<longleftrightarrow> wf_tx tx \<and> unat (tx_nonce_len tx) \<le> 8 \<and> unat (tx_value_len tx) \<le> 32 \<and>
     unat (tx_gas_fee_cap_len tx) \<le> 32"

definition nonce_of :: "zond_tx_t \<Rightarrow> nat" where
  "nonce_of tx = be_nat (take (unat (tx_nonce_len tx)) (tx_nonce tx))"

definition value_of :: "zond_tx_t \<Rightarrow> nat" where
  "value_of tx = be_nat (take (unat (tx_value_len tx)) (tx_value tx))"

definition fee_cap_of :: "zond_tx_t \<Rightarrow> nat" where
  "fee_cap_of tx = be_nat (take (unat (tx_gas_fee_cap_len tx)) (tx_gas_fee_cap tx))"

definition amount_shown :: "nat \<Rightarrow> string" where
  "amount_shown n = with_unit (snprintf_s 30 (amount_text 18 n))"

definition texts_of :: "(bytes \<Rightarrow> bytes) \<Rightarrow> bytes \<Rightarrow> bytes \<Rightarrow> zond_tx_t \<Rightarrow> review_texts" where
  "texts_of shake from mh tx = \<lparr>txt_from = checksummed shake from, txt_amount = amount_shown (value_of tx),
     txt_to = checksummed shake (tx_to tx), txt_nonce = decimal (nonce_of tx),
     txt_fees = amount_shown (fee_cap_of tx), txt_hash = ''0x'' @ hex_loop mh\<rparr>"

definition displayable :: "zond_tx_t \<Rightarrow> bool" where
  "displayable tx \<longleftrightarrow> nonce_of tx < 10 ^ 9 \<and> value_of tx < 10 ^ 40 \<and> fee_cap_of tx < 10 ^ 40"

lemma review_pairs_settings:
  "display_nonce n = display_nonce n' \<Longrightarrow> display_tx_hash n = display_tx_hash n' \<Longrightarrow>
   review_pairs e n tx t = review_pairs e n' tx t"
  by (simp add: review_pairs_def)

definition reviewing :: "env \<Rightarrow> (bytes \<Rightarrow> bytes) \<Rightarrow> bool \<Rightarrow> bytes \<Rightarrow> device \<Rightarrow> device" where
  "reviewing e shake b pk d =
     (let addr = shake ([1, 0, 0] @ pk); t = tx_info (ctx d) in
      d\<lparr>ctx := (ctx d)\<lparr>g_address := addr\<rparr>, nvm := (nvm d)\<lparr>nv_pk := pk\<rparr>,
        on_screen := Review b (review_pairs e (nvm d) (tx_data_of t) (texts_of shake addr (m_hash t) (tx_data_of t)))
                       REVIEW_TITLE (finish_title e b) Transaction_Choice\<rparr>)"

lemma shown_numbers:
  assumes tx: "tx_in_bounds tx"
  shows "uint8_array_to_decimal (tx_nonce tx) (unat (tx_nonce_len tx)) 10 =
      (if nonce_of tx < 10 ^ 9 then Some (decimal (nonce_of tx)) else None)" (is ?nonce)
    "convert_amount_to_eth (tx_value tx) (unat (tx_value_len tx)) 30 =
      (if value_of tx < 10 ^ 40 then Some (snprintf_s 30 (amount_text 18 (value_of tx))) else None)" (is ?val)
    "convert_amount_to_eth (tx_gas_fee_cap tx) (unat (tx_gas_fee_cap_len tx)) 30 =
      (if fee_cap_of tx < 10 ^ 40 then Some (snprintf_s 30 (amount_text 18 (fee_cap_of tx))) else None)" (is ?fee)
proof -
  have "length (decimal (nonce_of tx)) < 10 \<longleftrightarrow> nonce_of tx < 10 ^ 9"
    using length_decimal_le [of 9 "nonce_of tx"] by auto
  then show ?nonce
    using tx uint8_array_to_decimal_result [of "unat (tx_nonce_len tx)" "tx_nonce tx" 10]
    by (auto simp: tx_in_bounds_def wf_tx_def nonce_of_def)
  show ?val
    using tx convert_amount_to_eth_result [of "unat (tx_value_len tx)" "tx_value tx" 30]
    by (simp add: tx_in_bounds_def wf_tx_def value_of_def size_consts)
  show ?fee
    using tx convert_amount_to_eth_result [of "unat (tx_gas_fee_cap_len tx)" "tx_gas_fee_cap tx" 30]
    by (simp add: tx_in_bounds_def wf_tx_def fee_cap_of_def size_consts)
qed

text \<open>The texts that do not depend on the amounts.\<close>

lemma fixed_texts:
  assumes x: "xof_ok e st shake" and "length addr = ADDRESS_SIZE" "length to = ADDRESS_SIZE" "length h = 32"
  shows "bytes_to_hex_string h 32 65 = Some (hex_loop h)" "with_0x (hex_loop h) = ''0x'' @ hex_loop h"
    "format_checksummed_address e addr (Some UI_BUFFER_SIZE) = Some (True, checksummed shake addr)"
    "format_checksummed_address e to (Some 130) = Some (True, checksummed shake to)"
    "Suc (Suc (ADDRESS_SIZE * 2)) = 130"
  using assms(4) bytes_to_hex_string_Some [of 32 h 65] format_checksummed_address_ok [OF x assms(2), of UI_BUFFER_SIZE]
    format_checksummed_address_ok [OF x assms(3), of 130]
  by (simp_all add: with_0x_def snprintf_s_def size_consts UI_BUFFER_SIZE_def)

lemma ui_display_transaction_result:
  assumes x: "xof_ok e st shake" and wf: "wf_device e d"
    and st: "req_type (ctx d) = CONFIRM_TRANSACTION" "g_state (ctx d) = STATE_PARSED"
    and tx: "tx_in_bounds (tx_data_of (tx_info (ctx d)))"
  shows "ui_display_transaction_bs_choice e b d =
    (case key_of e (bip32_path (ctx d)) (ucast (bip32_path_len (ctx d))) of
       None \<Rightarrow> Some (io_send_sw e SW_DISPLAY_ADDRESS_FAIL d)
     | Some pk \<Rightarrow> if displayable (tx_data_of (tx_info (ctx d))) then Some (0, reviewing e shake b pk d) else None)"
proof -
  let ?t = "tx_info (ctx d)"
  let ?tx = "tx_data_of ?t"
  have la: "length (g_address (ctx d)) = ADDRESS_SIZE"
    using wf by (simp add: wf_device_def wf_ctx_def)
  show ?thesis
  proof (cases "key_of e (bip32_path (ctx d)) (ucast (bip32_path_len (ctx d)))")
    case None
    from address_of_key(2) [OF x la None, of "nvm d"] obtain err where
      a: "address_from_bip32_path e (bip32_path (ctx d)) (ucast (bip32_path_len (ctx d)))
        (g_address (ctx d)) (nvm d) = (err, g_address (ctx d), nvm d)" "err \<noteq> CX_OK" by blast
    show ?thesis using st by (simp add: None ui_display_transaction_bs_choice_def a)
  next
    case (Some pk)
    define addr where "addr = shake ([1, 0, 0] @ pk)"
    note a = address_of_key(1) [OF x la Some, of "nvm d", folded addr_def]
    note r = reviewing_def [of e shake b pk d, folded addr_def, unfolded Let_def]
    have laddr: "length addr = ADDRESS_SIZE" using x by (simp add: xof_ok_def addr_def)
    have lto: "length (tx_to ?tx) = ADDRESS_SIZE"
      using tx by (simp add: tx_in_bounds_def wf_tx_def size_consts)
    have lh: "length (m_hash ?t) = 32" using wf by (simp add: wf_device_def wf_ctx_def wf_tx_info_def)
    note f = fixed_texts [OF x laddr lto lh]
    have p: "review_pairs e (nvm d\<lparr>nv_pk := pk\<rparr>) ?tx t = review_pairs e (nvm d) ?tx t" for t
      by (rule review_pairs_settings) simp_all
    show ?thesis
    proof (cases "displayable ?tx")
      case True
      then show ?thesis using st
        by (simp add: Some ui_display_transaction_bs_choice_def a shown_numbers [OF tx] f displayable_def
            r transaction_page_def texts_of_def amount_shown_def p show_screen_def Let_def)
    next
      case False
      then show ?thesis using st
        by (auto simp: Some ui_display_transaction_bs_choice_def a shown_numbers [OF tx] f displayable_def Let_def)
    qed
  qed
qed


section \<open>What the user is shown\<close>

lemma decimal_digit: "\<exists>c s. decimal n = c # s \<and> of_char c < (58 :: nat)"
proof (induction n rule: decimal.induct)
  case (1 n)
  show ?case
  proof (cases "n < 10")
    case True
    then have "of_char (digit_char n) = 48 + n" by (rule of_char_digit)
    then show ?thesis using True by (simp add: decimal.simps [of n])
  next
    case False
    then show ?thesis using "1.IH" by (auto simp: decimal.simps [of n])
  qed
qed

lemma amount_shown_digit: "\<exists>c s. amount_shown n = c # s \<and> of_char c < (58 :: nat)"
proof -
  obtain c s where "decimal (n div 10 ^ 18) = c # s" "of_char c < (58 :: nat)" using decimal_digit by blast
  then show ?thesis
    by (auto simp: amount_shown_def with_unit_def snprintf_s_def amount_text_def point_text_def)
qed

text \<open>A device about to review \<open>tx\<close>, for the concrete instances.\<close>

definition parsed_device :: "zond_tx_t \<Rightarrow> device" where
  "parsed_device tx = start_device\<lparr>ctx := (zero_ctx 10)\<lparr>req_type := CONFIRM_TRANSACTION, g_state := STATE_PARSED,
     tx_info := zero_tx_info\<lparr>tx_data_of := tx\<rparr>\<rparr>\<rparr>"

lemma parsed_device_facts:
  assumes "tx_in_bounds tx"
  shows "wf_device sample_env (parsed_device tx)" "req_type (ctx (parsed_device tx)) = CONFIRM_TRANSACTION"
    "g_state (ctx (parsed_device tx)) = STATE_PARSED" "tx_data_of (tx_info (ctx (parsed_device tx))) = tx"
    "key_of sample_env (bip32_path (ctx (parsed_device tx))) (ucast (bip32_path_len (ctx (parsed_device tx)))) =
       Some sample_pk"
  using assms wf_start_device wf_zero_ctx [of 10] wf_zero_tx_info
  by (simp_all add: parsed_device_def wf_device_def wf_ctx_def wf_tx_info_def tx_in_bounds_def start_device_def
      sample_env_def key_of_def sample_pk_def)

definition small_tx :: zond_tx_t where
  "small_tx = zero_tx\<lparr>tx_nonce := [7, 0, 0, 0, 0, 0, 0, 0], tx_nonce_len := 1, tx_to_len := 64\<rparr>"

definition large_nonce_tx :: zond_tx_t where
  "large_nonce_tx = zero_tx\<lparr>tx_nonce := [0x3b, 0x9a, 0xca, 0, 0, 0, 0, 0], tx_nonce_len := 4\<rparr>"

lemma sample_txs:
  "tx_in_bounds small_tx" "displayable small_tx" "tx_in_bounds large_nonce_tx" "nonce_of large_nonce_tx = 10 ^ 9"
  by (simp_all add: small_tx_def large_nonce_tx_def tx_in_bounds_def wf_tx_def zero_tx_def size_consts
      displayable_def nonce_of_def value_of_def fee_cap_of_def be_simps)

text \<open>
  C18. The transaction review stays inside its text buffers exactly when the nonce is below
  \<open>10 ^ 9\<close> and the value and the fee cap are below \<open>10 ^ 40\<close>. In particular a transaction with a
  nonce of ten digits, which the decoder accepts, overflows the ten-character nonce buffer,
  whether or not the nonce is displayed.
\<close>

theorem review_in_bounds_iff:
  assumes "xof_ok e st shake" "wf_device e d" "req_type (ctx d) = CONFIRM_TRANSACTION"
    "g_state (ctx d) = STATE_PARSED" "tx_in_bounds (tx_data_of (tx_info (ctx d)))"
    "key_of e (bip32_path (ctx d)) (ucast (bip32_path_len (ctx d))) = Some pk"
  shows "ui_display_transaction_bs_choice e b d \<noteq> None \<longleftrightarrow>
    nonce_of (tx_data_of (tx_info (ctx d))) < 10 ^ 9 \<and> value_of (tx_data_of (tx_info (ctx d))) < 10 ^ 40 \<and>
    fee_cap_of (tx_data_of (tx_info (ctx d))) < 10 ^ 40"
  using ui_display_transaction_result [OF assms(1-5), of b] assms(6) by (simp add: displayable_def)

theorem review_in_bounds_iff_witness:
  "ui_display_transaction_bs_choice sample_env False (parsed_device small_tx) \<noteq> None \<and>
   ui_display_transaction_bs_choice sample_env False (parsed_device large_nonce_tx) = None"
  using review_in_bounds_iff [OF sample_xof parsed_device_facts(1) [OF sample_txs(1)]
      parsed_device_facts(2,3) [OF sample_txs(1)] _ parsed_device_facts(5) [OF sample_txs(1)], of False]
    review_in_bounds_iff [OF sample_xof parsed_device_facts(1) [OF sample_txs(3)]
      parsed_device_facts(2,3) [OF sample_txs(3)] _ parsed_device_facts(5) [OF sample_txs(3)], of False]
    sample_txs
  by (simp add: parsed_device_facts(4) displayable_def del: not_None_eq)

text \<open>
  C15. What the review shows of a displayable transaction, line by line: the checksummed address of the key at the
  path as sender, the fee cap, without data the amount and the checksummed recipient, with data
  the recipient or the word Contract and the hash, the nonce and the hash when their settings are
  on. It sends no response and leaves the transaction as it is.
\<close>

theorem review_shows_transaction:
  assumes "xof_ok e st shake" "wf_device e d" "req_type (ctx d) = CONFIRM_TRANSACTION"
    "g_state (ctx d) = STATE_PARSED" "tx_data_of (tx_info (ctx d)) = tx" "tx_in_bounds tx" "displayable tx"
    "key_of e (bip32_path (ctx d)) (ucast (bip32_path_len (ctx d))) = Some pk"
  shows "\<exists>d' pairs. ui_display_transaction_bs_choice e b d = Some (0, d') \<and>
    on_screen d' = Review b pairs REVIEW_TITLE (finish_title e b) Transaction_Choice \<and>
    sent d' = sent d \<and> tx_info (ctx d') = tx_info (ctx d) \<and> nv_pk (nvm d') = pk \<and>
    map fst pairs = [''From''] @ (if tx_data_len tx = 0 then [''Amount''] else []) @ [''To''] @
      (if display_nonce (nvm d) \<noteq> 0 then [''Nonce''] else []) @ [''Max fees''] @
      (if tx_data_len tx \<noteq> 0 \<or> display_tx_hash (nvm d) \<noteq> 0 then [hash_item e] else []) \<and>
    (''From'', checksummed shake (shake ([1, 0, 0] @ pk))) \<in> set pairs \<and>
    (''Max fees'', amount_shown (fee_cap_of tx)) \<in> set pairs \<and>
    (tx_data_len tx = 0 \<longrightarrow> (''Amount'', amount_shown (value_of tx)) \<in> set pairs) \<and>
    (tx_data_len tx = 0 \<or> tx_to_len tx \<noteq> 0 \<longrightarrow> (''To'', checksummed shake (tx_to tx)) \<in> set pairs) \<and>
    (tx_data_len tx \<noteq> 0 \<and> tx_to_len tx = 0 \<longrightarrow> (''To'', ''Contract'') \<in> set pairs) \<and>
    (display_nonce (nvm d) \<noteq> 0 \<longrightarrow> (''Nonce'', decimal (nonce_of tx)) \<in> set pairs) \<and>
    (tx_data_len tx \<noteq> 0 \<or> display_tx_hash (nvm d) \<noteq> 0 \<longrightarrow>
       (hash_item e, ''0x'' @ hex_loop (m_hash (tx_info (ctx d)))) \<in> set pairs)"
proof -
  let ?t = "texts_of shake (shake ([1, 0, 0] @ pk)) (m_hash (tx_info (ctx d))) tx"
  let ?p = "review_pairs e (nvm d) tx ?t"
  have r: "ui_display_transaction_bs_choice e b d = Some (0, reviewing e shake b pk d)"
    using ui_display_transaction_result [OF assms(1-4), of b] assms(5-8) by simp
  have s: "on_screen (reviewing e shake b pk d) = Review b ?p REVIEW_TITLE (finish_title e b) Transaction_Choice"
    "sent (reviewing e shake b pk d) = sent d" "tx_info (ctx (reviewing e shake b pk d)) = tx_info (ctx d)"
    "nv_pk (nvm (reviewing e shake b pk d)) = pk"
    using assms(5) by (simp_all add: reviewing_def Let_def)
  show ?thesis
    by (intro exI [of _ "reviewing e shake b pk d"] exI [of _ ?p])
      (simp add: r s review_pairs_def pair_defs texts_of_def data_to_def CONTRACT_STR_def snprintf_s_def word_gt_0)
qed

theorem review_shows_transaction_witness:
  "\<exists>d' pairs title fin. ui_display_transaction_bs_choice sample_env False (parsed_device small_tx) = Some (0, d') \<and>
     on_screen d' = Review False pairs title fin Transaction_Choice \<and>
     (''To'', checksummed sample_shake (tx_to small_tx)) \<in> set pairs"
  using review_shows_transaction [OF sample_xof parsed_device_facts(1-4) [OF sample_txs(1)] sample_txs(1,2)
      parsed_device_facts(5) [OF sample_txs(1)], of False]
  by (auto simp: small_tx_def)

text \<open>
  C36. What the clear review leaves out: with the hash setting off, two data-free transactions from
  the same path with the same recipient, value, nonce and fee cap are reviewed on the same screen,
  whatever their chain, gas limit, tip and hash are. The fees shown are the price cap for one unit
  of gas, not multiplied by the limit.
\<close>

theorem review_omits_fields:
  assumes x: "xof_ok e st shake" and wf: "wf_device e d" "wf_device e d'"
    and st: "req_type (ctx d) = CONFIRM_TRANSACTION" "g_state (ctx d) = STATE_PARSED"
      "req_type (ctx d') = CONFIRM_TRANSACTION" "g_state (ctx d') = STATE_PARSED"
    and path: "bip32_path (ctx d') = bip32_path (ctx d)" "bip32_path_len (ctx d') = bip32_path_len (ctx d)"
      "key_of e (bip32_path (ctx d)) (ucast (bip32_path_len (ctx d))) = Some pk"
    and tx: "tx = tx_data_of (tx_info (ctx d))" "tx' = tx_data_of (tx_info (ctx d'))"
      "tx_in_bounds tx" "tx_in_bounds tx'" "displayable tx"
    and same: "tx_to tx' = tx_to tx" "value_of tx' = value_of tx" "nonce_of tx' = nonce_of tx"
      "fee_cap_of tx' = fee_cap_of tx" "tx_data_len tx = 0" "tx_data_len tx' = 0"
    and set: "display_nonce (nvm d') = display_nonce (nvm d)" "display_tx_hash (nvm d) = 0" "display_tx_hash (nvm d') = 0"
  shows "\<exists>d1 d1'. ui_display_transaction e d = Some (0, d1) \<and> ui_display_transaction e d' = Some (0, d1') \<and>
    on_screen d1' = on_screen d1"
proof -
  have "displayable tx'" using tx(5) same by (simp add: displayable_def)
  then have "ui_display_transaction e d = Some (0, reviewing e shake False pk d)"
    "ui_display_transaction e d' = Some (0, reviewing e shake False pk d')"
    using ui_display_transaction_result [OF x wf(1) st(1,2), of False]
      ui_display_transaction_result [OF x wf(2) st(3,4), of False] tx path
    by (simp_all add: ui_display_transaction_def)
  moreover have "on_screen (reviewing e shake False pk d') = on_screen (reviewing e shake False pk d)"
    using same set by (simp add: reviewing_def Let_def review_pairs_def pair_defs texts_of_def flip: tx(1,2))
  ultimately show ?thesis by blast
qed

definition other_gas_tx :: zond_tx_t where
  "other_gas_tx = small_tx\<lparr>tx_gas := replicate 8 0xff, tx_gas_len := 8, tx_chain_id := replicate 32 1, tx_chain_id_len := 32\<rparr>"

theorem review_omits_fields_witness:
  "\<exists>d1 d1'. ui_display_transaction sample_env (parsed_device small_tx) = Some (0, d1) \<and>
     ui_display_transaction sample_env (parsed_device other_gas_tx) = Some (0, d1') \<and> on_screen d1' = on_screen d1"
proof -
  have b: "tx_in_bounds other_gas_tx"
    using sample_txs(1) by (simp add: other_gas_tx_def tx_in_bounds_def wf_tx_def size_consts)
  have same: "tx_to other_gas_tx = tx_to small_tx" "value_of other_gas_tx = value_of small_tx"
    "nonce_of other_gas_tx = nonce_of small_tx" "fee_cap_of other_gas_tx = fee_cap_of small_tx"
    "tx_data_len small_tx = 0" "tx_data_len other_gas_tx = 0"
    by (simp_all add: other_gas_tx_def value_of_def nonce_of_def fee_cap_of_def) (simp_all add: small_tx_def zero_tx_def)
  have env: "bip32_path (ctx (parsed_device other_gas_tx)) = bip32_path (ctx (parsed_device small_tx))"
    "bip32_path_len (ctx (parsed_device other_gas_tx)) = bip32_path_len (ctx (parsed_device small_tx))"
    "display_nonce (nvm (parsed_device other_gas_tx)) = display_nonce (nvm (parsed_device small_tx))"
    "display_tx_hash (nvm (parsed_device t)) = 0" for t
    by (simp_all add: parsed_device_def start_device_def zero_nvm_def)
  note s = parsed_device_facts [OF sample_txs(1)] and o = parsed_device_facts [OF b]
  show ?thesis
    by (rule review_omits_fields [OF sample_xof s(1) o(1) s(2,3) o(2,3) env(1,2) s(5) s(4) [symmetric] o(4) [symmetric]
        sample_txs(1) b sample_txs(2) same env(3) env(4) env(4)])
qed

text \<open>
  A review with an empty recipient, no data, and a recipient array of zeros shows the text of this
  array as the recipient.
\<close>

lemma creation_pairs:
  assumes creation: "tx_to_len tx = 0" "tx_to tx = replicate 64 0" "tx_data_len tx = 0"
    and t: "t = texts_of shake signer h tx"
  shows "(''To'', checksummed shake (replicate 64 0)) \<in> set (review_pairs e n tx t)"
    "(i, ''Contract'') \<notin> set (review_pairs e n tx t)"
proof -
  have no: "checksummed shake a \<noteq> ''Contract''" "amount_shown n \<noteq> ''Contract''" "decimal n \<noteq> ''Contract''"
    for a n
  proof -
    have "hd (checksummed shake a) = CHR ''Q''" by (simp add: checksummed_def Let_def)
    then show "checksummed shake a \<noteq> ''Contract''" by auto
    show "amount_shown n \<noteq> ''Contract''" using amount_shown_digit [of n] by auto
    show "decimal n \<noteq> ''Contract''" using decimal_digit [of n] by auto
  qed
  show "(i, ''Contract'') \<notin> set (review_pairs e n tx t)"
    using creation by (simp add: t review_pairs_def pair_defs texts_of_def no [symmetric])
  show "(''To'', checksummed shake (replicate 64 0)) \<in> set (review_pairs e n tx t)"
    using creation by (simp add: t review_pairs_def pair_defs texts_of_def)
qed

end
