(* ===== verification/Debug_Print.thy ===== *)
theory Debug_Print
  imports Tx_Review Rlp_Correct
begin

text \<open>
  \<open>print_tx_utils\<close> of \<open>src/ui/nbgl_display_transaction.c\<close>: the listing of a decoded transaction
  on the debug output. The result is the text printed; \<open>None\<close> is a read outside a field's array.
\<close>

definition NL :: string where "NL = [CHR 0x0A]"

text \<open>One line: the label, then \<open>for (i = 0; i < n; i++) PRINTF("%02x", a[i])\<close>.\<close>

definition print_bytes :: "string \<Rightarrow> bytes \<Rightarrow> nat \<Rightarrow> string option" where
  "print_bytes label a n = do {
     bs \<leftarrow> read_block a 0 n;
     Some (label @ ''0x'' @ hex_loop bs @ NL) }"

definition print_tx_utils :: "device \<Rightarrow> string option" where
  "print_tx_utils d =
     (let tx = tx_data_of (tx_info (ctx d)) in do {
        chain \<leftarrow> print_bytes ''Chain ID: '' (tx_chain_id tx) (unat (tx_chain_id_len tx));
        nonce \<leftarrow> print_bytes ''Nonce: '' (tx_nonce tx) (unat (tx_nonce_len tx));
        tip \<leftarrow> print_bytes ''Gas Tip Cap: '' (tx_gas_tip_cap tx) (unat (tx_gas_tip_cap_len tx));
        cap \<leftarrow> print_bytes ''Gas Fee Cap: '' (tx_gas_fee_cap tx) (unat (tx_gas_fee_cap_len tx));
        gas \<leftarrow> print_bytes ''Gas: '' (tx_gas tx) (unat (tx_gas_len tx));
        to \<leftarrow> (if tx_to_len tx > 0 then print_bytes ''To: '' (tx_to tx) ADDRESS_LENGTH else Some []);
        val \<leftarrow> (if tx_value_len tx > 0 then print_bytes ''Value: '' (tx_value tx) (unat (tx_value_len tx)) else Some []);
        Some (''======== ZOND TX ========'' @ NL @ chain @ nonce @ tip @ cap @ gas @ to @ val @ ''================'' @ NL) })"

definition hex_line :: "string \<Rightarrow> bytes \<Rightarrow> string" where
  "hex_line label bs = label @ ''0x'' @ hex_loop bs @ NL"

lemma print_bytes_Some: "n \<le> length a \<Longrightarrow> print_bytes label a n = Some (hex_line label (take n a))"
  by (simp add: print_bytes_def hex_line_def mem_simps)

text \<open>
  A transaction the decoder has stored is listed completely, also the fields that no review page
  shows (chain, gas limit and tip), and no read leaves its array.
\<close>

lemma print_tx_decoded:
  assumes its: "fields_ok its" and wf: "wf_tx tx0" and tx: "tx_data_of (tx_info (ctx d)) = store_fields its tx0"
  defines "tx \<equiv> store_fields its tx0"
  shows "print_tx_utils d = Some (''======== ZOND TX ========'' @ NL
      @ hex_line ''Chain ID: '' (take (unat (tx_chain_id_len tx)) (tx_chain_id tx))
      @ hex_line ''Nonce: '' (take (unat (tx_nonce_len tx)) (tx_nonce tx))
      @ hex_line ''Gas Tip Cap: '' (take (unat (tx_gas_tip_cap_len tx)) (tx_gas_tip_cap tx))
      @ hex_line ''Gas Fee Cap: '' (take (unat (tx_gas_fee_cap_len tx)) (tx_gas_fee_cap tx))
      @ hex_line ''Gas: '' (take (unat (tx_gas_len tx)) (tx_gas tx))
      @ (if tx_to_len tx = 0 then [] else hex_line ''To: '' (tx_to tx))
      @ (if tx_value_len tx = 0 then [] else hex_line ''Value: '' (take (unat (tx_value_len tx)) (tx_value tx)))
      @ ''================'' @ NL)"
proof -
  have wf': "wf_tx tx" and l: "unat (tx_chain_id_len tx) \<le> 32" "unat (tx_nonce_len tx) \<le> 8" "unat (tx_gas_tip_cap_len tx) \<le> 32"
      "unat (tx_gas_fee_cap_len tx) \<le> 32" "unat (tx_gas_len tx) \<le> 8" "unat (tx_value_len tx) \<le> 32"
    using store_fields_bounds [OF its wf] unfolding tx_def by (simp_all add: word_le_nat_alt)
  have a: "length (tx_chain_id tx) = 32" "length (tx_nonce tx) = 8" "length (tx_gas_tip_cap tx) = 32"
      "length (tx_gas_fee_cap tx) = 32" "length (tx_gas tx) = 8" "length (tx_to tx) = 64" "length (tx_value tx) = 32"
    using wf' by (simp_all add: wf_tx_def size_consts)
  note p = print_bytes_Some
  show ?thesis
    using l a unfolding print_tx_utils_def tx [folded tx_def] Let_def
    by (simp add: p word_gt_0 ADDRESS_LENGTH_def)
qed

end
