(* ===== verification/Param_Review.thy ===== *)
theory Param_Review
  imports Tx_Review
begin

text \<open>
  \<open>src/ui/ui_confirm_parameter_selector.c\<close>: the step-by-step review of a contract call, one page
  for the selector and one for each parsed parameter, before the transaction review. The shared
  text buffer \<open>g_ui_buffer\<close> is a list of 140 characters; \<open>None\<close> is an access outside it.
\<close>


section \<open>The text of a parameter\<close>

definition NUL :: char where "NUL = CHR 0x00"

fun first_nonzero :: "bytes \<Rightarrow> nat" where
  "first_nonzero [] = 0"
| "first_nonzero (b # bs) = (if b \<noteq> 0 then 0 else Suc (first_nonzero bs))"

text \<open>
  \<open>split_binary_parameter_part(buffer + offset, ..., parameter)\<close> on eight bytes: the number of
  characters and the buffer.
\<close>

definition split_binary_parameter_part :: "env \<Rightarrow> string \<Rightarrow> nat \<Rightarrow> bytes \<Rightarrow> (nat \<times> string) option" where
  "split_binary_parameter_part e buf offset part =
     (let i = first_nonzero part in
      if i = 8 then do {
        buf' \<leftarrow> write_block buf offset [CHR ''0'', CHR ''0'', NUL];
        Some (2, buf') }
      else Some ((8 - i) * 2, take offset buf @ format_hex e (drop i part) (drop offset buf)))"

text \<open>The loop over the eight parts; \<open>k\<close> rounds are left. No separator is written after part 3.\<close>

fun parameter_loop :: "env \<Rightarrow> bytes \<Rightarrow> nat \<Rightarrow> nat \<Rightarrow> nat \<Rightarrow> string \<Rightarrow> string option" where
  "parameter_loop e param i 0 offset buf = Some buf"
| "parameter_loop e param i (Suc k) offset buf = do {
     part \<leftarrow> read_block param (8 * i) 8;
     (n, buf1) \<leftarrow> split_binary_parameter_part e buf offset part;
     if i \<noteq> 3 then do {
       buf2 \<leftarrow> write_block buf1 (offset + n) '':'';
       parameter_loop e param (i + 1) k (offset + n + 1) buf2 }
     else parameter_loop e param (i + 1) k (offset + n) buf1
   }"

definition c_string :: "string \<Rightarrow> string" where "c_string buf = takeWhile (\<lambda>c. c \<noteq> NUL) buf"

text \<open>\<open>g_ui_buffer[strlen(g_ui_buffer) - 1] = '\0'\<close>; an empty string is a write before the
  buffer, and \<open>strlen\<close> of a text without its NUL reads past it.\<close>

definition chop_last :: "string \<Rightarrow> string option" where
  "chop_last buf =
     (if c_string buf = [] \<or> NUL \<notin> set buf then None else write_block buf (length (c_string buf) - 1) [NUL])"

definition TITLE_MSG_LEN :: nat where "TITLE_MSG_LEN = 20"
definition FINISH_MSG_LEN :: nat where "FINISH_MSG_LEN = 20"

definition buildScreen :: "env \<Rightarrow> e_confirmation_type \<Rightarrow> device \<Rightarrow> device option" where
  "buildScreen e confirm_type d = do {
     pair \<leftarrow>
       (if confirm_type = PARAMETER_CONFIRMATION then do {
          buf \<leftarrow>
            (if g_param_count d > 0 then do {
               param \<leftarrow> read_at (cd_params (calldata_of (tx_info (ctx d)))) (unat (g_param_index d));
               b \<leftarrow> parameter_loop e param 0 8 0 (replicate UI_BUFFER_SIZE NUL);
               chop_last b }
             else Some (replicate UI_BUFFER_SIZE NUL));
          Some (''Parameter'', c_string buf) }
        else do {
          s \<leftarrow> bytes_to_hex_string (cd_selector (calldata_of (tx_info (ctx d)))) 4 9;
          Some (''Selector'', map upper_char s) });
     (let name = (if confirm_type = PARAMETER_CONFIRMATION then ''parameter'' else ''selector'');
          titleMsg = snprintf_s TITLE_MSG_LEN (''Verify '' @ name @ [CHR 0x0A]);
          finishMsg = snprintf_s FINISH_MSG_LEN (''Confirm '' @ name @ [CHR 0x0A])
      in Some (show_screen (Review False [pair] titleMsg (Some finishMsg) Parameter_Choice) d))
   }"

definition ui_confirm_parameter :: "env \<Rightarrow> device \<Rightarrow> (int \<times> device) option" where
  "ui_confirm_parameter e d = do { d1 \<leftarrow> buildScreen e PARAMETER_CONFIRMATION d; Some (0, d1) }"

definition ui_confirm_selector :: "env \<Rightarrow> device \<Rightarrow> (int \<times> device) option" where
  "ui_confirm_selector e d = do { d1 \<leftarrow> buildScreen e SELECTOR_CONFIRMATION d; Some (0, d1) }"

definition ui_contract_call_init :: "byte \<Rightarrow> device \<Rightarrow> device" where
  "ui_contract_call_init param_count d =
     d\<lparr>g_current_screen := SELECTOR_CONFIRMATION, g_param_index := 0, g_param_count := param_count\<rparr>"

text \<open>The callback \<open>reviewChoice\<close> of the selector and parameter pages.\<close>

definition param_review_choice :: "env \<Rightarrow> bool \<Rightarrow> device \<Rightarrow> device option" where
  "param_review_choice e confirm d =
     (if \<not> confirm then
        Some (bzero_ctx e (show_screen (Review_Status TRANSACTION_REJECTED)
                (snd (io_send_sw e SW_DENY (set_state STATE_NONE d)))))
      else if g_current_screen d = SELECTOR_CONFIRMATION then
        (let d1 = d\<lparr>g_current_screen := PARAMETER_CONFIRMATION, g_param_index := 0\<rparr> in
         if g_param_count d1 > 0 then buildScreen e PARAMETER_CONFIRMATION d1
         else do { (r, d2) \<leftarrow> ui_display_blind_signed_transaction e d1; Some d2 })
      else
        (let d1 = d\<lparr>g_param_index := g_param_index d + 1\<rparr> in
         if g_param_index d1 < g_param_count d1 then buildScreen e PARAMETER_CONFIRMATION d1
         else do { (r, d2) \<leftarrow> ui_display_blind_signed_transaction e d1; Some d2 }))"


section \<open>The text shown\<close>

text \<open>
  The documented behaviour of the SDK's \<open>format_hex\<close>: upper-case pairs and a NUL, when they fit.
\<close>

definition format_hex_ok :: "env \<Rightarrow> bool" where
  "format_hex_ok e \<longleftrightarrow> (\<forall>bs buf. bs \<noteq> [] \<and> 2 * length bs + 1 \<le> length buf \<longrightarrow>
     format_hex e bs buf = concat (map (\<lambda>b. map upper_char (hex_pair b)) bs) @ NUL # drop (2 * length bs + 1) buf)"

lemma sample_format_hex: "format_hex_ok sample_env"
  by (simp add: format_hex_ok_def sample_env_def NUL_def)

definition upper_hex :: "bytes \<Rightarrow> string" where
  "upper_hex bs = concat (map (\<lambda>b. map upper_char (hex_pair b)) bs)"

text \<open>A part is shown without its leading zero bytes, an all-zero part as 00.\<close>

definition part_text :: "bytes \<Rightarrow> string" where
  "part_text part = (if \<forall>b \<in> set part. b = 0 then ''00'' else upper_hex (dropWhile (\<lambda>b. b = 0) part))"

definition part_of :: "bytes \<Rightarrow> nat \<Rightarrow> bytes" where
  "part_of param i = take 8 (drop (8 * i) param)"

fun loop_text :: "bytes \<Rightarrow> nat \<Rightarrow> nat \<Rightarrow> string" where
  "loop_text param i 0 = []"
| "loop_text param i (Suc k) =
     part_text (part_of param i) @ (if i \<noteq> 3 then '':'' else []) @ loop_text param (i + 1) k"

definition param_text :: "bytes \<Rightarrow> string" where
  "param_text param =
     part_text (part_of param 0) @ '':'' @ part_text (part_of param 1) @ '':'' @
     part_text (part_of param 2) @ '':'' @ part_text (part_of param 3) @
     part_text (part_of param 4) @ '':'' @ part_text (part_of param 5) @ '':'' @
     part_text (part_of param 6) @ '':'' @ part_text (part_of param 7)"

lemma loop_text_param: "loop_text param 0 8 = param_text param @ '':''"
  by (simp add: param_text_def numeral_eq_Suc)

lemma first_nonzero_length: "first_nonzero bs = length (takeWhile (\<lambda>b. b = 0) bs)"
  by (induction bs) auto

lemma first_nonzero_all: "first_nonzero bs = length bs \<longleftrightarrow> (\<forall>b \<in> set bs. b = 0)"
  by (induction bs) auto

lemma drop_first_nonzero: "drop (first_nonzero bs) bs = dropWhile (\<lambda>b. b = 0) bs"
  by (simp add: first_nonzero_length dropWhile_eq_drop)

lemma length_upper_hex: "length (upper_hex bs) = 2 * length bs"
  unfolding upper_hex_def by (rule hexu.text_length)

lemma length_part_text: "length part = 8 \<Longrightarrow> length (part_text part) \<le> 16 \<and> part_text part \<noteq> []"
proof -
  assume l: "length part = 8"
  have "length (dropWhile (\<lambda>b. b = 0) part) \<le> 8" using length_dropWhile_le [of "\<lambda>b. b = 0" part] l by simp
  then show ?thesis
    by (cases "\<forall>b \<in> set part. b = 0")
      (auto simp: part_text_def length_upper_hex length_greater_0_conv [symmetric] simp del: length_greater_0_conv)
qed

lemma split_part_result:
  assumes f: "format_hex_ok e" and p: "length part = 8" and T: "length T + 17 \<le> N"
  shows "split_binary_parameter_part e (T @ replicate (N - length T) NUL) (length T) part =
    Some (length (part_text part), T @ part_text part @ replicate (N - length T - length (part_text part)) NUL)"
proof (cases "\<forall>b \<in> set part. b = 0")
  case True
  then have i: "first_nonzero part = 8" using first_nonzero_all [of part] p by simp
  have "write_block (T @ replicate (N - length T) NUL) (length T) [CHR ''0'', CHR ''0'', NUL] =
      Some (T @ [CHR ''0'', CHR ''0'', NUL] @ replicate (N - length T - 3) NUL)"
    using T by (simp add: mem_simps)
  also have "[CHR ''0'', CHR ''0'', NUL] @ replicate (N - length T - 3) NUL =
      ''00'' @ replicate (N - length T - 2) NUL"
    using T by (simp add: numeral_eq_Suc replicate_Suc [symmetric] Suc_diff_le del: replicate_Suc)
  finally show ?thesis using True i by (simp add: split_binary_parameter_part_def part_text_def)
next
  case False
  let ?h = "dropWhile (\<lambda>b. b = 0) part"
  have i: "first_nonzero part \<noteq> 8" using first_nonzero_all [of part] p False by auto
  have le: "first_nonzero part \<le> 8"
    using length_takeWhile_le [of "\<lambda>b. b = 0" part] p by (simp add: first_nonzero_length)
  have lh: "length ?h = 8 - first_nonzero part" using p drop_first_nonzero [of part] by (metis length_drop)
  have h: "?h \<noteq> []" using False by (simp add: dropWhile_eq_Nil_conv)
  have cap: "2 * length ?h + 1 \<le> N - length T" using lh T by simp
  have "format_hex e ?h (replicate (N - length T) NUL) =
      upper_hex ?h @ NUL # drop (2 * length ?h + 1) (replicate (N - length T) NUL)"
    using f h cap unfolding format_hex_ok_def upper_hex_def by simp
  also have "NUL # drop (2 * length ?h + 1) (replicate (N - length T) NUL) = replicate (N - length T - 2 * length ?h) NUL"
    using cap by (simp add: replicate_Suc [symmetric] Suc_diff_Suc del: replicate_Suc)
  finally have fh: "format_hex e ?h (replicate (N - length T) NUL) =
      upper_hex ?h @ replicate (N - length T - 2 * length ?h) NUL" .
  have pt: "part_text part = upper_hex ?h" using False by (auto simp: part_text_def)
  show ?thesis
    using i lh by (simp add: split_binary_parameter_part_def pt drop_first_nonzero fh Let_def
        length_upper_hex mult.commute del: drop_replicate)
qed

lemma parameter_loop_result:
  assumes f: "format_hex_ok e"
  shows "length T + 17 * k \<le> N \<Longrightarrow> 8 * (i + k) \<le> length param \<Longrightarrow>
    parameter_loop e param i k (length T) (T @ replicate (N - length T) NUL) =
      Some (T @ loop_text param i k @ replicate (N - length T - length (loop_text param i k)) NUL)"
proof (induction k arbitrary: i T)
  case 0
  then show ?case by simp
next
  case (Suc k)
  let ?part = "part_of param i"
  let ?t = "part_text ?part"
  have r: "read_block param (8 * i) 8 = Some ?part"
    using Suc.prems(2) by (simp add: mem_simps part_of_def)
  have lp: "length ?part = 8" using Suc.prems(2) by (simp add: part_of_def)
  have lt: "length ?t \<le> 16" using length_part_text [OF lp] by simp
  note sp = split_part_result [OF f lp, of T N]
  show ?case
  proof (cases "i = 3")
    case True
    have "parameter_loop e param (i + 1) k (length (T @ ?t)) ((T @ ?t) @ replicate (N - length (T @ ?t)) NUL) =
        Some ((T @ ?t) @ loop_text param (i + 1) k
          @ replicate (N - length (T @ ?t) - length (loop_text param (i + 1) k)) NUL)"
      by (rule Suc.IH) (use Suc.prems lt in simp_all)
    then show ?thesis using True r sp Suc.prems by (simp add: add.assoc)
  next
    case False
    let ?T = "T @ ?t @ '':''"
    have "N - length T - length ?t = Suc (N - length ?T)" using Suc.prems(1) lt by simp
    then have w: "write_block (T @ ?t @ replicate (N - length T - length ?t) NUL) (length T + length ?t) '':'' =
        Some (?T @ replicate (N - length ?T) NUL)"
      using Suc.prems(1) lt by (simp add: mem_simps)
    have "parameter_loop e param (i + 1) k (length ?T) (?T @ replicate (N - length ?T) NUL) =
        Some (?T @ loop_text param (i + 1) k @ replicate (N - length ?T - length (loop_text param (i + 1) k)) NUL)"
      by (rule Suc.IH) (use Suc.prems lt in simp_all)
    then show ?thesis using False r sp w Suc.prems by (simp add: add.assoc)
  qed
qed

lemma hex_chars_not_NUL: "c \<in> set hex_chars \<Longrightarrow> upper_char c \<noteq> NUL"
  unfolding hex_chars_def list.set insert_iff empty_iff NUL_def
  by (elim disjE) (simp_all add: upper_char_def char_of_def)

lemma upper_hex_not_NUL: "c \<in> set (upper_hex bs) \<Longrightarrow> c \<noteq> NUL"
proof -
  have e: "upper_hex bs = map upper_char (hex_loop bs)"
    by (simp add: upper_hex_def hex_loop_pairs map_concat comp_def)
  assume "c \<in> set (upper_hex bs)"
  then obtain c' where "c' \<in> set (hex_loop bs)" "c = upper_char c'" unfolding e by auto
  then show ?thesis using hex_chars_not_NUL hex_loop_set by simp
qed

lemma part_text_not_NUL: "c \<in> set (part_text p) \<Longrightarrow> c \<noteq> NUL"
  using upper_hex_not_NUL by (auto simp: part_text_def NUL_def split: if_splits)

lemma param_text_not_NUL: "c \<in> set (param_text p) \<Longrightarrow> c \<noteq> NUL"
  using part_text_not_NUL by (auto simp: param_text_def NUL_def)

lemma length_param_text:
  "length p = 64 \<Longrightarrow> length (param_text p) \<le> 134"
proof -
  assume "length p = 64"
  then have "length (part_text (part_of p i)) \<le> 16" if "i < 8" for i
    using that length_part_text [of "part_of p i"] by (simp add: part_of_def)
  from this [of 0] this [of 1] this [of 2] this [of 3] this [of 4] this [of 5] this [of 6] this [of 7]
  show ?thesis by (simp add: param_text_def)
qed

lemma c_string_pad: "\<forall>c \<in> set s. c \<noteq> NUL \<Longrightarrow> c_string (s @ NUL # r) = s"
  by (simp add: c_string_def takeWhile_append2)

lemma parameter_buffer:
  assumes f: "format_hex_ok e" and p: "length p = 64"
  shows "\<exists>b buf. parameter_loop e p 0 8 0 (replicate UI_BUFFER_SIZE NUL) = Some b \<and>
    chop_last b = Some buf \<and> c_string buf = param_text p"
proof -
  let ?t = "param_text p"
  let ?b = "(?t @ '':'') @ replicate (140 - length ?t - 1) NUL"
  have l: "length ?t \<le> 134" by (rule length_param_text [OF p])
  have loop: "parameter_loop e p 0 8 0 (replicate UI_BUFFER_SIZE NUL) = Some ?b"
    using parameter_loop_result [OF f, of "[]" 8 140 0 p] p
    by (simp add: UI_BUFFER_SIZE_def loop_text_param del: loop_text.simps)
  have r: "replicate (140 - length ?t - 1) NUL = NUL # replicate (138 - length ?t) NUL"
    using l by (simp add: replicate_Suc [symmetric] Suc_diff_le del: replicate_Suc)
  have cs: "c_string ?b = ?t @ '':''"
    unfolding r by (rule c_string_pad) (use param_text_not_NUL in \<open>auto simp: NUL_def\<close>)
  have "NUL \<in> set ?b" unfolding r by simp
  then have "chop_last ?b = write_block ?b (length ?t) [NUL]"
    unfolding chop_last_def cs by simp
  also have "\<dots> = Some (?t @ NUL # replicate (140 - length ?t - 1) NUL)"
    using l by (simp add: mem_simps)
  finally have "chop_last ?b = Some (?t @ NUL # replicate (140 - length ?t - 1) NUL)" .
  moreover have "c_string (?t @ NUL # replicate (140 - length ?t - 1) NUL) = ?t"
    by (rule c_string_pad) (use param_text_not_NUL in auto)
  ultimately show ?thesis using loop by blast
qed


section \<open>The pages\<close>

definition selector_page :: "bytes \<Rightarrow> screen" where
  "selector_page sel = Review False [(''Selector'', upper_hex sel)] (''Verify selector'' @ [CHR 0x0A])
     (Some (''Confirm selector'' @ [CHR 0x0A])) Parameter_Choice"

definition param_page :: "bytes \<Rightarrow> screen" where
  "param_page p = Review False [(''Parameter'', param_text p)] (''Verify parameter'' @ [CHR 0x0A])
     (Some (''Confirm parameter'' @ [CHR 0x0A])) Parameter_Choice"

lemma buildScreen_selector:
  assumes "wf_device e d"
  shows "buildScreen e SELECTOR_CONFIRMATION d =
    Some (show_screen (selector_page (cd_selector (calldata_of (tx_info (ctx d))))) d)"
proof -
  let ?sel = "cd_selector (calldata_of (tx_info (ctx d)))"
  have l: "length ?sel = 4"
    using assms by (simp add: wf_device_def wf_ctx_def wf_tx_info_def wf_calldata_def size_consts)
  have "bytes_to_hex_string ?sel 4 9 = Some (hex_loop ?sel)"
    using l bytes_to_hex_string_Some [of 4 ?sel 9] by simp
  moreover have "map upper_char (hex_loop ?sel) = upper_hex ?sel"
    by (simp add: upper_hex_def hex_loop_pairs map_concat comp_def)
  ultimately show ?thesis
    by (simp add: buildScreen_def selector_page_def snprintf_s_def TITLE_MSG_LEN_def FINISH_MSG_LEN_def Let_def)
qed

lemma buildScreen_parameter:
  assumes f: "format_hex_ok e" and wf: "wf_device e d" and c: "0 < g_param_count d" "unat (g_param_index d) < 16"
  shows "buildScreen e PARAMETER_CONFIRMATION d =
    Some (show_screen (param_page (cd_params (calldata_of (tx_info (ctx d))) ! unat (g_param_index d))) d)"
proof -
  let ?ps = "cd_params (calldata_of (tx_info (ctx d)))"
  let ?i = "unat (g_param_index d)"
  have ps: "length ?ps = 16" "\<forall>p \<in> set ?ps. length p = 64"
    using wf by (simp_all add: wf_device_def wf_ctx_def wf_tx_info_def wf_calldata_def size_consts)
  then have "length (?ps ! ?i) = 64" using c(2) by simp
  from parameter_buffer [OF f this] obtain b buf where
    "parameter_loop e (?ps ! ?i) 0 8 0 (replicate UI_BUFFER_SIZE NUL) = Some b" "chop_last b = Some buf"
    "c_string buf = param_text (?ps ! ?i)" by blast
  moreover have "read_at ?ps ?i = Some (?ps ! ?i)" using ps c(2) by (simp add: mem_simps)
  ultimately show ?thesis using c(1)
    by (simp add: buildScreen_def param_page_def snprintf_s_def TITLE_MSG_LEN_def FINISH_MSG_LEN_def Let_def
        del: parameter_loop.simps)
qed

text \<open>
  C27. The parameter page shows the 64 bytes of the parameter being reviewed as eight hexadecimal
  parts without their leading zero bytes, within the 140-character buffer, for every parameter;
  the parts are separated by colons, except the fourth and the fifth, which run together.
\<close>

theorem parameter_page_text:
  assumes "format_hex_ok e" "wf_device e d" "0 < g_param_count d" "unat (g_param_index d) < 16"
    and "p = cd_params (calldata_of (tx_info (ctx d))) ! unat (g_param_index d)"
  shows "\<exists>d' text title fin. ui_confirm_parameter e d = Some (0, d') \<and>
    on_screen d' = Review False [(''Parameter'', text)] title fin Parameter_Choice \<and>
    text = part_text (part_of p 0) @ '':'' @ part_text (part_of p 1) @ '':'' @ part_text (part_of p 2) @ '':'' @
      part_text (part_of p 3) @ part_text (part_of p 4) @ '':'' @ part_text (part_of p 5) @ '':'' @
      part_text (part_of p 6) @ '':'' @ part_text (part_of p 7)"
  using buildScreen_parameter [OF assms(1-4)] assms(5)
  by (simp add: ui_confirm_parameter_def show_screen_def param_page_def param_text_def)

theorem parameter_page_text_witness:
  "\<exists>d' text title fin. ui_confirm_parameter sample_env (start_device\<lparr>g_param_count := 1\<rparr>) = Some (0, d') \<and>
     on_screen d' = Review False [(''Parameter'', text)] title fin Parameter_Choice"
proof -
  have "wf_device sample_env (start_device\<lparr>g_param_count := 1\<rparr>)"
    using wf_start_device by (simp add: wf_device_def)
  from parameter_page_text [OF sample_format_hex this _ _ refl] show ?thesis by (auto simp: start_device_def)
qed

text \<open>The bytes of a part that are shown; with its length they determine the part.\<close>

definition significant :: "bytes \<Rightarrow> bytes" where
  "significant part = (if \<forall>b \<in> set part. b = 0 then [0] else dropWhile (\<lambda>b. b = 0) part)"

lemma part_text_significant: "part_text part = upper_hex (significant part)"
proof -
  have "upper_hex [0] = ''00''" by (simp add: upper_hex_def hex_pair_def hex_chars_def upper_char_def)
  then show ?thesis by (simp add: part_text_def significant_def)
qed

lemma dropWhile_zero_inj:
  assumes "length p = length q" "dropWhile (\<lambda>b. b = 0) p = dropWhile (\<lambda>b. b = (0 :: byte)) q"
  shows "p = q"
proof -
  have z: "p = replicate (length p - length (dropWhile (\<lambda>b. b = 0) p)) 0 @ dropWhile (\<lambda>b. b = 0) p" for p :: bytes
  proof -
    have "takeWhile (\<lambda>b. b = 0) p = replicate (length (takeWhile (\<lambda>b. b = 0) p)) 0"
      by (rule replicate_eqI) (auto dest: set_takeWhileD)
    moreover have "length p = length (takeWhile (\<lambda>b. b = 0) p) + length (dropWhile (\<lambda>b. b = 0) p)"
      by (metis length_append takeWhile_dropWhile_id)
    ultimately show ?thesis by (metis add_diff_cancel_right' takeWhile_dropWhile_id)
  qed
  show ?thesis using z [of p] z [of q] assms by simp
qed

lemma significant_inj:
  assumes "length p = length q" "significant p = significant q"
  shows "p = q"
proof -
  have nz: "hd (dropWhile (\<lambda>b. b = 0) r) \<noteq> 0" if "\<not> (\<forall>b \<in> set r. b = 0)" for r :: bytes
    using that hd_dropWhile [of "\<lambda>b. b = 0" r] by (auto simp: dropWhile_eq_Nil_conv)
  then have i: "(\<forall>b \<in> set p. b = 0) \<longleftrightarrow> (\<forall>b \<in> set q. b = 0)"
    using assms(2) unfolding significant_def by (metis list.sel(1))
  have "dropWhile (\<lambda>b. b = 0) p = dropWhile (\<lambda>b. b = 0) q"
  proof (cases "\<forall>b \<in> set p. b = 0")
    case True
    then have "dropWhile (\<lambda>b. b = 0) p = []" "dropWhile (\<lambda>b. b = 0) q = []"
      using i by (simp_all only: dropWhile_eq_Nil_conv)
    then show ?thesis by (simp only:)
  next
    case False
    then show ?thesis using assms(2) i by (simp only: significant_def if_False)
  qed
  then show ?thesis by (rule dropWhile_zero_inj [OF assms(1)])
qed

lemma upper_hex_append: "upper_hex (as @ bs) = upper_hex as @ upper_hex bs"
  by (simp add: upper_hex_def)

lemma upper_hex_inj: "upper_hex as = upper_hex bs \<longleftrightarrow> as = bs"
  unfolding upper_hex_def by (rule hexu.text_inject)

lemma hex_chars_not_colon: "c \<in> set hex_chars \<Longrightarrow> upper_char c \<noteq> CHR '':''"
  unfolding hex_chars_def list.set insert_iff empty_iff
  by (elim disjE) (simp_all add: upper_char_def char_of_def)

lemma upper_hex_no_colon: "CHR '':'' \<notin> set (upper_hex bs)"
proof -
  have "upper_hex bs = map upper_char (hex_loop bs)"
    by (simp add: upper_hex_def hex_loop_pairs map_concat comp_def)
  then show ?thesis using hex_chars_not_colon hex_loop_set by fastforce
qed

lemma colon_cut:
  "c \<notin> set s \<Longrightarrow> c \<notin> set t \<Longrightarrow> s @ c # x = t @ c # y \<longleftrightarrow> s = t \<and> x = y"
proof (induction s arbitrary: t)
  case Nil
  then show ?case by (cases t) auto
next
  case (Cons a s)
  then show ?case by (cases t) auto
qed

text \<open>Two texts are equal when the six separated parts are, and the digits of the other two put together.\<close>

lemma param_text_eq_iff:
  assumes "length p = 64" "length q = 64"
  shows "param_text p = param_text q \<longleftrightarrow> (\<forall>i \<in> {0, 1, 2, 5, 6, 7}. part_of p i = part_of q i) \<and>
    significant (part_of p 3) @ significant (part_of p 4) = significant (part_of q 3) @ significant (part_of q 4)"
proof -
  have l: "length (part_of p i) = length (part_of q i)" for i using assms by (simp add: part_of_def)
  have t: "param_text r = upper_hex (significant (part_of r 0)) @ CHR '':'' # upper_hex (significant (part_of r 1)) @ CHR '':'' #
      upper_hex (significant (part_of r 2)) @ CHR '':'' #
      upper_hex (significant (part_of r 3) @ significant (part_of r 4)) @ CHR '':'' #
      upper_hex (significant (part_of r 5)) @ CHR '':'' # upper_hex (significant (part_of r 6)) @ CHR '':'' #
      upper_hex (significant (part_of r 7))" for r
    by (simp add: param_text_def part_text_significant upper_hex_append)
  have s: "significant (part_of p i) = significant (part_of q i) \<longleftrightarrow> part_of p i = part_of q i" for i
    by (auto dest: significant_inj [OF l])
  show ?thesis
    unfolding t by (simp add: colon_cut upper_hex_no_colon upper_hex_inj s) blast
qed

text \<open>A part that shows the bytes \<open>x\<close>, of which the first is not zero.\<close>

definition padded_part :: "bytes \<Rightarrow> bytes" where
  "padded_part x = replicate (8 - length x) 0 @ x"

lemma significant_padded:
  assumes "x \<noteq> []" "hd x \<noteq> 0"
  shows "significant (padded_part x) = x"
proof -
  have "dropWhile (\<lambda>b. b = 0) (replicate n 0 @ x) = x" for n
    using assms by (induction n) (auto simp: neq_Nil_conv)
  moreover have "\<not> (\<forall>b \<in> set (padded_part x). b = 0)" using assms by (cases x) (auto simp: padded_part_def)
  ultimately show ?thesis unfolding significant_def padded_part_def by (simp only: if_False)
qed

lemma parts_of_split:
  assumes "length pre = 24" "length u = 8" "length v = 8"
  shows "part_of (pre @ u @ v @ post) 3 = u" "part_of (pre @ u @ v @ post) 4 = v"
    "i < 3 \<Longrightarrow> part_of (pre @ u @ v @ post) i = part_of pre i"
    "5 \<le> i \<Longrightarrow> part_of (pre @ u @ v @ post) i = take 8 (drop (8 * i - 40) post)"
  using assms by (simp_all add: part_of_def)

lemma param_text_moved:
  assumes "length pre = 24" "length post = 24" "x \<noteq> []" "y \<noteq> []" "z \<noteq> []" "hd x \<noteq> 0" "hd y \<noteq> 0" "hd z \<noteq> 0"
    "length (x @ y) \<le> 8" "length (y @ z) \<le> 8"
  defines "p \<equiv> pre @ padded_part x @ padded_part (y @ z) @ post"
    and "q \<equiv> pre @ padded_part (x @ y) @ padded_part z @ post"
  shows "p \<noteq> q \<and> length p = 64 \<and> length q = 64 \<and> param_text p = param_text q"
proof -
  have l: "length (padded_part x) = 8" "length (padded_part (y @ z)) = 8" "length (padded_part (x @ y)) = 8" "length (padded_part z) = 8"
    using assms(9,10) by (simp_all add: padded_part_def)
  note ps = parts_of_split [OF assms(1) l(1,2), where post = post, folded p_def]
  note qs = parts_of_split [OF assms(1) l(3,4), where post = post, folded q_def]
  have sg: "significant (padded_part x) = x" "significant (padded_part (y @ z)) = y @ z"
    "significant (padded_part (x @ y)) = x @ y" "significant (padded_part z) = z"
    using assms(3-8) by (simp_all add: significant_padded)
  have n: "length p = 64" "length q = 64" using assms(1,2) l by (simp_all add: p_def q_def)
  have "p \<noteq> q"
  proof
    assume "p = q"
    then have "significant (part_of p 3) = significant (part_of q 3)" by simp
    then show False using assms(4) by (simp add: ps(1) qs(1) sg)
  qed
  moreover have "param_text p = param_text q"
    unfolding param_text_eq_iff [OF n] using ps qs sg by simp
  ultimately show ?thesis using n by simp
qed

text \<open>The device with its current parameter replaced.\<close>

definition with_param :: "bytes \<Rightarrow> device \<Rightarrow> device" where
  "with_param p d = (let t = tx_info (ctx d); cd = calldata_of t in
     d\<lparr>ctx := (ctx d)\<lparr>tx_info := t\<lparr>calldata_of :=
       cd\<lparr>cd_params := (cd_params cd)[unat (g_param_index d) := p]\<rparr>\<rparr>\<rparr>\<rparr>)"

lemma with_param_page:
  assumes "format_hex_ok e" "wf_device e d" "0 < g_param_count d" "unat (g_param_index d) < 16" "length p = 64"
  shows "ui_confirm_parameter e (with_param p d) = Some (0, show_screen (param_page p) (with_param p d))"
proof -
  have l: "length (cd_params (calldata_of (tx_info (ctx d)))) = 16"
    using assms(2) by (simp add: wf_device_def wf_ctx_def wf_tx_info_def wf_calldata_def size_consts)
  have "wf_device e (with_param p d)"
    using assms by (auto simp: with_param_def Let_def wf_device_def wf_ctx_def wf_tx_info_def wf_calldata_def
        size_consts dest!: set_update_subset_insert [THEN subsetD])
  from buildScreen_parameter [OF assms(1) this] assms(3,4) l
  show ?thesis by (simp add: ui_confirm_parameter_def with_param_def Let_def)
qed

text \<open>
  C28. The parameter page is ambiguous, and exactly so: in a call with parameters, two values of
  the current parameter are reviewed on the same page if and only if their first three and last three parts of eight bytes agree and the significant
  bytes of their fourth and fifth parts, put together, agree (the separator between these two is
  missing, every other one is there). So different parameters share a page: whatever the other
  parts are, bytes \<open>y\<close> moved from the front of the fifth part to the end of the fourth (parts
  with significant bytes \<open>x\<close> and \<open>y z\<close> against \<open>x y\<close> and \<open>z\<close>, each of the three starting with a
  nonzero byte) do not show.
\<close>

theorem parameter_text_ambiguous:
  assumes "format_hex_ok e" "wf_device e d" "0 < g_param_count d" "unat (g_param_index d) < 16"
  shows "(\<forall>p q. length p = 64 \<and> length q = 64 \<longrightarrow>
      (\<exists>d1 d2. ui_confirm_parameter e (with_param p d) = Some (0, d1) \<and>
        ui_confirm_parameter e (with_param q d) = Some (0, d2) \<and>
        (on_screen d1 = on_screen d2 \<longleftrightarrow> (\<forall>i \<in> {0, 1, 2, 5, 6, 7}. part_of p i = part_of q i) \<and>
          significant (part_of p 3) @ significant (part_of p 4) = significant (part_of q 3) @ significant (part_of q 4)))) \<and>
    (\<forall>pre post x y z. length pre = 24 \<and> length post = 24 \<and> x \<noteq> [] \<and> y \<noteq> [] \<and> z \<noteq> [] \<and>
        hd x \<noteq> 0 \<and> hd y \<noteq> 0 \<and> hd z \<noteq> 0 \<and> length (x @ y) \<le> 8 \<and> length (y @ z) \<le> 8 \<longrightarrow>
      (let p = pre @ padded_part x @ padded_part (y @ z) @ post; q = pre @ padded_part (x @ y) @ padded_part z @ post in
       p \<noteq> q \<and> (\<exists>d1 d2. ui_confirm_parameter e (with_param p d) = Some (0, d1) \<and>
         ui_confirm_parameter e (with_param q d) = Some (0, d2) \<and> on_screen d1 = on_screen d2)))"
proof (intro conjI allI impI)
  fix p q :: bytes assume l: "length p = 64 \<and> length q = 64"
  then have "param_page p = param_page q \<longleftrightarrow> (\<forall>i \<in> {0, 1, 2, 5, 6, 7}. part_of p i = part_of q i) \<and>
      significant (part_of p 3) @ significant (part_of p 4) = significant (part_of q 3) @ significant (part_of q 4)"
    using param_text_eq_iff [of p q] by (simp add: param_page_def)
  then show "\<exists>d1 d2. ui_confirm_parameter e (with_param p d) = Some (0, d1) \<and>
        ui_confirm_parameter e (with_param q d) = Some (0, d2) \<and>
        (on_screen d1 = on_screen d2 \<longleftrightarrow> (\<forall>i \<in> {0, 1, 2, 5, 6, 7}. part_of p i = part_of q i) \<and>
          significant (part_of p 3) @ significant (part_of p 4) = significant (part_of q 3) @ significant (part_of q 4))"
    using with_param_page [OF assms] l by (simp add: show_screen_def)
next
  fix pre post x y z :: bytes
  let ?p = "pre @ padded_part x @ padded_part (y @ z) @ post" and ?q = "pre @ padded_part (x @ y) @ padded_part z @ post"
  assume "length pre = 24 \<and> length post = 24 \<and> x \<noteq> [] \<and> y \<noteq> [] \<and> z \<noteq> [] \<and>
        hd x \<noteq> 0 \<and> hd y \<noteq> 0 \<and> hd z \<noteq> 0 \<and> length (x @ y) \<le> 8 \<and> length (y @ z) \<le> 8"
  then have "?p \<noteq> ?q \<and> length ?p = 64 \<and> length ?q = 64 \<and> param_text ?p = param_text ?q"
    using param_text_moved [of pre post x y z] by blast
  then show "let p = ?p; q = ?q in
       p \<noteq> q \<and> (\<exists>d1 d2. ui_confirm_parameter e (with_param p d) = Some (0, d1) \<and>
         ui_confirm_parameter e (with_param q d) = Some (0, d2) \<and> on_screen d1 = on_screen d2)"
    using with_param_page [OF assms, of ?p] with_param_page [OF assms, of ?q]
    by (simp add: Let_def show_screen_def param_page_def)
qed

text \<open>The significant bytes 1 and 2, 3 against 1, 2 and 3, with all other parts zero.\<close>

theorem parameter_text_ambiguous_witness:
  "\<exists>d1 d2. ui_confirm_parameter sample_env (with_param (replicate 24 0 @ padded_part [1] @ padded_part [2, 3] @ replicate 24 0)
       (start_device\<lparr>g_param_count := 1\<rparr>)) = Some (0, d1) \<and>
     ui_confirm_parameter sample_env (with_param (replicate 24 0 @ padded_part [1, 2] @ padded_part [3] @ replicate 24 0)
       (start_device\<lparr>g_param_count := 1\<rparr>)) = Some (0, d2) \<and> on_screen d1 = on_screen d2"
proof -
  let ?d = "start_device\<lparr>g_param_count := 1\<rparr>"
  have wf: "wf_device sample_env ?d" using wf_start_device by (simp add: wf_device_def)
  have c: "0 < g_param_count ?d" "unat (g_param_index ?d) < 16" by (simp_all add: start_device_def)
  have h: "length (replicate 24 (0 :: byte)) = 24 \<and> length (replicate 24 (0 :: byte)) = 24 \<and> [1 :: byte] \<noteq> [] \<and> [2 :: byte] \<noteq> [] \<and>
      [3 :: byte] \<noteq> [] \<and> hd [1 :: byte] \<noteq> 0 \<and> hd [2 :: byte] \<noteq> 0 \<and> hd [3 :: byte] \<noteq> 0 \<and>
      length ([1] @ [2 :: byte]) \<le> 8 \<and> length ([2] @ [3 :: byte]) \<le> 8" by simp
  show ?thesis
    using conjunct2 [OF parameter_text_ambiguous [OF sample_format_hex wf c], rule_format, OF h]
    unfolding Let_def append.simps by blast
qed


section \<open>The sequence of pages\<close>

text \<open>The user confirms \<open>n\<close> pages in a row; the page is closed before its callback runs.\<close>

fun confirms :: "env \<Rightarrow> nat \<Rightarrow> device \<Rightarrow> device option" where
  "confirms e 0 d = Some d"
| "confirms e (Suc n) d = do { d1 \<leftarrow> confirms e n d; param_review_choice e True (show_screen Blank d1) }"

definition at_param :: "byte \<Rightarrow> nat \<Rightarrow> device \<Rightarrow> device" where
  "at_param cnt k d = d\<lparr>g_current_screen := PARAMETER_CONFIRMATION, g_param_index := of_nat k, g_param_count := cnt,
     on_screen := param_page (cd_params (calldata_of (tx_info (ctx d))) ! k)\<rparr>"

lemma confirms_params:
  assumes f: "format_hex_ok e" and wf: "wf_device e d" and cnt: "unat cnt \<le> 16"
  shows "k < unat cnt \<Longrightarrow>
    confirms e (k + 1) (show_screen (selector_page sel) (ui_contract_call_init cnt d)) = Some (at_param cnt k d)"
proof (induction k)
  case 0
  then have c: "0 < cnt" by (simp add: word_less_nat_alt)
  let ?d = "(show_screen Blank (ui_contract_call_init cnt d))
      \<lparr>g_current_screen := PARAMETER_CONFIRMATION, g_param_index := 0\<rparr>"
  have "wf_device e ?d" using wf by (simp add: wf_device_def show_screen_def ui_contract_call_init_def)
  then have "buildScreen e PARAMETER_CONFIRMATION ?d =
      Some (show_screen (param_page (cd_params (calldata_of (tx_info (ctx d))) ! 0)) ?d)"
    using buildScreen_parameter [OF f, of ?d] c by (simp add: show_screen_def ui_contract_call_init_def)
  then show ?case using c
    by (simp add: param_review_choice_def show_screen_def ui_contract_call_init_def at_param_def Let_def)
next
  case (Suc k)
  have k: "unat (of_nat (Suc k) :: byte) = Suc k" using Suc.prems cnt by (simp add: unat_of_nat del: of_nat_Suc)
  let ?d = "(show_screen Blank (at_param cnt k d))\<lparr>g_param_index := of_nat (Suc k)\<rparr>"
  have lt: "(of_nat (Suc k) :: byte) < cnt" using Suc.prems unfolding word_less_nat_alt k .
  have "wf_device e ?d" using wf by (simp add: wf_device_def at_param_def show_screen_def)
  moreover have "0 < g_param_count ?d" "unat (g_param_index ?d) < 16"
    using Suc.prems cnt k by (auto simp: at_param_def show_screen_def word_less_nat_alt simp del: of_nat_Suc)
  ultimately have b: "buildScreen e PARAMETER_CONFIRMATION ?d = Some (at_param cnt (Suc k) d)"
    using buildScreen_parameter [OF f, of ?d] k
    by (simp add: show_screen_def at_param_def del: of_nat_Suc)
  have "param_review_choice e True (show_screen Blank (at_param cnt k d)) = Some (at_param cnt (Suc k) d)"
    using b lt by (simp add: param_review_choice_def at_param_def show_screen_def Let_def add.commute)
  then show ?case using Suc by simp
qed

text \<open>The confirmation after the last parameter.\<close>

lemma confirms_all:
  assumes "format_hex_ok e" "wf_device e d" "unat cnt \<le> 16"
  shows "\<exists>d'. confirms e (unat cnt + 1) (show_screen (selector_page sel) (ui_contract_call_init cnt d)) =
      map_option snd (ui_display_blind_signed_transaction e d') \<and> ctx d' = ctx d \<and> nvm d' = nvm d \<and> sent d' = sent d \<and> exited d' = exited d"
proof -
  let ?d1 = "show_screen (selector_page sel) (ui_contract_call_init cnt d)"
  have bind: "do { (r, d2) \<leftarrow> x; Some d2 } = map_option snd x" for x :: "(int \<times> device) option"
    by (cases x) auto
  show ?thesis
  proof (cases "unat cnt")
    case 0
    then have "cnt = 0" by (simp add: unat_eq_zero)
    then show ?thesis
      by (intro exI [of _ "(show_screen Blank ?d1)\<lparr>g_current_screen := PARAMETER_CONFIRMATION, g_param_index := 0\<rparr>"])
        (simp add: param_review_choice_def show_screen_def ui_contract_call_init_def Let_def bind)
  next
    case (Suc k)
    then have k: "k < unat cnt" "unat (of_nat (Suc k) :: byte) = Suc k" using assms(3) by (simp_all add: unat_of_nat del: of_nat_Suc)
    have nlt: "\<not> (of_nat (Suc k) :: byte) < cnt" unfolding word_less_nat_alt k(2) using Suc by simp
    have c: "confirms e (unat cnt) ?d1 = Some (at_param cnt k d)"
      using confirms_params [OF assms(1-3) k(1)] Suc by simp
    have "param_review_choice e True (show_screen Blank (at_param cnt k d)) = map_option snd
        (ui_display_blind_signed_transaction e ((show_screen Blank (at_param cnt k d))\<lparr>g_param_index := of_nat (Suc k)\<rparr>))"
      using nlt by (simp add: param_review_choice_def at_param_def show_screen_def Let_def add.commute bind)
    then show ?thesis using c
      by (intro exI [of _ "(show_screen Blank (at_param cnt k d))\<lparr>g_param_index := of_nat (Suc k)\<rparr>"])
        (simp add: at_param_def show_screen_def)
  qed
qed

text \<open>A page of the call is open before each of \<open>n\<close> confirmations.\<close>

definition walks_pages :: "env \<Rightarrow> nat \<Rightarrow> device \<Rightarrow> bool" where
  "walks_pages e n d \<longleftrightarrow> (\<forall>k < n. \<exists>dk ps t f. confirms e k d = Some dk \<and>
     on_screen dk = Review False ps t f Parameter_Choice \<and> exited dk = exited d)"

lemma confirms_walk:
  assumes "format_hex_ok e" "wf_device e d" "unat cnt \<le> 16"
  shows "walks_pages e (unat cnt + 1) (show_screen (selector_page sel) (ui_contract_call_init cnt d))"
  unfolding walks_pages_def
proof (intro allI impI)
  let ?d1 = "show_screen (selector_page sel) (ui_contract_call_init cnt d)"
  fix k assume k: "k < unat cnt + 1"
  show "\<exists>dk ps t f. confirms e k ?d1 = Some dk \<and> on_screen dk = Review False ps t f Parameter_Choice \<and> exited dk = exited ?d1"
  proof (cases k)
    case 0
    then show ?thesis by (auto simp: show_screen_def selector_page_def)
  next
    case (Suc j)
    then have "confirms e k ?d1 = Some (at_param cnt j d)" using confirms_params [OF assms, of j] k by simp
    then show ?thesis by (simp add: at_param_def param_page_def show_screen_def ui_contract_call_init_def)
  qed
qed

text \<open>
  C26. A contract call is reviewed completely before it can be signed: starting from the selector
  page, the k-th confirmation shows the k-th stored parameter, with no response and no change to
  the transaction, and only the confirmation after the last parameter opens the transaction
  review, always in its blind-signing form.
\<close>

theorem parameter_review_flow:
  assumes "format_hex_ok e" "wf_device e d" "unat cnt \<le> 16"
  defines "d1 \<equiv> show_screen (selector_page (cd_selector (calldata_of (tx_info (ctx d))))) (ui_contract_call_init cnt d)"
  shows "ui_confirm_selector e (ui_contract_call_init cnt d) = Some (0, d1) \<and>
    (\<forall>k < unat cnt. \<exists>d'. confirms e (k + 1) d1 = Some d' \<and>
       on_screen d' = param_page (cd_params (calldata_of (tx_info (ctx d))) ! k) \<and> ctx d' = ctx d \<and> sent d' = sent d) \<and>
    (\<exists>d'. confirms e (unat cnt + 1) d1 = map_option snd (ui_display_blind_signed_transaction e d') \<and>
       ctx d' = ctx d \<and> nvm d' = nvm d \<and> sent d' = sent d)"
proof (intro conjI allI impI)
  have "wf_device e (ui_contract_call_init cnt d)"
    using assms(2) by (simp add: wf_device_def ui_contract_call_init_def)
  from buildScreen_selector [OF this]
  show "ui_confirm_selector e (ui_contract_call_init cnt d) = Some (0, d1)"
    by (simp add: ui_confirm_selector_def d1_def ui_contract_call_init_def)
next
  fix k assume "k < unat cnt"
  from confirms_params [OF assms(1-3) this]
  show "\<exists>d'. confirms e (k + 1) d1 = Some d' \<and>
       on_screen d' = param_page (cd_params (calldata_of (tx_info (ctx d))) ! k) \<and> ctx d' = ctx d \<and> sent d' = sent d"
    by (intro exI [of _ "at_param cnt k d"]) (simp add: d1_def at_param_def)
next
  show "\<exists>d'. confirms e (unat cnt + 1) d1 = map_option snd (ui_display_blind_signed_transaction e d') \<and>
       ctx d' = ctx d \<and> nvm d' = nvm d \<and> sent d' = sent d"
    unfolding d1_def using confirms_all [OF assms(1-3)] by blast
qed

theorem parameter_review_flow_witness:
  "\<exists>d'. confirms sample_env 2
     (show_screen (selector_page (replicate 4 0)) (ui_contract_call_init 2 start_device)) = Some d' \<and>
     on_screen d' = param_page (replicate 64 0)"
proof -
  have "unat (2 :: byte) \<le> 16" by simp
  from parameter_review_flow [OF sample_format_hex wf_start_device this]
  have "\<forall>k < 2. \<exists>d'. confirms sample_env (k + 1)
      (show_screen (selector_page (cd_selector (calldata_of (tx_info (ctx start_device)))))
        (ui_contract_call_init 2 start_device)) = Some d' \<and>
      on_screen d' = param_page (cd_params (calldata_of (tx_info (ctx start_device))) ! k)"
    by auto
  from spec [OF this, of 1] show ?thesis
    by (simp add: start_device_def zero_ctx_def zero_tx_info_def zero_calldata_def ABI_SELECTOR_SIZE_def
        ABI_MAX_PARAMS_def ABI_SLOT_SIZE_def numeral_2_eq_2 del: confirms.simps)
qed

end
