(* ===== verification/Abi_Calldata.thy ===== *)
theory Abi_Calldata
  imports Ledger_Types
begin

text \<open>
  The calldata parser of \<open>src/handler/sign_tx.c\<close> (\<open>abi_calldata_parse\<close>): a four-byte selector
  followed by 64-byte slots, of which at most sixteen are kept. Pointers are \<open>option\<close> values;
  a null destination is \<open>None\<close>. The theorems compare it with the encoder
  \<open>abi_encode\<close> that joins a selector and its slots, on both sides of the sixteen-slot limit.
\<close>


section \<open>The parser\<close>

text \<open>
  The loop \<open>for (i = 0; i < total_slots; i++)\<close>: slot \<open>i\<close> of the input to \<open>params[i]\<close>. The
  recursion is on the number of remaining rounds \<open>k\<close>.
\<close>

fun copy_slots :: "bytes \<Rightarrow> nat \<Rightarrow> nat \<Rightarrow> bytes list \<Rightarrow> bytes list option" where
  "copy_slots calldata i 0 params = Some params"
| "copy_slots calldata i (Suc k) params = do {
     slot \<leftarrow> read_block calldata (4 + i * ABI_SLOT_SIZE) 64;
     old \<leftarrow> read_at params i;
     new \<leftarrow> write_block old 0 slot;
     copy_slots calldata (i + 1) k (params[i := new])
   }"

definition abi_calldata_parse ::
    "bytes option \<Rightarrow> size_t \<Rightarrow> abi_calldata_t option \<Rightarrow> (bool \<times> abi_calldata_t option) option" where
  "abi_calldata_parse calldata calldata_len out =
     (case out of
        None \<Rightarrow> Some (False, None)
      | Some _ \<Rightarrow>
          (let o1 = zero_calldata in
           if calldata = None \<and> calldata_len > 0 then Some (False, Some o1)
           else if calldata_len < of_nat ABI_SELECTOR_SIZE then Some (False, Some o1)
           else (case calldata of
             None \<Rightarrow> None
           | Some mem \<Rightarrow> do {
               sel \<leftarrow> read_block mem 0 ABI_SELECTOR_SIZE;
               (let o2 = o1\<lparr>cd_selector := sel, cd_has_selector := True\<rparr>;
                    data_len = calldata_len - of_nat ABI_SELECTOR_SIZE;
                    slot_count = data_len div of_nat ABI_SLOT_SIZE;
                    remainder = data_len mod of_nat ABI_SLOT_SIZE in
                if remainder > 0 then Some (False, Some o2)
                else (let total_slots = (if slot_count > of_nat ABI_MAX_PARAMS
                                         then of_nat ABI_MAX_PARAMS else slot_count);
                          o3 = o2\<lparr>cd_param_count := ucast total_slots\<rparr> in do {
                  ps \<leftarrow> copy_slots mem 0 (unat total_slots) (cd_params o3);
                  Some (True, Some (o3\<lparr>cd_params := ps\<rparr>)) }))
             })))"


section \<open>Behaviour\<close>

definition abi_encode :: "bytes \<Rightarrow> bytes list \<Rightarrow> bytes" where
  "abi_encode sel slots = sel @ concat slots"

text \<open>The slot list of an input of \<open>4 + 64 * n\<close> bytes.\<close>

definition slots_of :: "bytes \<Rightarrow> nat \<Rightarrow> bytes list" where
  "slots_of mem n = map (\<lambda>i. take 64 (drop (4 + i * 64) mem)) [0..<n]"

lemma copy_slots_result:
  "4 + (i + k) * 64 \<le> length mem \<Longrightarrow> length done = i \<Longrightarrow> \<forall>p \<in> set rest. length p = 64 \<Longrightarrow>
   k \<le> length rest \<Longrightarrow>
   copy_slots mem i k (done @ rest) =
     Some (done @ map (\<lambda>j. take 64 (drop (4 + j * 64) mem)) [i..<i + k] @ drop k rest)"
proof (induction k arbitrary: i "done" rest)
  case 0
  then show ?case by simp
next
  case (Suc k)
  then obtain p rest' where rest: "rest = p # rest'" by (cases rest) auto
  let ?s = "take 64 (drop (4 + i * 64) mem)"
  have s: "read_block mem (4 + i * ABI_SLOT_SIZE) 64 = Some ?s"
    using Suc.prems(1) by (simp add: mem_simps size_consts)
  have ls: "length ?s = 64" using Suc.prems(1) by simp
  have w: "write_block p 0 ?s = Some ?s" using Suc.prems(3) ls by (simp add: rest mem_simps)
  have "copy_slots mem i (Suc k) (done @ rest) = copy_slots mem (i + 1) k ((done @ [?s]) @ rest')"
    using Suc.prems(2) s w nth_append_length [of "done" p rest']
    by (simp add: rest read_at_def list_update_append)
  also have "\<dots> = Some ((done @ [?s]) @ map (\<lambda>j. take 64 (drop (4 + j * 64) mem)) [i + 1..<i + 1 + k] @ drop k rest')"
    by (rule Suc.IH) (use Suc.prems in \<open>auto simp: rest\<close>)
  finally have r: "copy_slots mem i (Suc k) (done @ rest) = \<dots>" .
  have u: "[i..<i + Suc k] = i # [i + 1..<i + 1 + k]"
    by (simp add: upt_conv_Cons del: upt_Suc)
  show ?case unfolding r u by (simp add: rest)
qed

lemma copy_slots_zero:
  "n \<le> ABI_MAX_PARAMS \<Longrightarrow> 4 + n * 64 \<le> length mem \<Longrightarrow>
   copy_slots mem 0 n (cd_params zero_calldata) =
     Some (slots_of mem n @ replicate (ABI_MAX_PARAMS - n) (replicate ABI_SLOT_SIZE 0))"
  using copy_slots_result [of 0 n mem "[]" "replicate ABI_MAX_PARAMS (replicate ABI_SLOT_SIZE 0)"]
  by (simp add: zero_calldata_def slots_of_def size_consts)

definition parsed_calldata :: "bytes \<Rightarrow> bytes list \<Rightarrow> abi_calldata_t" where
  "parsed_calldata sel slots = \<lparr>cd_selector = sel, cd_has_selector = True,
     cd_param_count = of_nat (min (length slots) ABI_MAX_PARAMS),
     cd_params = take ABI_MAX_PARAMS slots
       @ replicate (ABI_MAX_PARAMS - length slots) (replicate ABI_SLOT_SIZE 0)\<rparr>"

definition is_encoding :: "bytes \<Rightarrow> bytes \<Rightarrow> bytes list \<Rightarrow> bool" where
  "is_encoding bs sel slots \<longleftrightarrow>
     bs = abi_encode sel slots \<and> length sel = ABI_SELECTOR_SIZE \<and> (\<forall>p \<in> set slots. length p = ABI_SLOT_SIZE)"

lemma length_concat_slots: "\<forall>p \<in> set slots. length p = 64 \<Longrightarrow> length (concat slots) = 64 * length slots"
  by (induction slots) auto

lemma nth_slot:
  "\<forall>p \<in> set slots. length p = 64 \<Longrightarrow> i < length slots \<Longrightarrow> take 64 (drop (i * 64) (concat slots)) = slots ! i"
proof (induction slots arbitrary: i)
  case Nil
  then show ?case by simp
next
  case (Cons p slots)
  then show ?case by (cases i) auto
qed

lemma slots_of_encode:
  assumes "length sel = 4" "\<forall>p \<in> set slots. length p = 64" "n \<le> length slots"
  shows "slots_of (abi_encode sel slots @ rest) n = take n slots"
proof (rule nth_equalityI)
  show "length (slots_of (abi_encode sel slots @ rest) n) = length (take n slots)"
    using assms(3) by (simp add: slots_of_def)
next
  fix i assume "i < length (slots_of (abi_encode sel slots @ rest) n)"
  then have i: "i < n" by (simp add: slots_of_def)
  have l: "i * 64 + 64 \<le> length (concat slots)"
    using length_concat_slots [OF assms(2)] i assms(3) by simp
  have "take 64 (drop (4 + i * 64) (abi_encode sel slots @ rest)) = take 64 (drop (i * 64) (concat slots))"
    using assms(1) l by (simp add: abi_encode_def)
  then show "slots_of (abi_encode sel slots @ rest) n ! i = take n slots ! i"
    using nth_slot [OF assms(2)] i assms(3) by (simp add: slots_of_def)
qed

lemma is_encoding_length:
  "is_encoding bs sel slots \<Longrightarrow> length bs = 4 + 64 * length slots"
  using length_concat_slots [of slots] by (auto simp: is_encoding_def abi_encode_def size_consts)

lemma abi_parse_accepts:
  assumes enc: "is_encoding (take (unat len) mem) sel slots" and len: "unat len \<le> length mem"
  shows "abi_calldata_parse (Some mem) len (Some out) = Some (True, Some (parsed_calldata sel slots))"
proof -
  have l: "unat len = 4 + 64 * length slots"
    using is_encoding_length [OF enc] len by simp
  have e: "length sel = 4" "\<forall>p \<in> set slots. length p = 64" "take (unat len) mem = abi_encode sel slots"
    using enc by (simp_all add: is_encoding_def size_consts)
  obtain rest where mem: "mem = abi_encode sel slots @ rest"
    using e(3) by (metis append_take_drop_id)
  have ge: "\<not> len < 4" using l by (simp add: word_less_nat_alt)
  have d: "unat (len - 4) = 64 * length slots"
    using l ge by (simp add: unat_sub_size_t not_less)
  have rem: "(len - 4) mod 64 = 0" using d by (simp add: word_unat_eq_iff unat_mod)
  have cnt: "unat ((len - 4) div 64) = length slots" using d by (simp add: unat_div)
  let ?n = "if (len - 4) div 64 > of_nat ABI_MAX_PARAMS then of_nat ABI_MAX_PARAMS else (len - 4) div 64"
  have n: "unat ?n = min (length slots) ABI_MAX_PARAMS"
    using cnt by (auto simp: size_consts word_less_nat_alt min_def)
  have n': "ucast ?n = (of_nat (min (length slots) ABI_MAX_PARAMS) :: byte)"
    unfolding n [symmetric] by simp
  have cp: "copy_slots mem 0 (min (length slots) ABI_MAX_PARAMS) (cd_params zero_calldata) =
      Some (take (min (length slots) ABI_MAX_PARAMS) slots
        @ replicate (ABI_MAX_PARAMS - min (length slots) ABI_MAX_PARAMS) (replicate ABI_SLOT_SIZE 0))"
    using copy_slots_zero [of "min (length slots) ABI_MAX_PARAMS" mem] l len
    by (simp add: slots_of_encode [OF e(1,2)] mem)
  have sel: "read_block mem 0 ABI_SELECTOR_SIZE = Some sel"
    using e(1) by (simp add: mem abi_encode_def read_block_def size_consts)
  have k: "(of_nat ABI_SELECTOR_SIZE :: size_t) = 4" "(of_nat ABI_SLOT_SIZE :: size_t) = 64"
    by (simp_all add: size_consts)
  have tk: "take (min (length slots) ABI_MAX_PARAMS) slots = take ABI_MAX_PARAMS slots"
    "ABI_MAX_PARAMS - min (length slots) ABI_MAX_PARAMS = ABI_MAX_PARAMS - length slots"
    by (simp_all add: min_def)
  show ?thesis
    unfolding abi_calldata_parse_def k Let_def
    using ge rem n n' cp sel by (simp add: parsed_calldata_def tk zero_calldata_def)
qed

lemma abi_parse_encode:
  assumes "length sel = 4" "\<forall>p \<in> set slots. length p = 64" "length (abi_encode sel slots) < 2 ^ 32"
  shows "abi_calldata_parse (Some (abi_encode sel slots)) (of_nat (length (abi_encode sel slots))) (Some out) =
    Some (True, Some (parsed_calldata sel slots))"
proof (rule abi_parse_accepts)
  have u: "unat (of_nat (length (abi_encode sel slots)) :: size_t) = length (abi_encode sel slots)"
    by (rule unat_of_nat_size_t [OF assms(3)])
  show "is_encoding (take (unat (of_nat (length (abi_encode sel slots)) :: size_t)) (abi_encode sel slots)) sel slots"
    unfolding u using assms by (simp add: is_encoding_def size_consts)
  show "unat (of_nat (length (abi_encode sel slots)) :: size_t) \<le> length (abi_encode sel slots)"
    unfolding u by simp
qed

lemma encoding_exists:
  assumes "length bs = 4 + 64 * n"
  shows "\<exists>sel slots. is_encoding bs sel slots"
  using assms
proof (induction n arbitrary: bs)
  case 0
  then have "is_encoding bs bs []" by (simp add: is_encoding_def abi_encode_def size_consts)
  then show ?case by blast
next
  case (Suc n)
  let ?k = "4 + 64 * n"
  have "length (take ?k bs) = ?k" using Suc.prems by simp
  from Suc.IH [OF this] obtain sel slots where i: "is_encoding (take ?k bs) sel slots" by blast
  have "is_encoding bs sel (slots @ [drop ?k bs])"
    using i Suc.prems append_take_drop_id [of ?k bs]
    by (auto simp: is_encoding_def abi_encode_def size_consts)
  then show ?case by blast
qed

lemma abi_parse_rejects:
  assumes no: "\<nexists>sel slots. is_encoding (take (unat len) mem) sel slots" and len: "unat len \<le> length mem"
  shows "\<exists>out'. abi_calldata_parse (Some mem) len (Some out) = Some (False, Some out') \<and> wf_calldata out'"
proof (cases "len < 4")
  case True
  then show ?thesis
    by (simp add: abi_calldata_parse_def size_consts wf_zero_calldata)
next
  case False
  then have d: "unat (len - 4) = unat len - 4" "4 \<le> unat len"
    by (simp_all add: unat_sub_size_t not_less word_le_nat_alt)
  have "(len - 4) mod 64 \<noteq> 0"
  proof
    assume "(len - 4) mod 64 = 0"
    then have "(unat len - 4) mod 64 = 0" using d(1) by (simp add: word_unat_eq_iff unat_mod)
    then obtain q where "unat len - 4 = 64 * q" by auto
    then have "length (take (unat len) mem) = 4 + 64 * q" using d(2) len by simp
    from encoding_exists [OF this] no show False by blast
  qed
  then have "(len - 4) mod 64 > 0" by (simp add: word_gt_0)
  moreover have "read_block mem 0 4 = Some (take 4 mem)" "length (take 4 mem) = 4"
    using d(2) len by (simp_all add: read_block_def)
  ultimately show ?thesis using False wf_zero_calldata
    by (simp add: abi_calldata_parse_def size_consts wf_calldata_def)
qed

text \<open>
  C29. The calldata parser is total and memory safe on any calldata, accepts exactly the calldata
  that is a four-byte selector followed by whole 64-byte slots, and then returns that selector and
  the first sixteen slots, with their number.
\<close>

theorem abi_calldata_parse_correct:
  assumes len: "unat len \<le> length mem"
  shows "\<exists>ok out'. abi_calldata_parse (Some mem) len (Some out) = Some (ok, Some out') \<and>
    (ok \<longleftrightarrow> (\<exists>sel slots. is_encoding (take (unat len) mem) sel slots)) \<and>
    (\<forall>sel slots. is_encoding (take (unat len) mem) sel slots \<longrightarrow> out' = parsed_calldata sel slots)"
proof (cases "\<exists>sel slots. is_encoding (take (unat len) mem) sel slots")
  case True
  then obtain sel slots where e: "is_encoding (take (unat len) mem) sel slots" by blast
  have "parsed_calldata sel slots = parsed_calldata sel' slots'"
    if "is_encoding (take (unat len) mem) sel' slots'" for sel' slots'
    using abi_parse_accepts [OF e len, of out] abi_parse_accepts [OF that len, of out] by simp
  then show ?thesis using True abi_parse_accepts [OF e len, of out] by auto
next
  case False
  with abi_parse_rejects [OF False len, of out] show ?thesis by blast
qed

definition sample_calldata :: bytes where
  "sample_calldata = [0xa9, 0x05, 0x9c, 0xbb] @ replicate 64 7 @ replicate 64 9"

theorem abi_calldata_parse_correct_witness:
  "\<exists>out'. abi_calldata_parse (Some sample_calldata) 132 (Some zero_calldata) = Some (True, Some out') \<and>
     cd_param_count out' = 2 \<and> cd_selector out' = [0xa9, 0x05, 0x9c, 0xbb]"
proof -
  have l: "length sample_calldata = 132" by (simp add: sample_calldata_def)
  have e: "is_encoding (take (unat (132 :: size_t)) sample_calldata) [0xa9, 0x05, 0x9c, 0xbb]
      [replicate 64 7, replicate 64 9]"
    using l by (simp add: is_encoding_def abi_encode_def size_consts) (simp add: sample_calldata_def)
  have u: "unat (132 :: size_t) \<le> length sample_calldata" using l by simp
  obtain ok out' where r: "abi_calldata_parse (Some sample_calldata) 132 (Some zero_calldata) = Some (ok, Some out')"
      "ok" "out' = parsed_calldata [0xa9, 0x05, 0x9c, 0xbb] [replicate 64 7, replicate 64 9]"
    using abi_calldata_parse_correct [OF u, of zero_calldata] e by blast
  then show ?thesis by (simp add: parsed_calldata_def size_consts)
qed

text \<open>
  Calls whose calldata differs only after the sixteenth slot are the same call to the review:
  the parser drops every slot from the seventeenth on, without an error.
\<close>

lemma abi_calldata_parse_drops_params:
  assumes sel: "length sel = 4" and shown: "length shown = 16"
    and slots: "\<forall>p \<in> set (shown @ hidden). length p = 64" and bound: "length (abi_encode sel (shown @ hidden)) < 2 ^ 32"
  shows "abi_calldata_parse (Some (abi_encode sel (shown @ hidden)))
      (of_nat (length (abi_encode sel (shown @ hidden)))) (Some out) =
    abi_calldata_parse (Some (abi_encode sel shown)) (of_nat (length (abi_encode sel shown))) (Some out)"
proof -
  have b': "length (abi_encode sel shown) < 2 ^ 32" using bound by (simp add: abi_encode_def)
  have sl: "\<forall>p \<in> set shown. length p = 64" using slots by simp
  have "parsed_calldata sel (shown @ hidden) = parsed_calldata sel shown"
    using shown by (simp add: parsed_calldata_def size_consts)
  then show ?thesis
    unfolding abi_parse_encode [OF sel slots bound] abi_parse_encode [OF sel sl b'] by simp
qed

end
