(* ===== verification/Sign_Tx.thy ===== *)
theory Sign_Tx
  imports Param_Review Rlp_Correct Abi_Calldata
begin

text \<open>
  \<open>src/handler/sign_tx.c\<close>: the SIGN_TX command. P1 = 0 starts a request with a derivation path,
  P1 = 1 adds a chunk of the transaction, P1 = 2 with P2 = 0 adds the last chunk, hashes, decodes
  and opens the review, and P1 = 2 with P2 from 1 to 17 sends a further chunk of the signature.
\<close>


section \<open>The handler\<close>

definition set_tx_info :: "transaction_ctx_t \<Rightarrow> device \<Rightarrow> device" where
  "set_tx_info t d = d\<lparr>ctx := (ctx d)\<lparr>tx_info := t\<rparr>\<rparr>"

text \<open>The branch P1 = 0.\<close>

definition sign_tx_first :: "env \<Rightarrow> buffer_t \<Rightarrow> device \<Rightarrow> (int \<times> device) option" where
  "sign_tx_first e cdata d =
     (let d1 = bzero_ctx e d;
          d1 = d1\<lparr>ctx := (ctx d1)\<lparr>req_type := CONFIRM_TRANSACTION, g_state := STATE_NONE\<rparr>\<rparr>;
          d1 = d1\<lparr>nvm := (nvm d1)\<lparr>nv_sig := replicate MLDSA87_SIGBYTES 0\<rparr>\<rparr>;
          (ok, len, cdata1) = buffer_read_u8 e cdata (bip32_path_len (ctx d1));
          d2 = d1\<lparr>ctx := (ctx d1)\<lparr>bip32_path_len := len\<rparr>\<rparr>
      in
      if \<not> ok then Some (io_send_sw e SW_WRONG_DATA_LENGTH d2)
      else
        (let (ok, path, cdata2) = buffer_read_bip32_path e cdata1 (bip32_path (ctx d2))
               (ucast (bip32_path_len (ctx d2)));
             d3 = d2\<lparr>ctx := (ctx d2)\<lparr>bip32_path := path\<rparr>\<rparr>
         in
         if \<not> ok then Some (io_send_sw e SW_WRONG_DATA_LENGTH d3)
         else do {
           valid \<leftarrow> is_valid_zond_bip32_path (bip32_path (ctx d3)) (ucast (bip32_path_len (ctx d3)));
           if \<not> valid then Some (io_send_sw e SW_WRONG_DATA_LENGTH d3)
           else Some (io_send_sw e SW_OK d3) }))"

text \<open>
  The guards and the copy common to P1 = 1 and P1 = 2: an error status, if any, and the device,
  with the chunk appended when there is none.
\<close>

definition recv_chunk :: "env \<Rightarrow> buffer_t \<Rightarrow> device \<Rightarrow> (u16 option \<times> device) option" where
  "recv_chunk e cdata d =
     (if req_type (ctx d) \<noteq> CONFIRM_TRANSACTION then Some (Some SW_BAD_STATE, d)
      else if g_state (ctx d) \<noteq> STATE_NONE then Some (Some SW_BAD_STATE, d)
      else
        (let t = tx_info (ctx d) in
         if unat (raw_tx_len t + buf_size cdata) > MAX_TRANSACTION_LEN then Some (Some SW_WRONG_TX_LENGTH, d)
         else do {
           dst \<leftarrow> read_block (raw_tx t) (unat (raw_tx_len t)) (unat (buf_size cdata));
           (let (ok, out, cdata1) = buffer_move e cdata dst in do {
              raw \<leftarrow> write_block (raw_tx t) (unat (raw_tx_len t)) out;
              (let t1 = t\<lparr>raw_tx := raw\<rparr> in
               if \<not> ok then Some (Some SW_TX_PARSING_FAIL, set_tx_info t1 d)
               else Some (None, set_tx_info (t1\<lparr>raw_tx_len := raw_tx_len t1 + buf_size cdata\<rparr>) d)) }) }))"

definition sign_tx_more :: "env \<Rightarrow> buffer_t \<Rightarrow> device \<Rightarrow> (int \<times> device) option" where
  "sign_tx_more e cdata d = do {
     (r, d1) \<leftarrow> recv_chunk e cdata d;
     case r of
       Some sw \<Rightarrow> Some (io_send_sw e sw d1)
     | None \<Rightarrow> Some (io_send_sw e SW_OK d1)
   }"

text \<open>What follows the decoding: which review a decoded transaction gets.\<close>

definition route_review :: "env \<Rightarrow> device \<Rightarrow> (int \<times> device) option" where
  "route_review e d =
     (let tx = tx_data_of (tx_info (ctx d)); n = nvm d in
      if tx_data_len tx \<noteq> 0 \<and> enable_blind_signing n = 0 then
        Some (io_send_sw e SW_SIGNATURE_FAIL (ui_error_blind_signing e d))
      else if tx_to_len tx > 0 \<and> tx_data_len tx > 0 \<and> enable_debug_smart_contract n \<noteq> 0 \<and>
              enable_blind_signing n \<noteq> 0 then do {
        (ok, out) \<leftarrow> abi_calldata_parse (Some (tx_data tx)) (ucast (tx_data_len tx))
                        (Some (calldata_of (tx_info (ctx d))));
        cd \<leftarrow> out;
        (let d1 = set_tx_info ((tx_info (ctx d))\<lparr>calldata_of := cd\<rparr>) d in
         if ok then ui_confirm_selector e (ui_contract_call_init (cd_param_count cd) d1)
         else ui_display_transaction e d1) }
      else if tx_data_len tx \<noteq> 0 \<and> enable_blind_signing n \<noteq> 0 then
        ui_display_blind_signed_transaction e d
      else ui_display_transaction e d)"

definition sign_tx_last :: "env \<Rightarrow> buffer_t \<Rightarrow> device \<Rightarrow> (int \<times> device) option" where
  "sign_tx_last e cdata d = do {
     (r, d1) \<leftarrow> recv_chunk e cdata d;
     case r of
       Some sw \<Rightarrow> Some (io_send_sw e sw d1)
     | None \<Rightarrow>
         (let d2 = set_state STATE_PARSED d1; t = tx_info (ctx d2);
              (error, h) = cx_keccak_256_hash e (take (unat (raw_tx_len t)) (raw_tx t)) (m_hash t);
              d3 = set_tx_info (t\<lparr>m_hash := h\<rparr>) d2
          in
          if error \<noteq> CX_OK then Some (io_send_sw e SW_SIGNATURE_FAIL d3)
          else do {
            (err, tx) \<leftarrow> decode_ledger_tx (Some (raw_tx t)) (raw_tx_len t) (Some (tx_data_of t));
            tx' \<leftarrow> tx;
            (let d4 = set_tx_info ((tx_info (ctx d3))\<lparr>tx_data_of := tx'\<rparr>) d3 in
             if err \<noteq> 0 then Some (io_send_sw e SW_TX_PARSING_FAIL d4)
             else route_review e d4) })
   }"

text \<open>The branch P1 = 2 with P2 from 1 to 17: a further chunk of an approved signature.\<close>

definition sign_tx_signature :: "env \<Rightarrow> byte \<Rightarrow> device \<Rightarrow> (int \<times> device) option" where
  "sign_tx_signature e p2 d =
     (if req_type (ctx d) \<noteq> CONFIRM_TRANSACTION then Some (io_send_sw e SW_BAD_STATE d)
      else if g_state (ctx d) \<noteq> STATE_APPROVED then Some (io_send_sw e SW_BAD_STATE d)
      else if is_sending_signature (nvm d) \<noteq> 0 then helper_send_response_sig e p2 d
      else Some (io_send_sw e SW_BAD_STATE d))"

definition handler_sign_tx :: "env \<Rightarrow> buffer_t \<Rightarrow> byte \<Rightarrow> byte \<Rightarrow> device \<Rightarrow> (int \<times> device) option" where
  "handler_sign_tx e cdata p1 p2 d =
     (if p1 = 0 then sign_tx_first e cdata d
      else if p1 = 1 then sign_tx_more e cdata d
      else if p1 = 2 \<and> p2 = 0 then sign_tx_last e cdata d
      else if p1 = 2 \<and> p2 > 0 \<and> p2 < 18 then sign_tx_signature e p2 d
      else Some (io_send_sw e SW_WRONG_P1P2 d))"

end
