(* ===== verification/Dispatcher.thy ===== *)
theory Dispatcher
  imports Sign_Tx
begin

text \<open>
  The other handlers (\<open>src/handler/get_public_key.c\<close>, \<open>get_version.c\<close>, \<open>get_app_name.c\<close>),
  the command dispatcher (\<open>src/apdu/dispatcher.c\<close>) and one round of the main loop
  (\<open>src/app_main.c\<close>).
\<close>


section \<open>Name and version\<close>

definition handler_get_app_name :: "env \<Rightarrow> device \<Rightarrow> int \<times> device" where
  "handler_get_app_name e d = io_send_response e (map of_char APPNAME) SW_OK d"

definition handler_get_version :: "env \<Rightarrow> device \<Rightarrow> int \<times> device" where
  "handler_get_version e d = io_send_response e [MAJOR_VERSION, MINOR_VERSION, PATCH_VERSION] SW_OK d"


section \<open>The public key\<close>

definition handler_get_public_key :: "env \<Rightarrow> buffer_t \<Rightarrow> bool \<Rightarrow> device \<Rightarrow> (int \<times> device) option" where
  "handler_get_public_key e cdata display d =
     (let d1 = bzero_ctx e d;
          d1 = d1\<lparr>ctx := (ctx d1)\<lparr>req_type := CONFIRM_ADDRESS, g_state := STATE_NONE\<rparr>\<rparr>;
          d1 = d1\<lparr>nvm := (nvm d1)\<lparr>nv_pk := replicate MLDSA87_PUBLICKEYBYTES 0\<rparr>\<rparr>;
          (ok, len, cdata1) = buffer_read_u8 e cdata (bip32_path_len (ctx d1));
          d2 = d1\<lparr>ctx := (ctx d1)\<lparr>bip32_path_len := len\<rparr>\<rparr>
      in
      if \<not> ok then Some (io_send_sw e SW_WRONG_DATA_LENGTH d2)
      else
        (let (ok, path, cdata2) = buffer_read_bip32_path e cdata1 (bip32_path (ctx d2))
               (ucast (bip32_path_len (ctx d2)));
             d3 = d2\<lparr>ctx := (ctx d2)\<lparr>bip32_path := path\<rparr>\<rparr>
         in
         if \<not> ok then Some (io_send_sw e SW_WRONG_DATA_LENGTH d3)
         else do {
           valid \<leftarrow> is_valid_zond_bip32_path (bip32_path (ctx d3)) (ucast (bip32_path_len (ctx d3)));
           if \<not> valid then Some (io_send_sw e SW_WRONG_DATA_LENGTH d3)
           else
             (let (error, addr, n) = address_from_bip32_path e (bip32_path (ctx d3))
                    (ucast (bip32_path_len (ctx d3))) (g_address (ctx d3)) (nvm d3);
                  d4 = d3\<lparr>ctx := (ctx d3)\<lparr>g_address := addr\<rparr>, nvm := n\<rparr>
              in
              if error \<noteq> CX_OK then Some (io_send_sw e (ucast error) d4)
              else if display then ui_display_address e d4
              else helper_send_response_address e d4) }))"

definition handler_get_public_key_chunk :: "env \<Rightarrow> byte \<Rightarrow> device \<Rightarrow> (int \<times> device) option" where
  "handler_get_public_key_chunk e chunk_index d = helper_send_response_pk_chunk e chunk_index d"


section \<open>The dispatcher\<close>

definition DATA_FIRST :: byte where "DATA_FIRST = 0x00"
definition DATA_MORE :: byte where "DATA_MORE = 0x01"
definition DATA_LAST :: byte where "DATA_LAST = 0x02"

lemmas data_defs = DATA_FIRST_def DATA_MORE_def DATA_LAST_def

definition command_buffer :: "command_t \<Rightarrow> buffer_t" where
  "command_buffer cmd = \<lparr>buf_ptr = cmd_data cmd, buf_size = ucast (cmd_lc cmd), buf_offset = 0\<rparr>"

text \<open>
  The parameter bytes are compared as C compares them: promoted to \<open>int\<close>, so that the test
  \<open>cmd->p2 < 0\<close> is never true.
\<close>

definition apdu_dispatcher :: "env \<Rightarrow> command_t \<Rightarrow> device \<Rightarrow> (int \<times> device) option" where
  "apdu_dispatcher e cmd d =
     (if cmd_cla cmd \<noteq> APDU_CLA then Some (io_send_sw e SW_CLA_NOT_SUPPORTED d)
      else if cmd_ins cmd = GET_VERSION then
        (if cmd_p1 cmd \<noteq> 0 \<or> cmd_p2 cmd \<noteq> 0 then Some (io_send_sw e SW_WRONG_P1P2 d)
         else Some (handler_get_version e d))
      else if cmd_ins cmd = GET_APP_NAME then
        (if cmd_p1 cmd \<noteq> 0 \<or> cmd_p2 cmd \<noteq> 0 then Some (io_send_sw e SW_WRONG_P1P2 d)
         else Some (handler_get_app_name e d))
      else if cmd_ins cmd = GET_PUBLIC_KEY then
        (if cmd_p1 cmd > 1 \<or> cmd_p2 cmd > 11 then Some (io_send_sw e SW_WRONG_P1P2 d)
         else if cmd_p2 cmd > 0 then handler_get_public_key_chunk e (cmd_p2 cmd - 1) d
         else if cmd_data cmd = None then Some (io_send_sw e SW_WRONG_DATA_LENGTH d)
         else handler_get_public_key e (command_buffer cmd) (cmd_p1 cmd \<noteq> 0) d)
      else if cmd_ins cmd = SIGN_TX then
        (if cmd_p1 cmd \<noteq> DATA_FIRST \<and> cmd_p1 cmd \<noteq> DATA_MORE \<and> cmd_p1 cmd \<noteq> DATA_LAST \<and>
            uint (cmd_p2 cmd) < 0 \<and> uint (cmd_p2 cmd) > 17
         then Some (io_send_sw e SW_WRONG_P1P2 d)
         else if cmd_data cmd = None \<and> cmd_p2 cmd = 0 then Some (io_send_sw e SW_WRONG_DATA_LENGTH d)
         else handler_sign_tx e (command_buffer cmd) (cmd_p1 cmd) (cmd_p2 cmd) d)
      else Some (io_send_sw e SW_INS_NOT_SUPPORTED d))"


section \<open>The main loop\<close>

text \<open>Before the loop: the menu, then the context is reset.\<close>

definition app_main_start :: "env \<Rightarrow> device \<Rightarrow> device" where
  "app_main_start e d = bzero_ctx e (ui_menu_main e d)"

text \<open>\<open>io_recv_command\<close> fails: the main loop returns.\<close>

definition app_main_recv_failure :: "device \<Rightarrow> device" where
  "app_main_recv_failure d = d\<lparr>exited := True\<rparr>"

text \<open>One round on a received command: parse it, dispatch it, leave on a negative result.\<close>

definition app_main_round :: "env \<Rightarrow> bytes \<Rightarrow> device \<Rightarrow> device option" where
  "app_main_round e apdu d =
     (case apdu_parser e apdu of
        None \<Rightarrow> Some (snd (io_send_sw e SW_WRONG_DATA_LENGTH d))
      | Some cmd \<Rightarrow> do {
          (r, d1) \<leftarrow> apdu_dispatcher e cmd d;
          Some (if r < 0 then d1\<lparr>exited := True\<rparr> else d1) })"


section \<open>Which commands are refused\<close>

text \<open>
  C21. The dispatcher: a wrong class, an unknown instruction, and parameters or a missing
  data field that an instruction does not take are each answered with their one error status and
  change nothing else. The parameter test of SIGN_TX accepts every pair of parameter bytes (it
  requires P2 to be negative), so they all reach the handler.
\<close>

theorem dispatcher_errors:
  "(cmd_cla cmd \<noteq> 0xE0 \<longrightarrow> apdu_dispatcher e cmd d = Some (io_send_sw e SW_CLA_NOT_SUPPORTED d)) \<and>
   (cmd_cla cmd = 0xE0 \<and> cmd_ins cmd \<notin> {3, 4, 5, 6} \<longrightarrow>
      apdu_dispatcher e cmd d = Some (io_send_sw e SW_INS_NOT_SUPPORTED d)) \<and>
   (cmd_cla cmd = 0xE0 \<and> cmd_ins cmd \<in> {3, 4} \<and> (cmd_p1 cmd \<noteq> 0 \<or> cmd_p2 cmd \<noteq> 0) \<longrightarrow>
      apdu_dispatcher e cmd d = Some (io_send_sw e SW_WRONG_P1P2 d)) \<and>
   (cmd_cla cmd = 0xE0 \<and> cmd_ins cmd = 5 \<and> (cmd_p1 cmd > 1 \<or> cmd_p2 cmd > 11) \<longrightarrow>
      apdu_dispatcher e cmd d = Some (io_send_sw e SW_WRONG_P1P2 d)) \<and>
   (cmd_cla cmd = 0xE0 \<and> (cmd_ins cmd = 5 \<and> cmd_p1 cmd \<le> 1 \<or> cmd_ins cmd = 6) \<and> cmd_p2 cmd = 0 \<and> cmd_data cmd = None \<longrightarrow>
      apdu_dispatcher e cmd d = Some (io_send_sw e SW_WRONG_DATA_LENGTH d)) \<and>
   (cmd_cla cmd = 0xE0 \<and> cmd_ins cmd = 6 \<and> (cmd_data cmd \<noteq> None \<or> cmd_p2 cmd \<noteq> 0) \<longrightarrow>
      apdu_dispatcher e cmd d = handler_sign_tx e (command_buffer cmd) (cmd_p1 cmd) (cmd_p2 cmd) d)"
proof -
  have ins: "GET_VERSION = 3" "GET_APP_NAME = 4" "GET_PUBLIC_KEY = 5" "SIGN_TX = 6" "APDU_CLA = 0xE0"
    by (simp_all add: ins_defs APDU_CLA_def)
  have never: "\<not> (p \<and> uint (cmd_p2 cmd) < 0 \<and> q)" for p q by simp
  show ?thesis
    by (intro conjI impI) (auto simp: apdu_dispatcher_def ins never not_less not_le)
qed

theorem dispatcher_errors_witness:
  "apdu_dispatcher sample_env \<lparr>cmd_cla = 0xE0, cmd_ins = 6, cmd_p1 = 9, cmd_p2 = 0, cmd_lc = 1, cmd_data = Some [1]\<rparr> start_device =
     Some (io_send_sw sample_env SW_WRONG_P1P2 start_device) \<and>
   apdu_dispatcher sample_env \<lparr>cmd_cla = 0xE0, cmd_ins = 7, cmd_p1 = 0, cmd_p2 = 0, cmd_lc = 0, cmd_data = None\<rparr> start_device =
     Some (io_send_sw sample_env SW_INS_NOT_SUPPORTED start_device)"
  using dispatcher_errors [of "\<lparr>cmd_cla = 0xE0, cmd_ins = 6, cmd_p1 = 9, cmd_p2 = 0, cmd_lc = 1, cmd_data = Some [1]\<rparr>"
      sample_env start_device]
    dispatcher_errors [of "\<lparr>cmd_cla = 0xE0, cmd_ins = 7, cmd_p1 = 0, cmd_p2 = 0, cmd_lc = 0, cmd_data = None\<rparr>"
      sample_env start_device]
  by (simp add: handler_sign_tx_def)
end
