(* ===== verification/Sign_Tx_Correct.thy ===== *)
theory Sign_Tx_Correct
  imports Sign_Tx
begin

text \<open>
  The SIGN_TX handler: what each phase of a request does on every branch, the collection of the
  chunks, the choice of the review, and the guards.
\<close>


section \<open>Receiving a chunk\<close>

definition chunk_buffer :: "bytes \<Rightarrow> buffer_t" where
  "chunk_buffer c = \<lparr>buf_ptr = Some c, buf_size = of_nat (length c), buf_offset = 0\<rparr>"

lemma chunk_buffer_rest: "length c < 2 ^ 32 \<Longrightarrow> buffer_rest (chunk_buffer c) = c"
  by (simp add: chunk_buffer_def buffer_rest_def unat_of_nat_size_t)

lemma wf_device_tx:
  "wf_device e d \<Longrightarrow> length (raw_tx (tx_info (ctx d))) = 2048 \<and> unat (raw_tx_len (tx_info (ctx d))) \<le> 2048 \<and>
     wf_tx_info (tx_info (ctx d))"
  by (simp add: wf_device_def wf_ctx_def wf_tx_info_def size_consts)

lemma wf_set_tx_info: "wf_device e d \<Longrightarrow> wf_tx_info t \<Longrightarrow> wf_device e (set_tx_info t d)"
  by (simp add: wf_device_def wf_ctx_def set_tx_info_def)

text \<open>The device after a chunk \<open>out\<close> has been written at the end of the transaction.\<close>

definition appended :: "bytes \<Rightarrow> device \<Rightarrow> device" where
  "appended out d = (let t = tx_info (ctx d); n = unat (raw_tx_len t) in
     set_tx_info (t\<lparr>raw_tx := take n (raw_tx t) @ out @ drop (n + length out) (raw_tx t),
                   raw_tx_len := raw_tx_len t + of_nat (length out)\<rparr>) d)"

lemma recv_chunk_result:
  assumes e: "env_lengths e" and wf: "wf_device e d" and sz: "unat (buf_size cdata) \<le> 255"
  shows "\<exists>r d'. recv_chunk e cdata d = Some (r, d') \<and>
    (r = None \<longrightarrow> req_type (ctx d) = CONFIRM_TRANSACTION \<and> g_state (ctx d) = STATE_NONE \<and>
       unat (raw_tx_len (tx_info (ctx d))) + unat (buf_size cdata) \<le> 2048 \<and>
       (\<exists>out. length out = unat (buf_size cdata) \<and> d' = appended out d)) \<and>
    (r \<noteq> None \<longrightarrow> (\<exists>raw. length raw = 2048 \<and>
       take (unat (raw_tx_len (tx_info (ctx d)))) raw = take (unat (raw_tx_len (tx_info (ctx d)))) (raw_tx (tx_info (ctx d))) \<and>
       d' = set_tx_info ((tx_info (ctx d))\<lparr>raw_tx := raw\<rparr>) d))"
proof -
  let ?t = "tx_info (ctx d)"
  let ?n = "unat (raw_tx_len ?t)"
  let ?k = "unat (buf_size cdata)"
  have t: "length (raw_tx ?t) = 2048" "?n \<le> 2048" using wf_device_tx [OF wf] by simp_all
  have u: "unat (raw_tx_len ?t + buf_size cdata) = ?n + ?k" using t sz by (simp add: unat_add_size_t)
  have self: "d = set_tx_info (?t\<lparr>raw_tx := raw_tx ?t\<rparr>) d" by (simp add: set_tx_info_def)
  show ?thesis
  proof (cases "req_type (ctx d) \<noteq> CONFIRM_TRANSACTION \<or> g_state (ctx d) \<noteq> STATE_NONE \<or> ?n + ?k > 2048")
    case True
    then have "recv_chunk e cdata d = Some (Some (if req_type (ctx d) \<noteq> CONFIRM_TRANSACTION \<or>
        g_state (ctx d) \<noteq> STATE_NONE then SW_BAD_STATE else SW_WRONG_TX_LENGTH), d)"
      using u by (simp add: recv_chunk_def MAX_TRANSACTION_LEN_def Let_def)
    then show ?thesis using self t(1) by auto
  next
    case False
    let ?dst = "take ?k (drop ?n (raw_tx ?t))"
    obtain ok out c1 where m: "buffer_move e cdata ?dst = (ok, out, c1)" by (metis prod_cases3)
    have lo: "length out = ?k"
      using e m t False unfolding env_lengths_def by (metis fst_conv snd_conv length_take length_drop min_absorb2 le_diff_conv2 add.commute not_less)
    have r: "read_block (raw_tx ?t) ?n ?k = Some ?dst" using t False by (simp add: mem_simps)
    let ?raw = "take ?n (raw_tx ?t) @ out @ drop (?n + length out) (raw_tx ?t)"
    have w: "write_block (raw_tx ?t) ?n out = Some ?raw" using t False lo by (simp add: mem_simps)
    have k: "(of_nat (length out) :: size_t) = buf_size cdata" by (simp add: lo)
    have lraw: "length ?raw = 2048" using t False lo by simp
    have c: "recv_chunk e cdata d = (if ok then Some (None, appended out d)
        else Some (Some SW_TX_PARSING_FAIL, set_tx_info (?t\<lparr>raw_tx := ?raw\<rparr>) d))"
      using False u by (simp add: recv_chunk_def MAX_TRANSACTION_LEN_def Let_def r m w appended_def k)
    have traw: "take ?n ?raw = take ?n (raw_tx ?t)" using t by simp
    have "\<exists>raw. length raw = 2048 \<and> take ?n raw = take ?n (raw_tx ?t) \<and>
        set_tx_info (?t\<lparr>raw_tx := ?raw\<rparr>) d = set_tx_info (?t\<lparr>raw_tx := raw\<rparr>) d"
      by (rule exI [of _ ?raw]) (simp only: lraw traw simp_thms)
    then show ?thesis using False lo unfolding c by (cases ok) (simp, blast, simp)
  qed
qed

lemma wf_appended:
  assumes "wf_device e d" "unat (raw_tx_len (tx_info (ctx d))) + length out \<le> 2048"
  shows "wf_device e (appended out d)"
proof -
  have "unat (raw_tx_len (tx_info (ctx d)) + of_nat (length out)) = unat (raw_tx_len (tx_info (ctx d))) + length out"
    using assms(2) by (simp add: unat_add_size_t unat_of_nat_size_t)
  then show ?thesis
    using assms wf_device_tx [OF assms(1)] unfolding appended_def Let_def
    by (intro wf_set_tx_info) (simp_all add: wf_tx_info_def MAX_TRANSACTION_LEN_def)
qed

text \<open>What the SDK's copy stores when it behaves as documented: the chunk itself.\<close>

lemma recv_chunk_copies:
  assumes b: "buffers_ok e" and wf: "wf_device e d" and c: "length c \<le> 255"
    and st: "req_type (ctx d) = CONFIRM_TRANSACTION" "g_state (ctx d) = STATE_NONE"
  shows "recv_chunk e (chunk_buffer c) d =
    (if unat (raw_tx_len (tx_info (ctx d))) + length c \<le> 2048 then Some (None, appended c d)
     else Some (Some SW_WRONG_TX_LENGTH, d))"
proof -
  let ?t = "tx_info (ctx d)"
  let ?n = "unat (raw_tx_len ?t)"
  have t: "length (raw_tx ?t) = 2048" "?n \<le> 2048" using wf_device_tx [OF wf] by simp_all
  have sz: "buf_size (chunk_buffer c) = of_nat (length c)" by (simp add: chunk_buffer_def)
  have u: "unat (of_nat (length c) :: size_t) = length c" using c by (simp add: unat_of_nat_size_t)
  have s: "unat (raw_tx_len ?t + of_nat (length c)) = ?n + length c" using t c u by (simp add: unat_add_size_t)
  show ?thesis
  proof (cases "?n + length c \<le> 2048")
    case False
    then show ?thesis using st s by (simp add: recv_chunk_def sz MAX_TRANSACTION_LEN_def Let_def)
  next
    case True
    let ?dst = "take (length c) (drop ?n (raw_tx ?t))"
    have ld: "length ?dst = length c" using t True by simp
    have rest: "buffer_rest (chunk_buffer c) = c" using c by (simp add: chunk_buffer_rest)
    have "fst (buffer_move e (chunk_buffer c) ?dst)"
      "fst (snd (buffer_move e (chunk_buffer c) ?dst)) = c @ drop (length c) ?dst"
      using b ld unfolding buffers_ok_def by (simp_all add: rest)
    then obtain c1 where m: "buffer_move e (chunk_buffer c) ?dst = (True, c, c1)"
      using ld by (metis append_Nil2 drop_all order_refl prod.collapse)
    have r: "read_block (raw_tx ?t) ?n (length c) = Some ?dst" using t True by (simp add: mem_simps)
    have w: "write_block (raw_tx ?t) ?n c = Some (take ?n (raw_tx ?t) @ c @ drop (?n + length c) (raw_tx ?t))"
      using t True by (simp add: mem_simps)
    show ?thesis using True st s u
      by (simp add: recv_chunk_def sz MAX_TRANSACTION_LEN_def Let_def r m w appended_def)
  qed
qed

definition received :: "device \<Rightarrow> bytes" where
  "received d = take (unat (raw_tx_len (tx_info (ctx d)))) (raw_tx (tx_info (ctx d)))"

lemma appended_facts:
  assumes "wf_device e d" "unat (raw_tx_len (tx_info (ctx d))) + length c \<le> 2048"
  shows "received (appended c d) = received d @ c"
    "unat (raw_tx_len (tx_info (ctx (appended c d)))) = unat (raw_tx_len (tx_info (ctx d))) + length c"
    "req_type (ctx (appended c d)) = req_type (ctx d)" "g_state (ctx (appended c d)) = g_state (ctx d)"
    "bip32_path (ctx (appended c d)) = bip32_path (ctx d)" "bip32_path_len (ctx (appended c d)) = bip32_path_len (ctx d)"
    "sent (appended c d) = sent d" "nvm (appended c d) = nvm d" "on_screen (appended c d) = on_screen d"
proof -
  have t: "length (raw_tx (tx_info (ctx d))) = 2048" using wf_device_tx [OF assms(1)] by simp
  show u: "unat (raw_tx_len (tx_info (ctx (appended c d)))) = unat (raw_tx_len (tx_info (ctx d))) + length c"
    using assms(2) by (simp add: appended_def Let_def set_tx_info_def unat_add_size_t unat_of_nat_size_t)
  show "received (appended c d) = received d @ c"
    unfolding received_def u using assms(2) t by (simp add: appended_def Let_def set_tx_info_def)
qed (simp_all add: appended_def Let_def set_tx_info_def)

lemma sign_tx_more_ok:
  assumes "buffers_ok e" "wf_device e d" "length c \<le> 255"
    "req_type (ctx d) = CONFIRM_TRANSACTION" "g_state (ctx d) = STATE_NONE"
    "unat (raw_tx_len (tx_info (ctx d))) + length c \<le> 2048"
  shows "handler_sign_tx e (chunk_buffer c) 1 p2 d = Some (io_send_sw e SW_OK (appended c d))"
  using recv_chunk_copies [OF assms(1-5)] assms(6) by (simp add: handler_sign_tx_def sign_tx_more_def)

lemma send_chunks_result:
  assumes b: "buffers_ok e" and "wf_device e d" "req_type (ctx d) = CONFIRM_TRANSACTION" "g_state (ctx d) = STATE_NONE"
    "\<forall>c \<in> set chunks. length c \<le> 255" "length (received d @ concat chunks) \<le> 2048"
  shows "\<exists>d'. send_each (\<lambda>c. handler_sign_tx e (chunk_buffer c) 1 0) chunks d = Some d' \<and> wf_device e d' \<and>
    received d' = received d @ concat chunks \<and> sent d' = sent d @ replicate (length chunks) ([], SW_OK) \<and>
    req_type (ctx d') = CONFIRM_TRANSACTION \<and> g_state (ctx d') = STATE_NONE \<and>
    bip32_path (ctx d') = bip32_path (ctx d) \<and> bip32_path_len (ctx d') = bip32_path_len (ctx d) \<and>
    tx_data_of (tx_info (ctx d')) = tx_data_of (tx_info (ctx d)) \<and> nvm d' = nvm d"
  using assms(2-)
proof (induction chunks arbitrary: d)
  case Nil
  then show ?case by simp
next
  case (Cons c chunks)
  have n: "unat (raw_tx_len (tx_info (ctx d))) + length c \<le> 2048"
    using Cons.prems(5) wf_device_tx [OF Cons.prems(1)] by (simp add: received_def)
  let ?d = "snd (io_send_sw e SW_OK (appended c d))"
  note a = appended_facts [OF Cons.prems(1) n]
  have stp: "handler_sign_tx e (chunk_buffer c) 1 0 d = Some (io_send_sw e SW_OK (appended c d))"
    by (rule sign_tx_more_ok) (use assms(1) Cons.prems n in auto)
  have wf: "wf_device e ?d" using wf_appended [OF Cons.prems(1) n] by (simp add: wf_device_def dev_simps)
  have td: "tx_data_of (tx_info (ctx (appended c d))) = tx_data_of (tx_info (ctx d))"
    by (simp add: appended_def Let_def set_tx_info_def)
  have r: "received ?d = received d @ c" "sent ?d = sent d @ [([], SW_OK)]"
    "req_type (ctx ?d) = CONFIRM_TRANSACTION" "g_state (ctx ?d) = STATE_NONE" "bip32_path (ctx ?d) = bip32_path (ctx d)"
    "bip32_path_len (ctx ?d) = bip32_path_len (ctx d)" "tx_data_of (tx_info (ctx ?d)) = tx_data_of (tx_info (ctx d))"
    "nvm ?d = nvm d"
    using a td Cons.prems(2,3) by (simp_all add: dev_simps received_def)
  from Cons.IH [OF wf r(3,4)] Cons.prems(4,5) r show ?case by (simp add: stp)
qed

text \<open>
  C23. Streaming: in a request that is being collected, chunks of at most 255 bytes sent with P1 = 1
  are each answered with 9000 and the bytes collected are their concatenation after what was there,
  as long as the total stays within the 2048 bytes of the buffer (2048 itself included); the path,
  the decoded fields and the storage stay. From there a chunk that would exceed 2048 bytes, further
  (P1 = 1) or last (P1 = 2, P2 = 0), is answered with the wrong-length status and collects nothing.
\<close>

theorem sign_tx_collects_chunks:
  assumes "buffers_ok e" "wf_device e d" "req_type (ctx d) = CONFIRM_TRANSACTION" "g_state (ctx d) = STATE_NONE"
    "\<forall>c \<in> set chunks. length c \<le> 255" "length (received d @ concat chunks) \<le> 2048"
  shows "\<exists>d'. send_each (\<lambda>c. handler_sign_tx e (chunk_buffer c) 1 0) chunks d = Some d' \<and>
    received d' = received d @ concat chunks \<and> sent d' = sent d @ replicate (length chunks) ([], SW_OK) \<and>
    req_type (ctx d') = CONFIRM_TRANSACTION \<and> g_state (ctx d') = STATE_NONE \<and>
    bip32_path (ctx d') = bip32_path (ctx d) \<and> bip32_path_len (ctx d') = bip32_path_len (ctx d) \<and>
    tx_data_of (tx_info (ctx d')) = tx_data_of (tx_info (ctx d)) \<and> nvm d' = nvm d \<and>
    (\<forall>c p1 p2. length c \<le> 255 \<and> 2048 < length (received d' @ c) \<and> (p1 = 1 \<or> p1 = 2 \<and> p2 = 0) \<longrightarrow>
       handler_sign_tx e (chunk_buffer c) p1 p2 d' = Some (io_send_sw e SW_WRONG_TX_LENGTH d'))"
proof -
  obtain d' where d': "send_each (\<lambda>c. handler_sign_tx e (chunk_buffer c) 1 0) chunks d = Some d'" "wf_device e d'"
    "received d' = received d @ concat chunks" "sent d' = sent d @ replicate (length chunks) ([], SW_OK)"
    "req_type (ctx d') = CONFIRM_TRANSACTION" "g_state (ctx d') = STATE_NONE"
    "bip32_path (ctx d') = bip32_path (ctx d)" "bip32_path_len (ctx d') = bip32_path_len (ctx d)"
    "tx_data_of (tx_info (ctx d')) = tx_data_of (tx_info (ctx d))" "nvm d' = nvm d"
    using send_chunks_result [OF assms] by blast
  have "length (received d') = unat (raw_tx_len (tx_info (ctx d')))"
    using wf_device_tx [OF d'(2)] by (simp add: received_def)
  then have "handler_sign_tx e (chunk_buffer c) p1 p2 d' = Some (io_send_sw e SW_WRONG_TX_LENGTH d')"
    if "length c \<le> 255 \<and> 2048 < length (received d' @ c) \<and> (p1 = 1 \<or> p1 = 2 \<and> p2 = 0)" for c p1 p2
    using recv_chunk_copies [OF assms(1) d'(2) _ d'(5,6), of c] that
    by (auto simp: handler_sign_tx_def sign_tx_more_def sign_tx_last_def)
  then show ?thesis using d' by blast
qed

text \<open>Eight full chunks leave room for eight bytes: a ninth byte is one too many.\<close>

theorem sign_tx_collects_chunks_witness:
  "\<exists>d'. send_each (\<lambda>c. handler_sign_tx sample_env (chunk_buffer c) 1 0) (replicate 8 (replicate 255 1))
       (start_device\<lparr>ctx := (zero_ctx 10)\<lparr>req_type := CONFIRM_TRANSACTION\<rparr>\<rparr>) = Some d' \<and> length (received d') = 2040 \<and>
     handler_sign_tx sample_env (chunk_buffer (replicate 9 2)) 1 0 d' = Some (io_send_sw sample_env SW_WRONG_TX_LENGTH d')"
proof -
  let ?d = "start_device\<lparr>ctx := (zero_ctx 10)\<lparr>req_type := CONFIRM_TRANSACTION\<rparr>\<rparr>"
  have d: "wf_device sample_env ?d" "req_type (ctx ?d) = CONFIRM_TRANSACTION" "g_state (ctx ?d) = STATE_NONE" "received ?d = []"
    using wf_start_device by (simp_all add: wf_device_def start_device_def wf_ctx_def zero_ctx_def received_def zero_tx_info_def)
  have l: "length (concat (replicate 8 (replicate 255 (1 :: byte)))) = 2040"
    by (simp add: length_concat map_replicate sum_list_replicate)
  have c: "\<forall>c \<in> set (replicate 8 (replicate 255 (1 :: byte))). length c \<le> 255" by simp
  have "length (received ?d @ concat (replicate 8 (replicate 255 1))) \<le> 2048" using l d(4) by simp
  from sign_tx_collects_chunks [OF sample_buffers d(1-3) c this] obtain d' where
    "send_each (\<lambda>c. handler_sign_tx sample_env (chunk_buffer c) 1 0) (replicate 8 (replicate 255 1)) ?d = Some d'"
    and r: "received d' = concat (replicate 8 (replicate 255 1))"
    and h: "\<forall>c p1 p2. length c \<le> 255 \<and> 2048 < length (received d' @ c) \<and> (p1 = 1 \<or> p1 = 2 \<and> p2 = 0) \<longrightarrow>
       handler_sign_tx sample_env (chunk_buffer c) p1 p2 d' = Some (io_send_sw sample_env SW_WRONG_TX_LENGTH d')"
    unfolding d(4) append_Nil by blast
  moreover have "length (received d') = 2040" using l unfolding r .
  moreover from this have "2048 < length (received d' @ replicate 9 2)" by simp
  ultimately show ?thesis using h [rule_format, of "replicate 9 2" 1 0] by auto
qed


section \<open>Starting a request\<close>

text \<open>The device after P1 = 0, before the answer.\<close>

definition started :: "env \<Rightarrow> byte \<Rightarrow> u32 list \<Rightarrow> device \<Rightarrow> device" where
  "started e len path d = d\<lparr>
     nvm := (nvm d)\<lparr>nv_sig := replicate MLDSA87_SIGBYTES 0\<rparr>,
     ctx := (zero_ctx (max_bip32_path e))\<lparr>req_type := CONFIRM_TRANSACTION, bip32_path_len := len, bip32_path := path\<rparr>\<rparr>"

definition path_accepted :: "u32 list \<Rightarrow> byte \<Rightarrow> bool" where
  "path_accepted path len \<longleftrightarrow> zond_path (take (unat len) path)"

lemma sign_tx_first_result:
  assumes e: "env_lengths e" and b: "buffers_ok e"
  shows "\<exists>len path sw. sign_tx_first e cdata d = Some (io_send_sw e sw (started e len path d)) \<and>
    length path = max_bip32_path e \<and> (sw = SW_OK \<or> sw = SW_WRONG_DATA_LENGTH) \<and>
    (sw = SW_OK \<longrightarrow> path_accepted path len)"
proof -
  let ?z = "zero_ctx (max_bip32_path e)"
  obtain ok1 len c1 where r1: "buffer_read_u8 e cdata (0 :: byte) = (ok1, len, c1)" by (metis prod_cases3)
  obtain ok2 path c2 where r2: "buffer_read_bip32_path e c1 (replicate (max_bip32_path e) 0) (ucast len) = (ok2, path, c2)"
    by (metis prod_cases3)
  have z: "bip32_path_len ?z = 0" "bip32_path ?z = replicate (max_bip32_path e) 0" "g_state ?z = STATE_NONE"
    by (simp_all add: zero_ctx_def)
  have zs: "?z\<lparr>req_type := r, g_state := STATE_NONE, bip32_path_len := l, bip32_path := p\<rparr> =
      ?z\<lparr>req_type := r, bip32_path_len := l, bip32_path := p\<rparr>" for r l p
    by (simp add: zero_ctx_def)
  have lp: "length path = max_bip32_path e"
    using e r2 unfolding env_lengths_def by (metis fst_conv snd_conv length_replicate)
  have ul: "unat (ucast len :: size_t) = unat len" by (rule unat_ucast_byte)
  show ?thesis
  proof (cases "ok1 \<and> ok2")
    case True
    then have "unat (ucast len :: size_t) \<le> max_bip32_path e"
      using b r2 unfolding buffers_ok_def by (metis fst_conv length_replicate)
    then have v: "is_valid_zond_bip32_path path (ucast len) = Some (path_accepted path len)"
      using is_valid_path_result [of "ucast len" path] lp by (simp add: path_accepted_def ul)
    show ?thesis using True lp
      by (intro exI [of _ len] exI [of _ path] exI [of _ "if path_accepted path len then SW_OK else SW_WRONG_DATA_LENGTH"])
        (simp add: sign_tx_first_def bzero_ctx_def Let_def z r1 r2 v started_def zs sw_defs)
  next
    case False
    show ?thesis
    proof (cases ok1)
      case True
      then show ?thesis using False lp
        by (intro exI [of _ len] exI [of _ path] exI [of _ SW_WRONG_DATA_LENGTH])
          (simp add: sign_tx_first_def bzero_ctx_def Let_def z r1 r2 started_def zs sw_defs)
    next
      case n: False
      have zz: "?z\<lparr>req_type := CONFIRM_TRANSACTION, g_state := STATE_NONE, bip32_path_len := len\<rparr> =
          ?z\<lparr>req_type := CONFIRM_TRANSACTION, bip32_path_len := len, bip32_path := replicate (max_bip32_path e) 0\<rparr>"
        by (simp add: zero_ctx_def)
      show ?thesis using n
        by (intro exI [of _ len] exI [of _ "replicate (max_bip32_path e) 0"] exI [of _ SW_WRONG_DATA_LENGTH])
          (simp add: sign_tx_first_def bzero_ctx_def Let_def z r1 started_def sw_defs zz)
    qed
  qed
qed

lemma wf_started: "wf_device e d \<Longrightarrow> length path = max_bip32_path e \<Longrightarrow> wf_device e (started e len path d)"
  using wf_zero_ctx [of "max_bip32_path e"]
  by (simp add: wf_device_def started_def wf_ctx_def wf_nvm_def)

lemma sign_tx_path_result:
  assumes e: "env_lengths e" "buffers_ok e"
    and r1: "buffer_read_u8 e cdata 0 = (True, len, c1)"
    and r2: "buffer_read_bip32_path e c1 (replicate (max_bip32_path e) 0) (ucast len) = (True, path, c2)"
  shows "handler_sign_tx e cdata 0 p2 d =
    Some (io_send_sw e (if zond_path (take (unat len) path) then SW_OK else SW_WRONG_DATA_LENGTH) (started e len path d))"
    and "length path = max_bip32_path e"
proof -
  let ?z = "zero_ctx (max_bip32_path e)"
  show lp: "length path = max_bip32_path e"
    using e(1) r2 unfolding env_lengths_def by (metis fst_conv snd_conv length_replicate)
  have "unat (ucast len :: size_t) \<le> max_bip32_path e"
    using e(2) r2 unfolding buffers_ok_def by (metis fst_conv length_replicate)
  then have v: "is_valid_zond_bip32_path path (ucast len) = Some (zond_path (take (unat len) path))"
    using is_valid_path_result [of "ucast len" path] lp by (simp add: unat_ucast_byte)
  have z: "bip32_path_len ?z = 0" "bip32_path ?z = replicate (max_bip32_path e) 0"
    "?z\<lparr>req_type := r, g_state := STATE_NONE, bip32_path_len := l, bip32_path := p\<rparr> =
      ?z\<lparr>req_type := r, bip32_path_len := l, bip32_path := p\<rparr>" for r l p
    by (simp_all add: zero_ctx_def)
  show "handler_sign_tx e cdata 0 p2 d =
      Some (io_send_sw e (if zond_path (take (unat len) path) then SW_OK else SW_WRONG_DATA_LENGTH) (started e len path d))"
    by (simp add: handler_sign_tx_def sign_tx_first_def bzero_ctx_def Let_def z r1 r2 v started_def)
qed

lemma started_facts:
  fixes sw d len path e
  defines "d1 \<equiv> snd (io_send_sw e sw (started e len path d))"
  shows "req_type (ctx d1) = CONFIRM_TRANSACTION" "g_state (ctx d1) = STATE_NONE" "received d1 = []"
    "raw_tx_len (tx_info (ctx d1)) = 0" "bip32_path (ctx d1) = path" "bip32_path_len (ctx d1) = len"
    "sent d1 = sent d @ [([], sw)]" "tx_data_of (tx_info (ctx d1)) = zero_tx"
    "nvm d1 = (nvm d)\<lparr>nv_sig := replicate MLDSA87_SIGBYTES 0\<rparr>"
    "wf_device e d \<Longrightarrow> length path = max_bip32_path e \<Longrightarrow> wf_device e d1"
  using wf_started [of e d path len]
  by (simp_all add: d1_def dev_simps started_def zero_ctx_def zero_tx_info_def received_def wf_device_def)

definition path_data :: "byte \<Rightarrow> bytes" where
  "path_data coin = [5, 0x80, 0, 0, 0x2C, 0x80, 0, 0, coin, 0x80, 0, 0, 0, 0, 0, 0, 0, 0, 0, 0, 0]"

definition sample_path :: "u32 list" where
  "sample_path = [0x8000002C, 0x800000EE, 0x80000000, 0, 0] @ replicate 5 0"

lemma sample_path_read:
  "buffer_read_u8 sample_env (chunk_buffer (path_data 0xEE)) 0 = (True, 5, (chunk_buffer (path_data 0xEE))\<lparr>buf_offset := 1\<rparr>)"
  "\<exists>c2. buffer_read_bip32_path sample_env ((chunk_buffer (path_data 0xEE))\<lparr>buf_offset := 1\<rparr>)
     (replicate (max_bip32_path sample_env) 0) (ucast (5 :: byte)) = (True, sample_path, c2)"
  "zond_path (take (unat (5 :: byte)) sample_path)"
  "os_derive_bip32_no_throw sample_env sample_path (ucast (5 :: byte)) (replicate 64 0) = (CX_OK, replicate 64 7)"
  by (simp_all add: sample_env_def chunk_buffer_def path_data_def buffer_rest_def u32_be_def be_simps sample_path_def
      zond_path_def)

text \<open>
  C24. Starting a request wipes everything left of the previous one (context and stored signature)
  and sends one status; it is 9000 only when the path that was read is an accepted derivation path,
  and the context then holds that path and an empty transaction.
\<close>

theorem sign_tx_start:
  assumes "env_lengths e" "buffers_ok e"
  shows "\<exists>r d' len path sw. handler_sign_tx e cdata 0 p2 d = Some (r, d') \<and> sent d' = sent d @ [([], sw)] \<and>
    ctx d' = (zero_ctx (max_bip32_path e))
      \<lparr>req_type := CONFIRM_TRANSACTION, bip32_path_len := len, bip32_path := path\<rparr> \<and>
    nv_sig (nvm d') = replicate 4627 0 \<and> (sw = SW_OK \<or> sw = SW_WRONG_DATA_LENGTH) \<and>
    (sw = SW_OK \<longrightarrow> zond_path (take (unat len) path))"
proof -
  obtain len path sw where "sign_tx_first e cdata d = Some (io_send_sw e sw (started e len path d))"
    "sw = SW_OK \<or> sw = SW_WRONG_DATA_LENGTH" "sw = SW_OK \<longrightarrow> path_accepted path len"
    using sign_tx_first_result [OF assms] by blast
  then show ?thesis
    by (auto simp: handler_sign_tx_def dev_simps started_def path_accepted_def MLDSA87_SIGBYTES_def
        intro!: exI [of _ len] exI [of _ path])
qed

theorem sign_tx_start_witness:
  "\<exists>r d' sw. handler_sign_tx sample_env (chunk_buffer (path_data 0xEE)) 0 0 start_device = Some (r, d') \<and>
     sent d' = [([], sw)] \<and> nv_sig (nvm d') = replicate 4627 0"
  using sign_tx_start [OF sample_lengths sample_buffers, of "chunk_buffer (path_data 0xEE)" 0 start_device]
  by (auto simp: start_device_def)

text \<open>
  C25. A rejected path does not end the request: after P1 = 0 with a path the check refuses, the
  error status is sent, but the context keeps the refused path in the state of a started request,
  and the next chunk is accepted with 9000.
\<close>

theorem rejected_path_keeps_streaming:
  assumes e: "env_lengths e" "buffers_ok e" and wf: "wf_device e d" and c: "length c \<le> 255"
    and r1: "buffer_read_u8 e cdata 0 = (True, len, c1)"
    and r2: "buffer_read_bip32_path e c1 (replicate (max_bip32_path e) 0) (ucast len) = (True, path, c2)"
    and bad: "\<not> zond_path (take (unat len) path)"
  shows "\<exists>r d1 r' d2. handler_sign_tx e cdata 0 p2 d = Some (r, d1) \<and>
    sent d1 = sent d @ [([], SW_WRONG_DATA_LENGTH)] \<and>
    handler_sign_tx e (chunk_buffer c) 1 p2' d1 = Some (r', d2) \<and> sent d2 = sent d1 @ [([], SW_OK)] \<and>
    received d2 = c \<and> bip32_path (ctx d2) = path \<and> bip32_path_len (ctx d2) = len"
proof -
  let ?s = "started e len path d"
  let ?d1 = "snd (io_send_sw e SW_WRONG_DATA_LENGTH ?s)"
  note lp = sign_tx_path_result(2) [OF e r1 r2]
  have h1: "handler_sign_tx e cdata 0 p2 d = Some (io_send_sw e SW_WRONG_DATA_LENGTH ?s)"
    using sign_tx_path_result(1) [OF e r1 r2, of p2 d] bad by simp
  note s = started_facts [where e = e and sw = SW_WRONG_DATA_LENGTH and len = len and path = path and d = d]
  note wf1 = s(10) [OF wf lp]
  have n: "unat (raw_tx_len (tx_info (ctx ?d1))) + length c \<le> 2048" unfolding s(4) using c by simp
  have h2: "handler_sign_tx e (chunk_buffer c) 1 p2' ?d1 = Some (io_send_sw e SW_OK (appended c ?d1))"
    by (rule sign_tx_more_ok [OF e(2) wf1 c s(1,2) n])
  note a = appended_facts [OF wf1 n]
  have f: "received (snd (io_send_sw e SW_OK (appended c ?d1))) = c"
    "bip32_path (ctx (snd (io_send_sw e SW_OK (appended c ?d1)))) = path"
    "bip32_path_len (ctx (snd (io_send_sw e SW_OK (appended c ?d1)))) = len"
    "sent (snd (io_send_sw e SW_OK (appended c ?d1))) = sent ?d1 @ [([], SW_OK)]"
    using a s by (simp_all add: io_send_sw_def io_send_response_def received_def)
  show ?thesis
    by (rule exI [of _ "fst (io_send_sw e SW_WRONG_DATA_LENGTH ?s)"], rule exI [of _ ?d1],
        rule exI [of _ "fst (io_send_sw e SW_OK (appended c ?d1))"],
        rule exI [of _ "snd (io_send_sw e SW_OK (appended c ?d1))"]) (simp only: h1 h2 s(7) f prod.collapse simp_thms)
qed

theorem rejected_path_keeps_streaming_witness:
  "\<exists>r d1 r' d2. handler_sign_tx sample_env (chunk_buffer (path_data 0x3C)) 0 0 start_device = Some (r, d1) \<and>
     sent d1 = [([], SW_WRONG_DATA_LENGTH)] \<and>
     handler_sign_tx sample_env (chunk_buffer [2, 0xe4]) 1 0 d1 = Some (r', d2) \<and> received d2 = [2, 0xe4]"
proof -
  let ?c = "chunk_buffer (path_data 0x3C)"
  let ?path = "[0x8000002C, 0x8000003C, 0x80000000, 0, 0] @ replicate 5 0 :: u32 list"
  have r1: "buffer_read_u8 sample_env ?c 0 = (True, 5, ?c\<lparr>buf_offset := 1\<rparr>)"
    by (simp add: sample_env_def chunk_buffer_def path_data_def buffer_rest_def)
  have "\<exists>c2. buffer_read_bip32_path sample_env (?c\<lparr>buf_offset := 1\<rparr>) (replicate 10 0) 5 = (True, ?path, c2)"
    by (simp add: sample_env_def chunk_buffer_def path_data_def buffer_rest_def u32_be_def be_simps)
  then obtain c2 where r2: "buffer_read_bip32_path sample_env (?c\<lparr>buf_offset := 1\<rparr>)
      (replicate (max_bip32_path sample_env) 0) (ucast (5 :: byte)) = (True, ?path, c2)"
    by (auto simp: sample_env_def)
  have bad: "\<not> zond_path (take (unat (5 :: byte)) ?path)" by (simp add: zond_path_def)
  show ?thesis
    using rejected_path_keeps_streaming [OF sample_lengths sample_buffers wf_start_device _ r1 r2 bad, of "[2, 0xe4]" 0 0]
    by (auto simp: start_device_def)
qed


section \<open>Which review a transaction gets\<close>

definition calldata_bytes :: "device \<Rightarrow> bytes" where
  "calldata_bytes d = take (unat (tx_data_len (tx_data_of (tx_info (ctx d))))) (tx_data (tx_data_of (tx_info (ctx d))))"

definition with_calldata :: "abi_calldata_t \<Rightarrow> device \<Rightarrow> device" where
  "with_calldata cd d = set_tx_info ((tx_info (ctx d))\<lparr>calldata_of := cd\<rparr>) d"

lemma unat_ucast_u16: "unat (ucast (w :: u16) :: size_t) = unat w"
proof -
  have "unat w < 65536" using unsigned_less [of w, where 'a = nat] by simp
  then show ?thesis by (simp add: unsigned_ucast_eq take_bit_nat_eq_self)
qed

lemma route_parsed:
  assumes wf: "wf_device e d" and len: "tx_data_len (tx_data_of (tx_info (ctx d))) \<le> 2048"
    and on: "tx_data_len (tx_data_of (tx_info (ctx d))) \<noteq> 0" "enable_blind_signing (nvm d) \<noteq> 0"
      "tx_to_len (tx_data_of (tx_info (ctx d))) \<noteq> 0" "enable_debug_smart_contract (nvm d) \<noteq> 0"
  shows "is_encoding (calldata_bytes d) sel slots \<Longrightarrow>
      route_review e d = ui_confirm_selector e (ui_contract_call_init (of_nat (min (length slots) 16))
        (with_calldata (parsed_calldata sel slots) d))"
    and "\<nexists>sel slots. is_encoding (calldata_bytes d) sel slots \<Longrightarrow>
      \<exists>cd. wf_calldata cd \<and> route_review e d = ui_display_transaction e (with_calldata cd d)"
proof -
  let ?tx = "tx_data_of (tx_info (ctx d))"
  let ?len = "ucast (tx_data_len ?tx) :: size_t"
  let ?old = "calldata_of (tx_info (ctx d))"
  have ld: "length (tx_data ?tx) = 2048"
    using wf_device_tx [OF wf] by (simp add: wf_tx_info_def wf_tx_def size_consts)
  have ul: "unat ?len = unat (tx_data_len ?tx)" by (rule unat_ucast_u16)
  have le: "unat ?len \<le> length (tx_data ?tx)" using len by (simp add: ul ld word_le_nat_alt)
  have cb: "calldata_bytes d = take (unat ?len) (tx_data ?tx)" by (simp add: calldata_bytes_def ul)
  have gt: "tx_data_len ?tx > 0" "tx_to_len ?tx > 0" using on by (simp_all add: word_gt_0)
  {
    assume "is_encoding (calldata_bytes d) sel slots"
    then have "abi_calldata_parse (Some (tx_data ?tx)) ?len (Some ?old) = Some (True, Some (parsed_calldata sel slots))"
      using abi_parse_accepts [OF _ le] cb by simp
    moreover have "cd_param_count (parsed_calldata sel slots) = of_nat (min (length slots) 16)"
      by (simp add: parsed_calldata_def size_consts)
    ultimately show "route_review e d = ui_confirm_selector e (ui_contract_call_init (of_nat (min (length slots) 16))
        (with_calldata (parsed_calldata sel slots) d))"
      using on gt by (simp add: route_review_def with_calldata_def Let_def)
  next
    assume "\<nexists>sel slots. is_encoding (calldata_bytes d) sel slots"
    then obtain cd where "abi_calldata_parse (Some (tx_data ?tx)) ?len (Some ?old) = Some (False, Some cd)" "wf_calldata cd"
      using abi_parse_rejects [OF _ le, of ?old] cb by auto
    then show "\<exists>cd. wf_calldata cd \<and> route_review e d = ui_display_transaction e (with_calldata cd d)"
      using on gt by (auto simp: route_review_def with_calldata_def Let_def)
  }
qed

text \<open>
  C16. Which review a decoded transaction gets. Without data: the clear review. With data and blind
  signing off: no review, the error page and the failure status. With data and blind signing on:
  the blind review; with contract debugging also on and a recipient, the selector and parameter
  pages when the data is well-formed calldata, and otherwise the clear review, without the
  blind-signing warning.
\<close>

theorem route_review_table:
  assumes wf: "wf_device e d" and tx: "tx = tx_data_of (tx_info (ctx d))" "tx_data_len tx \<le> 2048"
  shows "(tx_data_len tx = 0 \<longrightarrow> route_review e d = ui_display_transaction e d) \<and>
    (tx_data_len tx \<noteq> 0 \<and> enable_blind_signing (nvm d) = 0 \<longrightarrow>
      route_review e d = Some (io_send_sw e SW_SIGNATURE_FAIL (ui_error_blind_signing e d))) \<and>
    (tx_data_len tx \<noteq> 0 \<and> enable_blind_signing (nvm d) \<noteq> 0 \<and>
       (tx_to_len tx = 0 \<or> enable_debug_smart_contract (nvm d) = 0) \<longrightarrow>
      route_review e d = ui_display_blind_signed_transaction e d) \<and>
    (tx_data_len tx \<noteq> 0 \<and> enable_blind_signing (nvm d) \<noteq> 0 \<and> tx_to_len tx \<noteq> 0 \<and>
       enable_debug_smart_contract (nvm d) \<noteq> 0 \<longrightarrow>
      (\<forall>sel slots. is_encoding (calldata_bytes d) sel slots \<longrightarrow>
        route_review e d = ui_confirm_selector e (ui_contract_call_init (of_nat (min (length slots) 16))
          (with_calldata (parsed_calldata sel slots) d))) \<and>
      ((\<nexists>sel slots. is_encoding (calldata_bytes d) sel slots) \<longrightarrow>
        (\<exists>cd. wf_calldata cd \<and> route_review e d = ui_display_transaction e (with_calldata cd d))))"
proof (intro conjI impI allI)
  assume "tx_data_len tx = 0"
  then show "route_review e d = ui_display_transaction e d" using tx by (simp add: route_review_def Let_def)
next
  assume "tx_data_len tx \<noteq> 0 \<and> enable_blind_signing (nvm d) = 0"
  then show "route_review e d = Some (io_send_sw e SW_SIGNATURE_FAIL (ui_error_blind_signing e d))"
    using tx by (simp add: route_review_def Let_def)
next
  assume "tx_data_len tx \<noteq> 0 \<and> enable_blind_signing (nvm d) \<noteq> 0 \<and>
       (tx_to_len tx = 0 \<or> enable_debug_smart_contract (nvm d) = 0)"
  then show "route_review e d = ui_display_blind_signed_transaction e d"
    using tx by (auto simp: route_review_def Let_def)
qed (use route_parsed [OF wf] tx in auto)

definition odd_calldata_device :: device where
  "odd_calldata_device = (parsed_device (small_tx\<lparr>tx_data_len := 5\<rparr>))
     \<lparr>nvm := zero_nvm\<lparr>enable_blind_signing := 1, enable_debug_smart_contract := 1\<rparr>\<rparr>"

theorem route_review_table_witness:
  "\<exists>cd. route_review sample_env odd_calldata_device =
     ui_display_transaction sample_env (with_calldata cd odd_calldata_device)"
proof -
  have b: "tx_in_bounds (small_tx\<lparr>tx_data_len := 5\<rparr>)"
    using sample_txs(1) by (simp add: tx_in_bounds_def wf_tx_def)
  have wf: "wf_device sample_env odd_calldata_device"
    using parsed_device_facts(1) [OF b] wf_zero_nvm by (simp add: odd_calldata_device_def wf_device_def wf_nvm_def)
  have t: "tx_data_of (tx_info (ctx odd_calldata_device)) = small_tx\<lparr>tx_data_len := 5\<rparr>"
    using parsed_device_facts(4) [OF b] by (simp add: odd_calldata_device_def)
  have l: "length (calldata_bytes odd_calldata_device) = 5"
    by (simp add: calldata_bytes_def t) (simp add: small_tx_def zero_tx_def MAX_DATA_SIZE_def)
  have no: "\<nexists>sel slots. is_encoding (calldata_bytes odd_calldata_device) sel slots"
    using is_encoding_length l by fastforce
  have s: "tx_to_len small_tx = 64" "enable_blind_signing (nvm odd_calldata_device) = 1"
    "enable_debug_smart_contract (nvm odd_calldata_device) = 1"
    by (simp_all add: small_tx_def odd_calldata_device_def)
  show ?thesis using route_review_table [OF wf t [symmetric]] no s by auto
qed


section \<open>The guards\<close>

text \<open>
  C22. Out of order requests change nothing: a chunk outside a started request, a signature chunk
  before an approval, and unknown parameters are answered with exactly one error status
  (bad state, or wrong parameters) and leave the rest of the device as it is.
\<close>

theorem sign_tx_guards:
  "((p1 = 1 \<or> p1 = 2 \<and> p2 = 0) \<and> (req_type (ctx d) \<noteq> CONFIRM_TRANSACTION \<or> g_state (ctx d) \<noteq> STATE_NONE) \<longrightarrow>
      handler_sign_tx e cdata p1 p2 d = Some (io_send_sw e SW_BAD_STATE d)) \<and>
   (p1 = 2 \<and> 0 < p2 \<and> p2 < 18 \<and> (req_type (ctx d) \<noteq> CONFIRM_TRANSACTION \<or> g_state (ctx d) \<noteq> STATE_APPROVED \<or>
        is_sending_signature (nvm d) = 0) \<longrightarrow>
      handler_sign_tx e cdata p1 p2 d = Some (io_send_sw e SW_BAD_STATE d)) \<and>
   (2 < p1 \<or> p1 = 2 \<and> 18 \<le> p2 \<longrightarrow>
      handler_sign_tx e cdata p1 p2 d = Some (io_send_sw e SW_WRONG_P1P2 d))"
proof (intro conjI impI)
  assume "2 < p1 \<or> p1 = 2 \<and> 18 \<le> p2"
  moreover have "p1 \<noteq> 0" "p1 \<noteq> 1" "p1 = 2 \<longrightarrow> p2 \<noteq> 0 \<and> \<not> p2 < 18"
    using calculation by (auto simp: word_less_nat_alt word_le_nat_alt)
  ultimately show "handler_sign_tx e cdata p1 p2 d = Some (io_send_sw e SW_WRONG_P1P2 d)"
    by (auto simp: handler_sign_tx_def)
qed (auto simp: handler_sign_tx_def sign_tx_signature_def sign_tx_more_def sign_tx_last_def recv_chunk_def)

theorem sign_tx_guards_witness:
  "handler_sign_tx sample_env (chunk_buffer [1, 2]) 1 0 start_device = Some (io_send_sw sample_env SW_BAD_STATE start_device) \<and>
   handler_sign_tx sample_env (chunk_buffer []) 2 18 start_device = Some (io_send_sw sample_env SW_WRONG_P1P2 start_device)"
  using sign_tx_guards [of 1 0 start_device sample_env "chunk_buffer [1, 2]"]
    sign_tx_guards [of 2 18 start_device sample_env "chunk_buffer []"]
  by (simp add: start_device_def zero_ctx_def)

end
