(* ===== verification/Public_Key.thy ===== *)
theory Public_Key
  imports Dispatcher Sign_Tx_Correct
begin

text \<open>
  The GET_PUBLIC_KEY command (\<open>src/handler/get_public_key.c\<close>) with what the user interface and
  \<open>validate_pubkey\<close> do on it.
\<close>

text \<open>The device with the path that was read, and with the key and address derived from it.\<close>

definition path_read :: "env \<Rightarrow> byte \<Rightarrow> u32 list \<Rightarrow> device \<Rightarrow> device" where
  "path_read e len path d = d\<lparr>nvm := (nvm d)\<lparr>nv_pk := replicate MLDSA87_PUBLICKEYBYTES 0\<rparr>,
     ctx := (zero_ctx (max_bip32_path e))\<lparr>bip32_path_len := len, bip32_path := path\<rparr>\<rparr>"

definition key_ready :: "env \<Rightarrow> (bytes \<Rightarrow> bytes) \<Rightarrow> byte \<Rightarrow> u32 list \<Rightarrow> bytes \<Rightarrow> device \<Rightarrow> device" where
  "key_ready e shake len path pk d = d\<lparr>
     ctx := (zero_ctx (max_bip32_path e))\<lparr>bip32_path_len := len, bip32_path := path, g_address := shake ([1, 0, 0] @ pk)\<rparr>,
     nvm := (nvm d)\<lparr>nv_pk := pk\<rparr>\<rparr>"

lemma get_public_key_path:
  assumes x: "xof_ok e st shake" and l: "env_lengths e" and b: "buffers_ok e"
    and r1: "buffer_read_u8 e cdata 0 = (True, len, c1)"
    and r2: "buffer_read_bip32_path e c1 (replicate (max_bip32_path e) 0) (ucast len) = (True, path, c2)"
  shows "length path = max_bip32_path e"
    and "\<not> zond_path (take (unat len) path) \<Longrightarrow>
      handler_get_public_key e cdata display d = Some (io_send_sw e SW_WRONG_DATA_LENGTH (path_read e len path d))"
    and "zond_path (take (unat len) path) \<Longrightarrow> key_of e path (ucast len) = None \<Longrightarrow>
      \<exists>sw. handler_get_public_key e cdata display d = Some (io_send_sw e sw (path_read e len path d))"
    and "zond_path (take (unat len) path) \<Longrightarrow> key_of e path (ucast len) = Some pk \<Longrightarrow>
      handler_get_public_key e cdata display d =
        (if display then ui_display_address e (key_ready e shake len path pk d)
         else helper_send_response_address e (key_ready e shake len path pk d))"
proof -
  let ?z = "zero_ctx (max_bip32_path e)"
  let ?n = "(nvm d)\<lparr>nv_pk := replicate MLDSA87_PUBLICKEYBYTES 0\<rparr>"
  show lp: "length path = max_bip32_path e" by (rule sign_tx_path_result(2) [OF l b r1 r2])
  have "unat (ucast len :: size_t) \<le> max_bip32_path e"
    using b r2 unfolding buffers_ok_def by (metis fst_conv length_replicate)
  then have v: "is_valid_zond_bip32_path path (ucast len) = Some (zond_path (take (unat len) path))"
    using is_valid_path_result [of "ucast len" path] lp by (simp add: unat_ucast_byte)
  have z: "bip32_path_len ?z = 0" "bip32_path ?z = replicate (max_bip32_path e) 0"
    "?z\<lparr>req_type := CONFIRM_ADDRESS, g_state := STATE_NONE\<rparr> = ?z"
    by (simp_all add: zero_ctx_def)
  have la: "length (g_address ?z) = ADDRESS_SIZE" by (simp add: zero_ctx_def)
  have same: "(?z\<lparr>bip32_path_len := len, bip32_path := path, g_address := g_address ?z\<rparr>) = ?z\<lparr>bip32_path_len := len, bip32_path := path\<rparr>"
    by (simp add: zero_ctx_def)
  note h = handler_get_public_key_def bzero_ctx_def Let_def path_read_def key_ready_def
  {
    assume "\<not> zond_path (take (unat len) path)"
    then show "handler_get_public_key e cdata display d = Some (io_send_sw e SW_WRONG_DATA_LENGTH (path_read e len path d))"
      by (simp add: h z r1 r2 v)
  next
    assume p: "zond_path (take (unat len) path)" and k: "key_of e path (ucast len) = None"
    obtain err where "address_from_bip32_path e path (ucast len) (g_address ?z) ?n = (err, g_address ?z, ?n)" "err \<noteq> CX_OK"
      using address_of_key(2) [OF x la k, of ?n] by blast
    then have "handler_get_public_key e cdata display d = Some (io_send_sw e (ucast err)
        (d\<lparr>ctx := ?z\<lparr>bip32_path_len := len, bip32_path := path\<rparr>, nvm := ?n\<rparr>))"
      using p by (simp add: h z r1 r2 v same)
    moreover have "d\<lparr>ctx := ?z\<lparr>bip32_path_len := len, bip32_path := path\<rparr>, nvm := ?n\<rparr> = path_read e len path d"
      by (simp add: path_read_def)
    ultimately have "handler_get_public_key e cdata display d = Some (io_send_sw e (ucast err) (path_read e len path d))"
      by simp
    then show "\<exists>sw. handler_get_public_key e cdata display d = Some (io_send_sw e sw (path_read e len path d))" by blast
  next
    assume p: "zond_path (take (unat len) path)" and k: "key_of e path (ucast len) = Some pk"
    show "handler_get_public_key e cdata display d =
        (if display then ui_display_address e (key_ready e shake len path pk d)
         else helper_send_response_address e (key_ready e shake len path pk d))"
      using p address_of_key(1) [OF x la k, of ?n] by (simp add: h z r1 r2 v)
  }
qed

lemma key_ready_facts:
  assumes "xof_ok e st shake" "env_lengths e" "wf_device e d" "length path = max_bip32_path e" "key_of e path (ucast len) = Some pk"
  shows "wf_device e (key_ready e shake len path pk d)"
    "read_block (g_address (ctx (key_ready e shake len path pk d))) 0 ADDRESS_SIZE = Some (shake ([1, 0, 0] @ pk))"
    "ui_display_address e (key_ready e shake len path pk d) =
      Some (0, show_screen (Address_Review (checksummed shake (shake ([1, 0, 0] @ pk)))) (key_ready e shake len path pk d))"
    "helper_send_response_address e (key_ready e shake len path pk d) =
      Some (io_send_response e (ZOND_ADDRESS_PREFIX # shake ([1, 0, 0] @ pk)) SW_OK (key_ready e shake len path pk d))"
proof -
  let ?d = "key_ready e shake len path pk d"
  have la: "length (shake ([1, 0, 0] @ pk)) = ADDRESS_SIZE" using assms(1) by (simp add: xof_ok_def)
  then show "wf_device e ?d"
    using assms(3,4) key_of_length [OF assms(2,5)] wf_zero_ctx [of "max_bip32_path e"]
    by (simp add: key_ready_def wf_device_def wf_ctx_def wf_nvm_def)
  show r: "read_block (g_address (ctx ?d)) 0 ADDRESS_SIZE = Some (shake ([1, 0, 0] @ pk))"
    using la by (simp add: key_ready_def mem_simps)
  show "ui_display_address e ?d = Some (0, show_screen (Address_Review (checksummed shake (shake ([1, 0, 0] @ pk)))) ?d)"
    using format_checksummed_address_ok [OF assms(1) la, of UI_BUFFER_SIZE]
    by (simp add: ui_display_address_def key_ready_def zero_ctx_def UI_BUFFER_SIZE_def)
  show "helper_send_response_address e ?d =
      Some (io_send_response e (ZOND_ADDRESS_PREFIX # shake ([1, 0, 0] @ pk)) SW_OK ?d)"
    using r by (simp add: helper_send_response_address_def)
qed

text \<open>
  C20. The public key command: a path that is not accepted is refused and the stored key is wiped;
  for an accepted path whose key can be derived, the key is stored and, without display, the answer
  is Q followed by the 64 bytes of its address; with display, the checksummed text of the same address is
  shown, nothing is sent until the user answers, and then the same bytes, or on refusal the denial
  status after which the context is wiped.
\<close>

theorem get_public_key_correct:
  assumes sdk: "xof_ok e st shake" "env_lengths e" "buffers_ok e" and wf: "wf_device e d"
    and path: "buffer_read_u8 e cdata 0 = (True, len, c1)"
      "buffer_read_bip32_path e c1 (replicate (max_bip32_path e) 0) (ucast len) = (True, path, c2)"
    and addr: "addr = shake ([1, 0, 0] @ pk)"
  shows "(\<not> zond_path (take (unat len) path) \<longrightarrow> (\<exists>r d'. handler_get_public_key e cdata display d = Some (r, d') \<and>
      sent d' = sent d @ [([], SW_WRONG_DATA_LENGTH)] \<and> nv_pk (nvm d') = replicate 2592 0)) \<and>
    (zond_path (take (unat len) path) \<and> key_of e path (ucast len) = Some pk \<longrightarrow>
      (\<exists>r d'. handler_get_public_key e cdata False d = Some (r, d') \<and> sent d' = sent d @ [(0x51 # addr, SW_OK)] \<and>
         nv_pk (nvm d') = pk) \<and>
      (\<exists>d' dy dn. handler_get_public_key e cdata True d = Some (0, d') \<and> sent d' = sent d \<and> nv_pk (nvm d') = pk \<and>
         on_screen d' = Address_Review (checksummed shake addr) \<and>
         address_review_choice e True d' = Some dy \<and> sent dy = sent d @ [(0x51 # addr, SW_OK)] \<and>
         address_review_choice e False d' = Some dn \<and> sent dn = sent d @ [([], SW_DENY)] \<and>
         ctx dn = zero_ctx (max_bip32_path e)))"
proof (intro conjI impI)
  note h = get_public_key_path [OF sdk path]
  assume "\<not> zond_path (take (unat len) path)"
  then show "\<exists>r d'. handler_get_public_key e cdata display d = Some (r, d') \<and>
      sent d' = sent d @ [([], SW_WRONG_DATA_LENGTH)] \<and> nv_pk (nvm d') = replicate 2592 0"
    by (simp add: h(2) dev_simps path_read_def MLDSA87_PUBLICKEYBYTES_def)
next
  note h = get_public_key_path [OF sdk path]
  assume p: "zond_path (take (unat len) path) \<and> key_of e path (ucast len) = Some pk"
  let ?d = "key_ready e shake len path pk d"
  note f = key_ready_facts [OF sdk(1,2) wf h(1), of len pk]
  have k: "sent ?d = sent d" "nv_pk (nvm ?d) = pk" by (simp_all add: key_ready_def)
  show "\<exists>r d'. handler_get_public_key e cdata False d = Some (r, d') \<and> sent d' = sent d @ [(0x51 # addr, SW_OK)] \<and>
         nv_pk (nvm d') = pk"
    using p k by (simp add: h(4) f(4) io_send_response_def addr ZOND_ADDRESS_PREFIX_def)
  let ?d' = "show_screen (Address_Review (checksummed shake addr)) ?d"
  have r: "read_block (g_address (ctx ?d')) 0 ADDRESS_SIZE = Some addr" using f(2) p by (simp add: show_screen_def addr)
  have "handler_get_public_key e cdata True d = Some (0, ?d')" using p by (simp add: h(4) f(3) addr)
  moreover have "\<exists>dy. address_review_choice e True ?d' = Some dy \<and> sent dy = sent d @ [(0x51 # addr, SW_OK)]"
    using r k by (simp add: address_review_choice_def validate_pubkey_def helper_send_response_address_def dev_simps
        ZOND_ADDRESS_PREFIX_def)
  moreover have "\<exists>dn. address_review_choice e False ?d' = Some dn \<and> sent dn = sent d @ [([], SW_DENY)] \<and>
         ctx dn = zero_ctx (max_bip32_path e)"
    using k by (simp add: address_review_choice_def validate_pubkey_def dev_simps)
  ultimately show "\<exists>d' dy dn. handler_get_public_key e cdata True d = Some (0, d') \<and> sent d' = sent d \<and> nv_pk (nvm d') = pk \<and>
         on_screen d' = Address_Review (checksummed shake addr) \<and>
         address_review_choice e True d' = Some dy \<and> sent dy = sent d @ [(0x51 # addr, SW_OK)] \<and>
         address_review_choice e False d' = Some dn \<and> sent dn = sent d @ [([], SW_DENY)] \<and>
         ctx dn = zero_ctx (max_bip32_path e)"
    using k by (auto simp: show_screen_def)
qed


theorem get_public_key_correct_witness:
  "\<exists>r d'. handler_get_public_key sample_env (chunk_buffer (path_data 0xEE)) False start_device = Some (r, d') \<and>
     sent d' = [(0x51 # sample_shake ([1, 0, 0] @ replicate MLDSA87_PUBLICKEYBYTES 3), SW_OK)]"
proof -
  let ?pk = "replicate MLDSA87_PUBLICKEYBYTES 3 :: bytes"
  obtain c2 where r2: "buffer_read_bip32_path sample_env ((chunk_buffer (path_data 0xEE))\<lparr>buf_offset := 1\<rparr>)
     (replicate (max_bip32_path sample_env) 0) (ucast (5 :: byte)) = (True, sample_path, c2)"
    using sample_path_read(2) by blast
  have "key_of sample_env sample_path (ucast (5 :: byte)) = Some ?pk" by (simp add: key_of_def sample_env_def)
  moreover have s: "sent start_device = []" by (simp add: start_device_def)
  ultimately show ?thesis
    using get_public_key_correct [OF sample_xof sample_lengths sample_buffers wf_start_device sample_path_read(1) r2 refl, of False ?pk]
      sample_path_read(3)
    unfolding s append_Nil by blast
qed

end
