(* ===== verification/Session.thy ===== *)
theory Session
  imports Public_Key
begin

text \<open>
  The application as a transition system: a session is the device together with the number of
  commands received, and its steps are the commands of the host and the events of the user
  interface. The next command is received when the previous one has been answered (the transport
  is a strict request-response channel), and a review page calls its callback once.
\<close>


section \<open>Steps\<close>

text \<open>
  \<open>confirmed\<close> is history: the last transaction review page the user confirmed. No step reads it.
\<close>

record session =
  dev :: device
  requests :: nat
  confirmed :: screen

datatype event =
    Apdu bytes
  | Choose bool bytes
  | Dismiss
  | Toggle int byte int
  | Quit
  | Receive_Failure

definition is_review :: "screen \<Rightarrow> bool" where
  "is_review s = (case s of Review b ps t f cb \<Rightarrow> True | Address_Review a \<Rightarrow> True | _ \<Rightarrow> False)"

text \<open>The callback of the page on display on a choice, with the page taken down first.\<close>

definition run_choice :: "env \<Rightarrow> bytes \<Rightarrow> bool \<Rightarrow> device \<Rightarrow> device option" where
  "run_choice e rnd ok d =
     (let d0 = show_screen Blank d in
      case on_screen d of
        Review b ps t f Transaction_Choice \<Rightarrow> review_choice e rnd ok d0
      | Review b ps t f Parameter_Choice \<Rightarrow> param_review_choice e ok d0
      | Address_Review a \<Rightarrow> address_review_choice e ok d0
      | Choice_Page t m y n \<Rightarrow> Some (ui_error_blind_signing_choice e ok d0)
      | _ \<Rightarrow> None)"

definition note_choice :: "bool \<Rightarrow> screen \<Rightarrow> screen \<Rightarrow> screen" where
  "note_choice ok s old =
     (case s of Review b ps t f Transaction_Choice \<Rightarrow> (if ok then s else old) | _ \<Rightarrow> old)"

inductive step :: "env \<Rightarrow> session \<Rightarrow> event \<Rightarrow> session \<Rightarrow> bool" for e :: env where
  step_apdu: "\<not> exited (dev s) \<Longrightarrow> requests s = length (sent (dev s)) \<Longrightarrow>
     app_main_round e apdu (dev s) = Some d' \<Longrightarrow>
     step e s (Apdu apdu) (s\<lparr>dev := d', requests := requests s + 1\<rparr>)"
| step_choose: "\<not> exited (dev s) \<Longrightarrow> run_choice e rnd ok (dev s) = Some d' \<Longrightarrow>
     step e s (Choose ok rnd) (s\<lparr>dev := d', confirmed := note_choice ok (on_screen (dev s)) (confirmed s)\<rparr>)"
| step_dismiss: "\<not> exited (dev s) \<Longrightarrow> (\<exists>st. on_screen (dev s) = Review_Status st) \<or> (\<exists>m. on_screen (dev s) = Action_Page m) \<Longrightarrow>
     step e s Dismiss (s\<lparr>dev := ui_menu_main e (dev s)\<rparr>)"
| step_toggle: "\<not> exited (dev s) \<Longrightarrow> on_screen (dev s) = Home_And_Settings nm p info \<Longrightarrow>
     step e s (Toggle token index page) (s\<lparr>dev := controls_callback e token index page (dev s)\<rparr>)"
| step_quit: "\<not> exited (dev s) \<Longrightarrow> on_screen (dev s) = Home_And_Settings nm p info \<Longrightarrow>
     step e s Quit (s\<lparr>dev := app_quit (dev s)\<rparr>)"
| step_recv_failure: "\<not> exited (dev s) \<Longrightarrow>
     step e s Receive_Failure (s\<lparr>dev := app_main_recv_failure (dev s)\<rparr>)"

definition session_start :: "env \<Rightarrow> session \<Rightarrow> bool" where
  "session_start e s \<longleftrightarrow> (\<exists>d. wf_device e d \<and> sent d = [] \<and> \<not> exited d \<and>
     s = \<lparr>dev = app_main_start e d, requests = 0, confirmed = Blank\<rparr>)"


section \<open>The invariant\<close>

definition hashed :: "env \<Rightarrow> device \<Rightarrow> bool" where
  "hashed e d \<longleftrightarrow> (\<exists>old. cx_keccak_256_hash e (received d) old = (CX_OK, m_hash (tx_info (ctx d))))"

definition decoded :: "device \<Rightarrow> bool" where
  "decoded d \<longleftrightarrow> (\<exists>its tx0. decode_spec (received d) = Some its \<and> wf_tx tx0 \<and>
     tx_data_of (tx_info (ctx d)) = store_fields its tx0)"

definition shows_tx :: "env \<Rightarrow> (bytes \<Rightarrow> bytes) \<Rightarrow> internal_storage_t \<Rightarrow> device \<Rightarrow> (string \<times> string) list \<Rightarrow> bool" where
  "shows_tx e shake n d pairs \<longleftrightarrow>
     key_of e (bip32_path (ctx d)) (ucast (bip32_path_len (ctx d))) = Some (nv_pk (nvm d)) \<and>
     pairs = review_pairs e n (tx_data_of (tx_info (ctx d)))
       (texts_of shake (shake ([1, 0, 0] @ nv_pk (nvm d))) (m_hash (tx_info (ctx d))) (tx_data_of (tx_info (ctx d))))"

definition blind_ok :: "internal_storage_t \<Rightarrow> device \<Rightarrow> bool" where
  "blind_ok n d \<longleftrightarrow> (tx_data_len (tx_data_of (tx_info (ctx d))) \<noteq> 0 \<longrightarrow> enable_blind_signing n \<noteq> 0)"

text \<open>A request whose transaction has been hashed and decoded and waits for the user.\<close>

definition pending_tx :: "env \<Rightarrow> device \<Rightarrow> bool" where
  "pending_tx e d \<longleftrightarrow> req_type (ctx d) = CONFIRM_TRANSACTION \<and> g_state (ctx d) = STATE_PARSED \<and>
     hashed e d \<and> decoded d"

definition approved_tx :: "env \<Rightarrow> (bytes \<Rightarrow> bytes) \<Rightarrow> screen \<Rightarrow> device \<Rightarrow> bool" where
  "approved_tx e shake conf d \<longleftrightarrow> hashed e d \<and> decoded d \<and> signature_valid e d \<and>
     (\<exists>n b pairs t f. conf = Review b pairs t f Transaction_Choice \<and> shows_tx e shake n d pairs \<and> blind_ok n d)"

definition shows_address :: "env \<Rightarrow> (bytes \<Rightarrow> bytes) \<Rightarrow> device \<Rightarrow> string \<Rightarrow> bool" where
  "shows_address e shake d text \<longleftrightarrow>
     key_of e (bip32_path (ctx d)) (ucast (bip32_path_len (ctx d))) = Some (nv_pk (nvm d)) \<and>
     g_address (ctx d) = shake ([1, 0, 0] @ nv_pk (nvm d)) \<and> text = checksummed shake (g_address (ctx d))"

definition screen_inv :: "env \<Rightarrow> (bytes \<Rightarrow> bytes) \<Rightarrow> device \<Rightarrow> bool" where
  "screen_inv e shake d = (case on_screen d of
       Review b pairs t f Transaction_Choice \<Rightarrow> pending_tx e d \<and> shows_tx e shake (nvm d) d pairs \<and> blind_ok (nvm d) d
     | Review b pairs t f Parameter_Choice \<Rightarrow> pending_tx e d \<and> blind_ok (nvm d) d \<and> unat (g_param_count d) \<le> 16
     | Address_Review text \<Rightarrow> req_type (ctx d) = CONFIRM_ADDRESS \<and> g_state (ctx d) = STATE_NONE \<and> shows_address e shake d text
     | _ \<Rightarrow> True)"

definition device_inv :: "env \<Rightarrow> (bytes \<Rightarrow> bytes) \<Rightarrow> screen \<Rightarrow> device \<Rightarrow> bool" where
  "device_inv e shake conf d \<longleftrightarrow> wf_device e d \<and> screen_inv e shake d \<and>
     (req_type (ctx d) = CONFIRM_TRANSACTION \<and> g_state (ctx d) = STATE_APPROVED \<longrightarrow> approved_tx e shake conf d)"

text \<open>Responses sent, and one still to come while a review page is open.\<close>

definition due :: "device \<Rightarrow> nat" where
  "due d = length (sent d) + (if is_review (on_screen d) then 1 else 0)"

definition session_inv :: "env \<Rightarrow> (bytes \<Rightarrow> bytes) \<Rightarrow> session \<Rightarrow> bool" where
  "session_inv e shake s \<longleftrightarrow> device_inv e shake (confirmed s) (dev s) \<and> requests s = due (dev s)"

text \<open>What the invariant reads.\<close>

lemma received_cong: "tx_info (ctx d') = tx_info (ctx d) \<Longrightarrow> received d' = received d"
  unfolding received_def by (rule arg_cong2 [of _ _ _ _ take]) simp_all

lemma hashed_cong: "tx_info (ctx d') = tx_info (ctx d) \<Longrightarrow> hashed e d' = hashed e d"
  unfolding hashed_def using received_cong [of d' d] by (simp only: simp_thms)

lemma decoded_cong: "tx_info (ctx d') = tx_info (ctx d) \<Longrightarrow> decoded d' = decoded d"
  unfolding decoded_def using received_cong [of d' d] by (simp only: simp_thms)

text \<open>The part of the context and of the storage that a review shows.\<close>

definition same_request :: "device \<Rightarrow> device \<Rightarrow> bool" where
  "same_request d' d \<longleftrightarrow> tx_info (ctx d') = tx_info (ctx d) \<and> bip32_path (ctx d') = bip32_path (ctx d) \<and>
     bip32_path_len (ctx d') = bip32_path_len (ctx d) \<and> nv_pk (nvm d') = nv_pk (nvm d)"

lemma shows_tx_cong: "same_request d' d \<Longrightarrow> shows_tx e shake n d' pairs = shows_tx e shake n d pairs"
  by (simp only: shows_tx_def same_request_def)

lemma blind_ok_cong: "same_request d' d \<Longrightarrow> blind_ok n d' = blind_ok n d"
  by (simp only: blind_ok_def same_request_def)

lemma signature_valid_cong:
  "same_request d' d \<Longrightarrow> nv_sig (nvm d') = nv_sig (nvm d) \<Longrightarrow> signature_valid e d' = signature_valid e d"
  by (simp only: signature_valid_def same_request_def)

lemma approved_tx_cong:
  "same_request d' d \<Longrightarrow> nv_sig (nvm d') = nv_sig (nvm d) \<Longrightarrow>
   approved_tx e shake conf d' = approved_tx e shake conf d"
  using hashed_cong [of d' d e] decoded_cong [of d' d] signature_valid_cong [of d' d e]
    shows_tx_cong [of d' d e shake] blind_ok_cong [of d' d]
  by (simp only: approved_tx_def same_request_def simp_thms)

lemma screen_inv_quiet: "\<not> is_review (on_screen d) \<Longrightarrow> screen_inv e shake d"
  by (simp add: screen_inv_def is_review_def split: screen.splits)

text \<open>A step that keeps the request and the stored signature keeps the invariant.\<close>

lemma device_inv_keep:
  assumes "device_inv e shake conf d" "wf_device e d'" "\<not> is_review (on_screen d')"
    and "ctx d' = ctx d" "nv_pk (nvm d') = nv_pk (nvm d)" "nv_sig (nvm d') = nv_sig (nvm d)"
  shows "device_inv e shake conf d'"
proof -
  have "same_request d' d" using assms(4,5) by (simp add: same_request_def)
  then show ?thesis
    using assms approved_tx_cong [of d' d e shake conf] screen_inv_quiet [OF assms(3)]
    by (simp add: device_inv_def)
qed

text \<open>A device whose request is not an approved transaction.\<close>

lemma device_inv_fresh:
  assumes "wf_device e d" "\<not> is_review (on_screen d)"
    "req_type (ctx d) \<noteq> CONFIRM_TRANSACTION \<or> g_state (ctx d) \<noteq> STATE_APPROVED"
  shows "device_inv e shake conf d"
  using assms screen_inv_quiet by (auto simp: device_inv_def)


section \<open>Phases\<close>

text \<open>
  What a session is about, seen from outside: nothing, collecting the bytes of a transaction, a
  review of these bytes, an address on display, or a signature of these bytes being released.
\<close>

datatype phase = Idle | Collecting bytes | Reviewing bytes | Showing_Address | Released bytes

definition phase_of :: "device \<Rightarrow> phase" where
  "phase_of d =
     (case on_screen d of
        Review b ps t f cb \<Rightarrow> Reviewing (received d)
      | Address_Review a \<Rightarrow> Showing_Address
      | _ \<Rightarrow>
          if req_type (ctx d) = CONFIRM_TRANSACTION
          then (case g_state (ctx d) of STATE_NONE \<Rightarrow> Collecting (received d) | STATE_PARSED \<Rightarrow> Idle
                | STATE_APPROVED \<Rightarrow> Released (received d))
          else Idle)"

lemma phase_of_quiet:
  "\<not> is_review (on_screen d) \<Longrightarrow> phase_of d =
    (if req_type (ctx d) = CONFIRM_TRANSACTION
     then (case g_state (ctx d) of STATE_NONE \<Rightarrow> Collecting (received d) | STATE_PARSED \<Rightarrow> Idle
           | STATE_APPROVED \<Rightarrow> Released (received d))
     else Idle)"
  by (simp add: phase_of_def is_review_def split: screen.splits)

lemma phase_of_cong:
  "ctx d' = ctx d \<Longrightarrow> \<not> is_review (on_screen d') \<Longrightarrow> \<not> is_review (on_screen d) \<Longrightarrow> phase_of d' = phase_of d"
  using received_cong [of d' d] by (simp add: phase_of_quiet split: state_e.splits)

text \<open>
  The protocol a device is meant to follow, on a command and on a choice: a command never opens
  the release of a signature, and collected bytes are only extended, dropped or put under review.
\<close>

inductive apdu_step :: "phase \<Rightarrow> phase \<Rightarrow> bool" where
  apdu_same: "apdu_step p p"
| apdu_start: "apdu_step p (Collecting [])"
| apdu_drop: "apdu_step p Idle"
| apdu_address: "apdu_step p Showing_Address"
| apdu_more: "length c \<le> 255 \<Longrightarrow> length (bs @ c) \<le> 2048 \<Longrightarrow> apdu_step (Collecting bs) (Collecting (bs @ c))"
| apdu_last: "length c \<le> 255 \<Longrightarrow> length (bs @ c) \<le> 2048 \<Longrightarrow> apdu_step (Collecting bs) (Reviewing (bs @ c))"

inductive choice_step :: "bool \<Rightarrow> phase \<Rightarrow> phase \<Rightarrow> bool" where
  choice_release: "choice_step True (Reviewing bs) (Released bs)"
| choice_next_page: "choice_step True (Reviewing bs) (Reviewing bs)"
| choice_failed: "choice_step True (Reviewing bs) (Collecting bs)"
| choice_stop: "choice_step ok (Reviewing bs) Idle"
| choice_address: "choice_step ok Showing_Address Idle"
| choice_menu: "p \<noteq> Showing_Address \<Longrightarrow> (\<nexists>bs. p = Reviewing bs) \<Longrightarrow> choice_step ok p p"


section \<open>The commands keep the invariant\<close>

definition env_ok :: "env \<Rightarrow> (bytes \<Rightarrow> bytes) \<Rightarrow> (bytes \<Rightarrow> bytes) \<Rightarrow> bool" where
  "env_ok e st shake \<longleftrightarrow> env_lengths e \<and> xof_ok e st shake \<and> buffers_ok e \<and> format_hex_ok e"

text \<open>
  The result of a command received by the device \<open>d0\<close>: it returns, the invariant holds, one more
  response is due, and the phase moves as the protocol allows.
\<close>

definition served :: "env \<Rightarrow> (bytes \<Rightarrow> bytes) \<Rightarrow> screen \<Rightarrow> device \<Rightarrow> device \<Rightarrow> bool" where
  "served e shake conf d0 d' \<longleftrightarrow> device_inv e shake conf d' \<and> due d' = due d0 + 1 \<and>
     apdu_step (phase_of d0) (phase_of d')"

definition serves :: "env \<Rightarrow> (bytes \<Rightarrow> bytes) \<Rightarrow> screen \<Rightarrow> device \<Rightarrow> (int \<times> device) option \<Rightarrow> bool" where
  "serves e shake conf d0 res \<longleftrightarrow> (case res of None \<Rightarrow> False | Some (r, d') \<Rightarrow> served e shake conf d0 d')"

lemma serves_Some [simp]: "serves e shake conf d0 (Some (r, d')) \<longleftrightarrow> served e shake conf d0 d'"
  by (simp add: serves_def)

text \<open>A device on the way: not reviewing, nothing sent yet, and a phase the protocol allows.\<close>

definition underway :: "device \<Rightarrow> device \<Rightarrow> bool" where
  "underway d0 d \<longleftrightarrow> \<not> is_review (on_screen d) \<and> due d = due d0 \<and> apdu_step (phase_of d0) (phase_of d)"

lemma underway_same: "\<not> is_review (on_screen d) \<Longrightarrow> underway d d"
  by (simp add: underway_def apdu_same)

lemma underway_idle:
  assumes "\<not> is_review (on_screen d)" "due d = due d0"
    "req_type (ctx d) \<noteq> CONFIRM_TRANSACTION \<or> g_state (ctx d) = STATE_PARSED"
  shows "underway d0 d"
proof -
  have "phase_of d = Idle" using assms(3) by (auto simp: phase_of_quiet [OF assms(1)])
  then show ?thesis using assms(1,2) apdu_drop by (simp add: underway_def)
qed

lemma serves_send:
  assumes "device_inv e shake conf d" "underway d0 d"
  shows "serves e shake conf d0 (Some (io_send_response e data sw d))"
    "serves e shake conf d0 (Some (io_send_sw e sw d))"
    "served e shake conf d0 (d\<lparr>sent := sent d @ [r]\<rparr>)"
proof -
  have i: "device_inv e shake conf (d\<lparr>sent := sent d @ [r]\<rparr>)" for r
    by (rule device_inv_keep [OF assms(1)]) (use assms in \<open>simp_all add: device_inv_def wf_device_def underway_def\<close>)
  have "phase_of (d\<lparr>sent := sent d @ [r]\<rparr>) = phase_of d" for r
    using assms(2) by (intro phase_of_cong) (simp_all add: underway_def)
  moreover have "due (d\<lparr>sent := sent d @ [r]\<rparr>) = due d + 1" for r
    using assms(2) by (simp add: due_def underway_def)
  ultimately show u: "served e shake conf d0 (d\<lparr>sent := sent d @ [r]\<rparr>)" for r
    using i assms(2) by (simp add: served_def underway_def)
  show "serves e shake conf d0 (Some (io_send_response e data sw d))"
    "serves e shake conf d0 (Some (io_send_sw e sw d))"
    using u by (simp_all add: io_send_sw_def io_send_response_def)
qed

lemma wf_device_parts:
  "wf_device e d \<Longrightarrow> wf_ctx (max_bip32_path e) (ctx d) \<and> wf_nvm (nvm d) \<and> wf_tx_info (tx_info (ctx d)) \<and>
     length (bip32_path (ctx d)) = max_bip32_path e \<and> length (g_address (ctx d)) = ADDRESS_SIZE"
  by (simp add: wf_device_def wf_ctx_def)

lemma serves_fresh:
  assumes "wf_device e d" "underway d0 d"
    "req_type (ctx d) \<noteq> CONFIRM_TRANSACTION \<or> g_state (ctx d) \<noteq> STATE_APPROVED"
  shows "serves e shake conf d0 (Some (io_send_sw e sw d))"
  by (rule serves_send(2) [OF device_inv_fresh [OF assms(1) _ assms(3)] assms(2)])
    (use assms(2) in \<open>simp add: underway_def\<close>)

lemma serves_pk_chunk:
  assumes "device_inv e shake conf d" "\<not> is_review (on_screen d)"
  shows "serves e shake conf d (handler_get_public_key_chunk e i d)"
proof -
  have "wf_nvm (nvm d)" using assms by (simp add: device_inv_def wf_device_def)
  then show ?thesis
    using serves_send [OF assms(1) underway_same [OF assms(2)]]
    by (simp add: handler_get_public_key_chunk_def helper_send_response_pk_chunk_result)
qed

lemma read_address: "length a = ADDRESS_SIZE \<Longrightarrow> read_block a 0 ADDRESS_SIZE = Some a"
  by (simp add: mem_simps)

text \<open>The address and the transaction review, opened with the device not reviewing.\<close>

lemma serves_display_address:
  assumes x: "xof_ok e st shake" and wf: "wf_device e d" and q: "\<not> is_review (on_screen d)" "due d = due d0"
    and st: "req_type (ctx d) = CONFIRM_ADDRESS" "g_state (ctx d) = STATE_NONE"
    and key: "key_of e (bip32_path (ctx d)) (ucast (bip32_path_len (ctx d))) = Some (nv_pk (nvm d))"
      "g_address (ctx d) = shake ([1, 0, 0] @ nv_pk (nvm d))"
  shows "serves e shake conf d0 (ui_display_address e d)"
proof -
  let ?d = "show_screen (Address_Review (checksummed shake (g_address (ctx d)))) d"
  have "format_checksummed_address e (g_address (ctx d)) (Some UI_BUFFER_SIZE) =
      Some (True, checksummed shake (g_address (ctx d)))"
    by (rule format_checksummed_address_ok [OF x]) (use wf_device_parts [OF wf] in \<open>simp_all add: UI_BUFFER_SIZE_def\<close>)
  then have "ui_display_address e d = Some (0, ?d)" using st by (simp add: ui_display_address_def)
  moreover have "due ?d = due d0 + 1" using q by (simp add: due_def show_screen_def is_review_def)
  moreover have "phase_of ?d = Showing_Address" by (simp add: phase_of_def show_screen_def)
  moreover have "device_inv e shake conf ?d"
    using wf st key by (simp add: device_inv_def screen_inv_def shows_address_def show_screen_def wf_device_def)
  ultimately show ?thesis using apdu_address by (simp add: served_def)
qed

lemma serves_key_ready:
  assumes x: "xof_ok e st shake" and l: "env_lengths e" and wf: "wf_device e d" and q: "\<not> is_review (on_screen d)"
    and lp: "length path = max_bip32_path e" and pk: "key_of e path (ucast len) = Some pk"
  shows "serves e shake conf d (ui_display_address e (key_ready e shake len path pk d))"
    "serves e shake conf d (helper_send_response_address e (key_ready e shake len path pk d))"
proof -
  let ?d4 = "key_ready e shake len path pk d"
  note f = key_ready_facts [OF x l wf lp pk]
  have c: "req_type (ctx ?d4) = CONFIRM_ADDRESS" "g_state (ctx ?d4) = STATE_NONE" "bip32_path (ctx ?d4) = path"
    "bip32_path_len (ctx ?d4) = len" "nv_pk (nvm ?d4) = pk" "g_address (ctx ?d4) = shake ([1, 0, 0] @ pk)"
    by (simp_all add: key_ready_def zero_ctx_def)
  have q4: "\<not> is_review (on_screen ?d4)" "due ?d4 = due d" using q by (simp_all add: due_def key_ready_def)
  have w4: "underway d ?d4" by (rule underway_idle [OF q4]) (simp add: c)
  show "serves e shake conf d (ui_display_address e ?d4)"
    by (rule serves_display_address [OF x f(1) q4]) (use pk in \<open>simp_all add: c\<close>)
  show "serves e shake conf d (helper_send_response_address e ?d4)"
    unfolding f(4) by (rule serves_send(1) [OF device_inv_fresh [OF f(1) q4(1)] w4]) (simp add: c)
qed

text \<open>A context that is not a transaction request, after an answer.\<close>

lemma serves_address_context:
  assumes "\<not> is_review (on_screen d)" "wf_ctx (max_bip32_path e) c" "wf_nvm n" "req_type c = CONFIRM_ADDRESS"
  shows "serves e shake conf d (Some (io_send_sw e sw (d\<lparr>nvm := n, ctx := c\<rparr>)))"
  by (rule serves_fresh [OF _ underway_idle]) (use assms in \<open>simp_all add: wf_device_def due_def\<close>)

lemma serves_get_public_key:
  assumes ok: "env_ok e st shake" and wf: "wf_device e d" and q: "\<not> is_review (on_screen d)"
  shows "serves e shake conf d (handler_get_public_key e cdata display d)"
proof -
  have x: "xof_ok e st shake" and l: "env_lengths e" and b: "buffers_ok e" using ok by (simp_all add: env_ok_def)
  let ?z = "zero_ctx (max_bip32_path e)"
  let ?n = "(nvm d)\<lparr>nv_pk := replicate MLDSA87_PUBLICKEYBYTES 0\<rparr>"
  have wn: "wf_nvm ?n" using wf by (simp add: wf_device_def wf_nvm_def)
  have z: "bip32_path_len ?z = 0" "bip32_path ?z = replicate (max_bip32_path e) 0" "req_type ?z = CONFIRM_ADDRESS"
    "g_state ?z = STATE_NONE" "?z\<lparr>req_type := CONFIRM_ADDRESS, g_state := STATE_NONE\<rparr> = ?z"
    by (simp_all add: zero_ctx_def)
  obtain ok1 len c1 where r1: "buffer_read_u8 e cdata (0 :: byte) = (ok1, len, c1)" by (metis prod_cases3)
  obtain ok2 path c2 where r2: "buffer_read_bip32_path e c1 (replicate (max_bip32_path e) 0) (ucast len) = (ok2, path, c2)"
    by (metis prod_cases3)
  have lp: "length path = max_bip32_path e"
    using l r2 unfolding env_lengths_def by (metis fst_conv snd_conv length_replicate)
  have wc: "wf_ctx (max_bip32_path e) (?z\<lparr>bip32_path_len := len\<rparr>)"
    "wf_ctx (max_bip32_path e) (?z\<lparr>bip32_path_len := len, bip32_path := path\<rparr>)"
    using wf_zero_ctx [of "max_bip32_path e"] lp by (simp_all add: wf_ctx_def)
  note fin = serves_address_context [OF q _ wn, of e _ shake conf]
  show ?thesis
  proof (cases "ok1 \<and> ok2")
    case False
    then show ?thesis
      using fin [OF wc(1), unfolded z] fin [OF wc(2), unfolded z]
      by (cases ok1) (simp_all add: handler_get_public_key_def bzero_ctx_def Let_def z r1 r2)
  next
    case True
    note h = get_public_key_path [OF x l b r1 [unfolded conjunct1 [OF True, THEN eqTrueI]] r2 [unfolded conjunct2 [OF True, THEN eqTrueI]]]
    have bad: "serves e shake conf d (Some (io_send_sw e sw (path_read e len path d)))" for sw
      using fin [OF wc(2)] by (simp add: path_read_def z)
    consider "\<not> zond_path (take (unat len) path)" | "zond_path (take (unat len) path)" "key_of e path (ucast len) = None"
      | pk where "zond_path (take (unat len) path)" "key_of e path (ucast len) = Some pk" by blast
    then show ?thesis
    proof cases
      case 1
      then show ?thesis using bad by (simp add: h(2))
    next
      case 2
      then show ?thesis using h(3) [OF 2, where d = d and display = display] bad by fastforce
    next
      case 3
      then show ?thesis using serves_key_ready [OF x l wf q lp 3(2)] by (simp add: h(4) [OF 3])
    qed
  qed
qed


section \<open>Opening a review\<close>

lemma decoded_bounds:
  assumes "decoded d"
  shows "tx_in_bounds (tx_data_of (tx_info (ctx d)))" "tx_data_len (tx_data_of (tx_info (ctx d))) \<le> 2048"
proof -
  obtain its tx0 where d: "decode_spec (received d) = Some its" "wf_tx tx0"
    "tx_data_of (tx_info (ctx d)) = store_fields its tx0" using assms by (auto simp: decoded_def)
  note b = store_fields_bounds [OF decode_spec_fields_ok [OF d(1)] d(2)]
  then have "unat (tx_nonce_len (store_fields its tx0)) \<le> 8" "unat (tx_value_len (store_fields its tx0)) \<le> 32"
    "unat (tx_gas_fee_cap_len (store_fields its tx0)) \<le> 32" by (simp_all add: word_le_nat_alt)
  then show "tx_in_bounds (tx_data_of (tx_info (ctx d)))" using b unfolding d(3) tx_in_bounds_def by blast
  show "tx_data_len (tx_data_of (tx_info (ctx d))) \<le> 2048" using b unfolding d(3) by blast
qed

definition undisplayable :: "device \<Rightarrow> bool" where
  "undisplayable d \<longleftrightarrow> decoded d \<and> \<not> displayable (tx_data_of (tx_info (ctx d)))"

text \<open>A review is opened, an error status is sent, or the amounts do not fit the text buffers.\<close>

definition reviews :: "env \<Rightarrow> (bytes \<Rightarrow> bytes) \<Rightarrow> screen \<Rightarrow> device \<Rightarrow> device \<Rightarrow> bool" where
  "reviews e shake conf d d' \<longleftrightarrow> device_inv e shake conf d' \<and> due d' = due d + 1 \<and>
     phase_of d' \<in> {Idle, Reviewing (received d)}"

definition opens :: "env \<Rightarrow> (bytes \<Rightarrow> bytes) \<Rightarrow> screen \<Rightarrow> device \<Rightarrow> (int \<times> device) option \<Rightarrow> bool" where
  "opens e shake conf d res \<longleftrightarrow>
     (case res of None \<Rightarrow> undisplayable d | Some (r, d') \<Rightarrow> reviews e shake conf d d')"

lemma opens_Some [simp]: "opens e shake conf d (Some (r, d')) \<longleftrightarrow> reviews e shake conf d d'"
  by (simp add: opens_def)

text \<open>An error status for a transaction that has been parsed.\<close>

lemma opens_error:
  assumes wf: "wf_device e d" and q: "\<not> is_review (on_screen d)" and st: "g_state (ctx d) = STATE_PARSED"
    and d0: "due d = due d0" "received d = received d0"
  shows "opens e shake conf d0 (Some (io_send_sw e sw d))"
proof -
  let ?d = "d\<lparr>sent := sent d @ [([], sw)]\<rparr>"
  have "wf_device e ?d" using wf by (simp add: wf_device_def)
  then have "device_inv e shake conf ?d" by (rule device_inv_fresh) (simp_all add: q st)
  moreover have "due ?d = due d0 + 1" using q d0 by (simp add: due_def)
  moreover have "phase_of ?d = Idle" using q st by (simp add: phase_of_quiet)
  ultimately show ?thesis by (simp add: io_send_sw_def io_send_response_def reviews_def)
qed

lemma serves_display_tx:
  assumes x: "xof_ok e st shake" and l: "env_lengths e" and wf: "wf_device e d" and q: "\<not> is_review (on_screen d)"
    and p: "pending_tx e d" and b: "blind_ok (nvm d) d"
  shows "opens e shake conf d (ui_display_transaction_bs_choice e bl d)"
proof -
  let ?tx = "tx_data_of (tx_info (ctx d))"
  have st: "req_type (ctx d) = CONFIRM_TRANSACTION" "g_state (ctx d) = STATE_PARSED" and dd: "decoded d"
    using p by (simp_all add: pending_tx_def)
  note r = ui_display_transaction_result [OF x wf st decoded_bounds(1) [OF dd], of bl]
  show ?thesis
  proof (cases "key_of e (bip32_path (ctx d)) (ucast (bip32_path_len (ctx d)))")
    case None
    then show ?thesis using opens_error [OF wf q st(2) refl refl] by (simp add: r)
  next
    case (Some pk)
    show ?thesis
    proof (cases "displayable ?tx")
      case False
      then show ?thesis using dd by (simp add: opens_def undisplayable_def r Some)
    next
      case True
      let ?d' = "reviewing e shake bl pk d"
      have c: "tx_info (ctx ?d') = tx_info (ctx d)" "bip32_path (ctx ?d') = bip32_path (ctx d)"
        "bip32_path_len (ctx ?d') = bip32_path_len (ctx d)" "nvm ?d' = (nvm d)\<lparr>nv_pk := pk\<rparr>"
        "req_type (ctx ?d') = req_type (ctx d)" "g_state (ctx ?d') = g_state (ctx d)" "sent ?d' = sent d"
        by (simp_all add: reviewing_def Let_def)
      have wf': "wf_device e ?d'"
        using wf key_of_length [OF l Some] x
        by (simp add: reviewing_def Let_def wf_device_def wf_ctx_def wf_nvm_def xof_ok_def)
      have "pending_tx e ?d'"
        using p hashed_cong [of ?d' d e] decoded_cong [of ?d' d] c by (simp add: pending_tx_def)
      moreover have "blind_ok (nvm ?d') ?d'" using b by (simp add: blind_ok_def c)
      moreover have "shows_tx e shake (nvm ?d') ?d' (review_pairs e (nvm d) ?tx
          (texts_of shake (shake ([1, 0, 0] @ pk)) (m_hash (tx_info (ctx d))) ?tx))"
        using review_pairs_settings [of "nvm d" "nvm ?d'" e ?tx] Some by (simp add: shows_tx_def c)
      moreover have s: "on_screen ?d' = Review bl (review_pairs e (nvm d) ?tx
          (texts_of shake (shake ([1, 0, 0] @ pk)) (m_hash (tx_info (ctx d))) ?tx)) REVIEW_TITLE (finish_title e bl)
          Transaction_Choice" by (simp add: reviewing_def Let_def)
      ultimately have "device_inv e shake conf ?d'"
        using wf' st by (simp add: device_inv_def screen_inv_def c)
      moreover have "due ?d' = due d + 1" using q by (simp add: due_def s c is_review_def)
      moreover have "phase_of ?d' = Reviewing (received d)"
        using received_cong [of ?d' d] by (simp add: phase_of_def s c)
      ultimately show ?thesis using True by (simp add: reviews_def r Some)
    qed
  qed
qed

lemma pending_calldata:
  "pending_tx e (with_calldata cd d) = pending_tx e d" "blind_ok n (with_calldata cd d) = blind_ok n d"
  "undisplayable (with_calldata cd d) = undisplayable d" "due (with_calldata cd d) = due d"
  "on_screen (with_calldata cd d) = on_screen d" "nvm (with_calldata cd d) = nvm d"
  "sent (with_calldata cd d) = sent d" "exited (with_calldata cd d) = exited d" "received (with_calldata cd d) = received d"
proof -
  show rc: "received (with_calldata cd d) = received d"
    by (simp add: with_calldata_def set_tx_info_def received_def)
  have t: "received (with_calldata cd d) = received d"
    "m_hash (tx_info (ctx (with_calldata cd d))) = m_hash (tx_info (ctx d))"
    "tx_data_of (tx_info (ctx (with_calldata cd d))) = tx_data_of (tx_info (ctx d))"
    "req_type (ctx (with_calldata cd d)) = req_type (ctx d)" "g_state (ctx (with_calldata cd d)) = g_state (ctx d)"
    "sent (with_calldata cd d) = sent d"
    by (simp_all add: with_calldata_def set_tx_info_def received_def)
  show s: "on_screen (with_calldata cd d) = on_screen d" "nvm (with_calldata cd d) = nvm d"
    "sent (with_calldata cd d) = sent d" "exited (with_calldata cd d) = exited d"
    by (simp_all add: with_calldata_def set_tx_info_def)
  have "hashed e (with_calldata cd d) = hashed e d" "decoded (with_calldata cd d) = decoded d"
    by (simp_all only: hashed_def decoded_def t)
  then show "pending_tx e (with_calldata cd d) = pending_tx e d" "blind_ok n (with_calldata cd d) = blind_ok n d"
    "undisplayable (with_calldata cd d) = undisplayable d" "due (with_calldata cd d) = due d"
    using t s by (simp_all add: pending_tx_def blind_ok_def undisplayable_def due_def)
qed

text \<open>A selector or parameter page.\<close>

lemma device_inv_param_page:
  assumes "wf_device e d" "pending_tx e d" "blind_ok (nvm d) d" "unat (g_param_count d) \<le> 16"
  shows "device_inv e shake conf (show_screen (Review b ps t f Parameter_Choice) d)"
proof -
  let ?d = "show_screen (Review b ps t f Parameter_Choice) d"
  have c: "ctx ?d = ctx d" "nvm ?d = nvm d" "g_param_count ?d = g_param_count d" "wf_device e ?d"
    "on_screen ?d = Review b ps t f Parameter_Choice"
    using assms(1) by (simp_all add: show_screen_def wf_device_def)
  have "pending_tx e ?d" "blind_ok (nvm ?d) ?d"
    using assms(2,3) hashed_cong [of ?d d e] decoded_cong [of ?d d] by (simp_all add: pending_tx_def blind_ok_def c)
  moreover have "g_state (ctx d) = STATE_PARSED" using assms(2) by (simp add: pending_tx_def)
  ultimately show ?thesis using assms(4) by (simp add: device_inv_def screen_inv_def c)
qed


lemma ui_contract_call_init_facts:
  "ctx (ui_contract_call_init k d) = ctx d" "nvm (ui_contract_call_init k d) = nvm d"
  "g_param_count (ui_contract_call_init k d) = k" "on_screen (ui_contract_call_init k d) = on_screen d"
  "sent (ui_contract_call_init k d) = sent d" "received (ui_contract_call_init k d) = received d"
  by (simp_all add: ui_contract_call_init_def received_def)

lemma ui_error_blind_signing_facts:
  "ctx (ui_error_blind_signing e d) = ctx d" "nvm (ui_error_blind_signing e d) = nvm d"
  "sent (ui_error_blind_signing e d) = sent d" "\<not> is_review (on_screen (ui_error_blind_signing e d))"
  by (simp_all add: ui_error_blind_signing_def show_screen_def is_review_def)

lemma received_shown: "received (d\<lparr>on_screen := s\<rparr>) = received d"
  by (rule received_cong) simp

lemma wf_parsed_calldata: "is_encoding bs sel slots \<Longrightarrow> wf_calldata (parsed_calldata sel slots)"
  by (auto simp: is_encoding_def wf_calldata_def parsed_calldata_def ABI_SLOT_SIZE_def dest: in_set_takeD)

lemma opens_blind_error:
  assumes wf: "wf_device e d" and q: "\<not> is_review (on_screen d)" and st: "g_state (ctx d) = STATE_PARSED"
  shows "opens e shake conf d (Some (io_send_sw e SW_SIGNATURE_FAIL (ui_error_blind_signing e d)))"
proof -
  let ?e = "ui_error_blind_signing e d"
  have "wf_device e ?e" using wf by (simp add: wf_device_def ui_error_blind_signing_facts)
  moreover have "due ?e = due d" using q by (simp add: due_def ui_error_blind_signing_facts)
  moreover have "received ?e = received d" by (rule received_cong) (simp add: ui_error_blind_signing_facts)
  ultimately show ?thesis by (intro opens_error) (simp_all add: ui_error_blind_signing_facts st)
qed

lemma wf_with_calldata: "wf_device e d \<Longrightarrow> wf_calldata cd \<Longrightarrow> wf_device e (with_calldata cd d)"
  using wf_device_parts [of e d] unfolding with_calldata_def
  by (intro wf_set_tx_info) (simp_all add: wf_tx_info_def)

text \<open>The selector page of calldata that has been parsed.\<close>

lemma opens_selector:
  assumes wf: "wf_device e d" and q: "\<not> is_review (on_screen d)" and p: "pending_tx e d"
    and on: "enable_blind_signing (nvm d) \<noteq> 0" and enc: "is_encoding bs sel slots"
  shows "opens e shake conf d (ui_confirm_selector e (ui_contract_call_init (of_nat (min (length slots) 16))
    (with_calldata (parsed_calldata sel slots) d)))"
proof -
  let ?c = "with_calldata (parsed_calldata sel slots) d"
  let ?i = "ui_contract_call_init (of_nat (min (length slots) 16)) ?c"
  have wc: "wf_device e ?c" by (rule wf_with_calldata [OF wf wf_parsed_calldata [OF enc]])
  have wi: "wf_device e ?i" using wc by (simp add: wf_device_def ui_contract_call_init_facts)
  have pi: "pending_tx e ?i" "blind_ok (nvm ?i) ?i"
    using hashed_cong [of ?i ?c e] decoded_cong [of ?i ?c] pending_calldata [where cd = "parsed_calldata sel slots"] p on
    by (simp_all add: pending_tx_def blind_ok_def ui_contract_call_init_facts)
  have "unat (g_param_count ?i) \<le> 16" by (simp add: ui_contract_call_init_facts unat_of_nat)
  from device_inv_param_page [OF wi pi this] have
    "device_inv e shake conf (show_screen (selector_page (cd_selector (calldata_of (tx_info (ctx ?i))))) ?i)"
    unfolding selector_page_def .
  then show ?thesis
    using buildScreen_selector [OF wi] q
    by (simp add: ui_confirm_selector_def reviews_def due_def show_screen_def is_review_def selector_page_def
        phase_of_def ui_contract_call_init_facts pending_calldata received_shown)
qed

lemma serves_route:
  assumes x: "xof_ok e st shake" and l: "env_lengths e" and wf: "wf_device e d" and q: "\<not> is_review (on_screen d)"
    and p: "pending_tx e d"
  shows "opens e shake conf d (route_review e d)"
proof -
  let ?tx = "tx_data_of (tx_info (ctx d))"
  have st: "g_state (ctx d) = STATE_PARSED" and dd: "decoded d" using p by (simp_all add: pending_tx_def)
  have len: "tx_data_len ?tx \<le> 2048" by (rule decoded_bounds(2) [OF dd])
  note disp = serves_display_tx [OF x l wf q p]
  consider "tx_data_len ?tx = 0"
    | "tx_data_len ?tx \<noteq> 0" "enable_blind_signing (nvm d) = 0"
    | "tx_data_len ?tx \<noteq> 0" "enable_blind_signing (nvm d) \<noteq> 0"
      "tx_to_len ?tx = 0 \<or> enable_debug_smart_contract (nvm d) = 0"
    | "tx_data_len ?tx \<noteq> 0" "enable_blind_signing (nvm d) \<noteq> 0"
      "tx_to_len ?tx \<noteq> 0" "enable_debug_smart_contract (nvm d) \<noteq> 0" by blast
  then show ?thesis
  proof cases
    case 1
    then show ?thesis using disp [of conf False]
      by (simp add: route_review_def Let_def blind_ok_def ui_display_transaction_def)
  next
    case 2
    then show ?thesis using opens_blind_error [OF wf q st] by (simp add: route_review_def Let_def)
  next
    case 3
    then show ?thesis using disp [of conf True]
      by (auto simp: route_review_def Let_def blind_ok_def ui_display_blind_signed_transaction_def)
  next
    case 4
    note r = route_parsed [OF wf len 4(1,2,3,4)]
    show ?thesis
    proof (cases "\<exists>sel slots. is_encoding (calldata_bytes d) sel slots")
      case False
      then obtain cd where cd: "wf_calldata cd" "route_review e d = ui_display_transaction e (with_calldata cd d)"
        using r(2) by blast
      show ?thesis
        using serves_display_tx [OF x l wf_with_calldata [OF wf cd(1)], of conf False] q p 4 cd(2)
        by (simp add: pending_calldata ui_display_transaction_def opens_def reviews_def blind_ok_def
            split: option.splits prod.splits)
    next
      case True
      then show ?thesis using r(1) opens_selector [OF wf q p 4(2)] by fastforce
    qed
  qed
qed


section \<open>The SIGN_TX command\<close>

lemma recv_received:
  assumes "recv_chunk e cdata d = Some (r, d')" "env_lengths e" "wf_device e d" "unat (buf_size cdata) \<le> 255"
  shows "r \<noteq> None \<Longrightarrow> received d' = received d"
    "r = None \<Longrightarrow> \<exists>c. length c \<le> 255 \<and> length (received d @ c) \<le> 2048 \<and> received d' = received d @ c"
proof -
  let ?t = "tx_info (ctx d)"
  from recv_chunk_result [OF assms(2-4)] assms(1)
  have res: "(r = None \<longrightarrow> unat (raw_tx_len ?t) + unat (buf_size cdata) \<le> 2048 \<and>
       (\<exists>out. length out = unat (buf_size cdata) \<and> d' = appended out d)) \<and>
    (r \<noteq> None \<longrightarrow> (\<exists>raw. take (unat (raw_tx_len ?t)) raw = take (unat (raw_tx_len ?t)) (raw_tx ?t) \<and>
       d' = set_tx_info (?t\<lparr>raw_tx := raw\<rparr>) d))" by auto
  show "received d' = received d" if "r \<noteq> None"
  proof -
    obtain raw where "take (unat (raw_tx_len ?t)) raw = take (unat (raw_tx_len ?t)) (raw_tx ?t)"
      "d' = set_tx_info (?t\<lparr>raw_tx := raw\<rparr>) d" using res \<open>r \<noteq> None\<close> by blast
    then show ?thesis by (simp add: received_def set_tx_info_def)
  qed
  show "\<exists>c. length c \<le> 255 \<and> length (received d @ c) \<le> 2048 \<and> received d' = received d @ c" if "r = None"
  proof -
    obtain out where o: "length out = unat (buf_size cdata)" "d' = appended out d"
      "unat (raw_tx_len ?t) + length out \<le> 2048" using res \<open>r = None\<close> by auto
    have "length (received d) = unat (raw_tx_len ?t)"
      using wf_device_tx [OF assms(3)] by (simp add: received_def)
    then show ?thesis using o appended_facts(1) [OF assms(3) o(3)] assms(4) by (intro exI [of _ out]) simp
  qed
qed

lemma recv_quiet:
  assumes "recv_chunk e cdata d = Some (r, d')" "env_lengths e" "wf_device e d" "unat (buf_size cdata) \<le> 255"
  shows "wf_device e d'" "on_screen d' = on_screen d" "sent d' = sent d" "nvm d' = nvm d"
    "req_type (ctx d') = req_type (ctx d)" "g_state (ctx d') = g_state (ctx d)"
    "r = None \<Longrightarrow> req_type (ctx d) = CONFIRM_TRANSACTION \<and> g_state (ctx d) = STATE_NONE"
    "r \<noteq> None \<Longrightarrow> g_state (ctx d) = STATE_APPROVED \<or> req_type (ctx d) \<noteq> CONFIRM_TRANSACTION \<Longrightarrow> d' = d"
    "r \<noteq> None \<Longrightarrow> received d' = received d"
    "r = None \<Longrightarrow> \<exists>c. length c \<le> 255 \<and> length (received d @ c) \<le> 2048 \<and> received d' = received d @ c"
proof -
  from recv_chunk_result [OF assms(2-4)] assms(1)
  have res: "(r = None \<longrightarrow> req_type (ctx d) = CONFIRM_TRANSACTION \<and> g_state (ctx d) = STATE_NONE \<and>
       unat (raw_tx_len (tx_info (ctx d))) + unat (buf_size cdata) \<le> 2048 \<and>
       (\<exists>out. length out = unat (buf_size cdata) \<and> d' = appended out d)) \<and>
    (r \<noteq> None \<longrightarrow> (\<exists>raw. length raw = 2048 \<and>
       take (unat (raw_tx_len (tx_info (ctx d)))) raw = take (unat (raw_tx_len (tx_info (ctx d)))) (raw_tx (tx_info (ctx d))) \<and>
       d' = set_tx_info ((tx_info (ctx d))\<lparr>raw_tx := raw\<rparr>) d))" by simp
  then have n: "r = None \<Longrightarrow> req_type (ctx d) = CONFIRM_TRANSACTION \<and> g_state (ctx d) = STATE_NONE \<and>
       (\<exists>out. unat (raw_tx_len (tx_info (ctx d))) + length out \<le> 2048 \<and> d' = appended out d)"
    and s: "r \<noteq> None \<Longrightarrow> \<exists>raw. length raw = 2048 \<and> d' = set_tx_info ((tx_info (ctx d))\<lparr>raw_tx := raw\<rparr>) d"
    by (metis, blast)
  show "r \<noteq> None \<Longrightarrow> received d' = received d"
    "r = None \<Longrightarrow> \<exists>c. length c \<le> 255 \<and> length (received d @ c) \<le> 2048 \<and> received d' = received d @ c"
    using recv_received [OF assms] by blast+
  have w: "wf_device e (set_tx_info ((tx_info (ctx d))\<lparr>raw_tx := raw\<rparr>) d)" if "length raw = 2048" for raw
    using that wf_device_tx [OF assms(3)]
    by (intro wf_set_tx_info [OF assms(3)]) (simp add: wf_tx_info_def MAX_TRANSACTION_LEN_def)
  have "wf_device e d' \<and> on_screen d' = on_screen d \<and> sent d' = sent d \<and> nvm d' = nvm d \<and>
      req_type (ctx d') = req_type (ctx d) \<and> g_state (ctx d') = g_state (ctx d)"
  proof (cases "r = None")
    case True
    then obtain out where o: "unat (raw_tx_len (tx_info (ctx d))) + length out \<le> 2048" "d' = appended out d"
      using n by blast
    then show ?thesis using appended_facts(3-9) [OF assms(3) o(1)] wf_appended [OF assms(3) o(1)] by simp
  next
    case False
    then obtain raw where "length raw = 2048" "d' = set_tx_info ((tx_info (ctx d))\<lparr>raw_tx := raw\<rparr>) d"
      using s by blast
    then show ?thesis using w [of raw] by (simp add: set_tx_info_def)
  qed
  then show "wf_device e d'" "on_screen d' = on_screen d" "sent d' = sent d" "nvm d' = nvm d"
    "req_type (ctx d') = req_type (ctx d)" "g_state (ctx d') = g_state (ctx d)" by blast+
  show "r = None \<Longrightarrow> req_type (ctx d) = CONFIRM_TRANSACTION \<and> g_state (ctx d) = STATE_NONE" using n by blast
  show "r \<noteq> None \<Longrightarrow> g_state (ctx d) = STATE_APPROVED \<or> req_type (ctx d) \<noteq> CONFIRM_TRANSACTION \<Longrightarrow> d' = d"
    using assms(1) by (cases "req_type (ctx d) = CONFIRM_TRANSACTION"; cases "g_state (ctx d) = STATE_NONE")
      (simp_all add: recv_chunk_def)
qed

text \<open>The status of a chunk, once it has been received.\<close>

lemma serves_received:
  assumes d: "device_inv e shake conf d" "\<not> is_review (on_screen d)" and l: "env_lengths e"
    and r: "recv_chunk e cdata d = Some (r, d')" and sz: "unat (buf_size cdata) \<le> 255"
  shows "serves e shake conf d (Some (io_send_sw e sw d'))"
proof -
  have wf: "wf_device e d" using d by (simp add: device_inv_def)
  note q = recv_quiet [OF r l wf sz]
  have k: "\<not> is_review (on_screen d')" "due d' = due d" using d(2) q(2,3) by (simp_all add: due_def)
  have "device_inv e shake conf d'"
  proof (cases "req_type (ctx d) = CONFIRM_TRANSACTION \<and> g_state (ctx d) = STATE_APPROVED")
    case True
    then have "d' = d" using q(7,8) by (cases r) auto
    then show ?thesis using d by simp
  next
    case False
    then show ?thesis using q(5,6) by (intro device_inv_fresh [OF q(1) k(1)]) simp
  qed
  moreover have "apdu_step (phase_of d) (phase_of d')"
  proof (cases r)
    case None
    then obtain c where c: "length c \<le> 255" "length (received d @ c) \<le> 2048" "received d' = received d @ c"
      using q(10) by blast
    show ?thesis using apdu_more [OF c(1,2)] q(5-7) None c(3) by (simp add: phase_of_quiet k d(2))
  next
    case (Some x)
    then have "phase_of d' = phase_of d" using q(5,6,9) by (simp add: phase_of_quiet k d(2) split: state_e.splits)
    then show ?thesis using apdu_same by simp
  qed
  ultimately show ?thesis using serves_send(2) k by (simp add: underway_def)
qed

lemma serves_sign_first:
  assumes l: "env_lengths e" "buffers_ok e" and wf: "wf_device e d" and q: "\<not> is_review (on_screen d)"
  shows "serves e shake conf d (sign_tx_first e cdata d)"
proof -
  obtain len path sw where s: "sign_tx_first e cdata d = Some (io_send_sw e sw (started e len path d))"
    "length path = max_bip32_path e" using sign_tx_first_result [OF l] by blast
  let ?d = "started e len path d"
  have f: "on_screen ?d = on_screen d" "sent ?d = sent d" "g_state (ctx ?d) = STATE_NONE"
    "req_type (ctx ?d) = CONFIRM_TRANSACTION" "received ?d = []"
    by (simp_all add: started_def zero_ctx_def received_def zero_tx_info_def)
  have "phase_of ?d = Collecting []" using q by (simp add: phase_of_quiet f)
  then have "underway d ?d" using q f apdu_start by (simp add: underway_def due_def)
  then show ?thesis unfolding s(1) by (rule serves_fresh [OF wf_started [OF wf s(2)]]) (simp add: f)
qed

lemma serves_sign_more:
  assumes "device_inv e shake conf d" "\<not> is_review (on_screen d)" "env_lengths e" "unat (buf_size cdata) \<le> 255"
  shows "serves e shake conf d (sign_tx_more e cdata d)"
proof -
  have wf: "wf_device e d" using assms(1) by (simp add: device_inv_def)
  obtain r d' where r: "recv_chunk e cdata d = Some (r, d')" using recv_chunk_result [OF assms(3) wf assms(4)] by blast
  have "sign_tx_more e cdata d = Some (io_send_sw e (case r of None \<Rightarrow> SW_OK | Some sw \<Rightarrow> sw) d')"
    by (simp add: sign_tx_more_def r split: option.splits)
  then show ?thesis using serves_received [OF assms(1-3) r assms(4)] by simp
qed

text \<open>The last chunk: the device crashes on a transaction it cannot display.\<close>

definition crashes :: "env \<Rightarrow> buffer_t \<Rightarrow> device \<Rightarrow> bool" where
  "crashes e cdata d \<longleftrightarrow> (\<exists>d1 its. recv_chunk e cdata d = Some (None, d1) \<and>
     decode_spec (received d1) = Some its \<and> \<not> displayable (store_fields its (tx_data_of (tx_info (ctx d1)))))"

abbreviation hashed_tx :: "bytes \<Rightarrow> device \<Rightarrow> device" where
  "hashed_tx h d \<equiv> set_tx_info ((tx_info (ctx d))\<lparr>m_hash := h\<rparr>) (set_state STATE_PARSED d)"

abbreviation decoded_tx :: "bytes \<Rightarrow> zond_tx_t \<Rightarrow> device \<Rightarrow> device" where
  "decoded_tx h tx d \<equiv> set_tx_info ((tx_info (ctx d))\<lparr>m_hash := h, tx_data_of := tx\<rparr>) (set_state STATE_PARSED d)"

lemma sign_last_result:
  assumes r: "recv_chunk e cdata d = Some (None, d1)" and wf: "wf_device e d1" and l: "env_lengths e"
  obtains error h ret tx' where "cx_keccak_256_hash e (received d1) (m_hash (tx_info (ctx d1))) = (error, h)" "length h = 32"
    "case decode_spec (received d1) of None \<Rightarrow> ret = (-1 :: int)
      | Some its \<Rightarrow> ret = 0 \<and> tx' = store_fields its (tx_data_of (tx_info (ctx d1)))"
    "sign_tx_last e cdata d = (if error \<noteq> CX_OK then Some (io_send_sw e SW_SIGNATURE_FAIL (hashed_tx h d1))
      else if ret \<noteq> 0 then Some (io_send_sw e SW_TX_PARSING_FAIL (decoded_tx h tx' d1)) else route_review e (decoded_tx h tx' d1))"
    "wf_device e (hashed_tx h d1)" "wf_device e (decoded_tx h tx' d1)" "wf_tx (tx_data_of (tx_info (ctx d1)))"
proof -
  let ?t = "tx_info (ctx d1)"
  obtain error h where h: "cx_keccak_256_hash e (received d1) (m_hash ?t) = (error, h)" by fastforce
  note h' = h [unfolded received_def]
  have lh: "length h = 32"
    using l h wf_device_tx [OF wf] unfolding env_lengths_def wf_tx_info_def by (metis snd_conv)
  have t: "wf_tx_info ?t" "length (raw_tx ?t) = 2048" "unat (raw_tx_len ?t) \<le> 2048" using wf_device_tx [OF wf] by auto
  have b: "unat (raw_tx_len ?t) \<le> length (raw_tx ?t)" "unat (raw_tx_len ?t) < 2 ^ 31" "wf_tx (tx_data_of ?t)"
    using t by (auto simp: wf_tx_info_def)
  from decode_ledger_tx_spec [OF this] obtain ret tx' where
    dec: "decode_ledger_tx (Some (raw_tx ?t)) (raw_tx_len ?t) (Some (tx_data_of ?t)) = Some (ret, Some tx')" "wf_tx tx'"
    and ret: "case decode_spec (received d1) of None \<Rightarrow> ret = -1 | Some its \<Rightarrow> ret = 0 \<and> tx' = store_fields its (tx_data_of ?t)"
    unfolding received_def by blast
  have last: "sign_tx_last e cdata d = (if error \<noteq> CX_OK then Some (io_send_sw e SW_SIGNATURE_FAIL (hashed_tx h d1))
      else if ret \<noteq> 0 then Some (io_send_sw e SW_TX_PARSING_FAIL (decoded_tx h tx' d1)) else route_review e (decoded_tx h tx' d1))"
    by (simp add: sign_tx_last_def r h' dec(1) Let_def set_state_def set_tx_info_def)
  have ws: "wf_device e (set_state STATE_PARSED d1)" using wf by (simp add: wf_device_def wf_ctx_def set_state_def)
  have w: "wf_device e (hashed_tx h d1)" "wf_device e (decoded_tx h tx' d1)"
    using t lh dec(2) by (auto intro!: wf_set_tx_info [OF ws] simp: wf_tx_info_def)
  show thesis by (rule that [OF h lh ret last w b(3)])
qed

text \<open>The chunks are in: the hashed and the decoded device are underway, and an error ends the request.\<close>

lemma sign_last_underway:
  assumes q: "\<not> is_review (on_screen d)" and d1: "on_screen d1 = on_screen d" "sent d1 = sent d"
    and w: "wf_device e (hashed_tx h d1)" "wf_device e (decoded_tx h tx' d1)"
  shows "serves e shake conf d (Some (io_send_sw e sw (hashed_tx h d1)))"
    "serves e shake conf d (Some (io_send_sw e sw (decoded_tx h tx' d1)))"
proof -
  have f: "g_state (ctx (hashed_tx h d1)) = STATE_PARSED" "on_screen (hashed_tx h d1) = on_screen d" "sent (hashed_tx h d1) = sent d"
    "g_state (ctx (decoded_tx h tx' d1)) = STATE_PARSED" "on_screen (decoded_tx h tx' d1) = on_screen d"
    "sent (decoded_tx h tx' d1) = sent d"
    using d1 by (simp_all add: set_tx_info_def set_state_def)
  have u: "underway d (hashed_tx h d1)" "underway d (decoded_tx h tx' d1)"
    by (rule underway_idle; use q f in \<open>simp add: due_def\<close>)+
  show "serves e shake conf d (Some (io_send_sw e sw (hashed_tx h d1)))"
    by (rule serves_fresh [OF w(1) u(1)]) (simp add: f)
  show "serves e shake conf d (Some (io_send_sw e sw (decoded_tx h tx' d1)))"
    by (rule serves_fresh [OF w(2) u(2)]) (simp add: f)
qed

lemma serves_sign_last:
  assumes d: "device_inv e shake conf d" "\<not> is_review (on_screen d)" and l: "env_lengths e" and x: "xof_ok e st shake"
    and sz: "unat (buf_size cdata) \<le> 255"
  shows "sign_tx_last e cdata d = None \<and> crashes e cdata d \<or> serves e shake conf d (sign_tx_last e cdata d)"
proof -
  have wf: "wf_device e d" using d by (simp add: device_inv_def)
  obtain r d1 where r: "recv_chunk e cdata d = Some (r, d1)" using recv_chunk_result [OF l wf sz] by blast
  note q = recv_quiet [OF r l wf sz]
  show ?thesis
  proof (cases r)
    case (Some sw)
    then show ?thesis using serves_received [OF d l r sz] by (simp add: sign_tx_last_def r)
  next
    case None
    obtain error h ret tx' where h: "cx_keccak_256_hash e (received d1) (m_hash (tx_info (ctx d1))) = (error, h)"
      and lh: "length h = 32" and ret: "case decode_spec (received d1) of None \<Rightarrow> ret = (-1 :: int)
        | Some its \<Rightarrow> ret = 0 \<and> tx' = store_fields its (tx_data_of (tx_info (ctx d1)))"
      and last: "sign_tx_last e cdata d = (if error \<noteq> CX_OK then Some (io_send_sw e SW_SIGNATURE_FAIL (hashed_tx h d1))
        else if ret \<noteq> 0 then Some (io_send_sw e SW_TX_PARSING_FAIL (decoded_tx h tx' d1)) else route_review e (decoded_tx h tx' d1))"
      and w: "wf_device e (hashed_tx h d1)" "wf_device e (decoded_tx h tx' d1)" and wt: "wf_tx (tx_data_of (tx_info (ctx d1)))"
      by (rule sign_last_result [OF r [unfolded None] q(1) l]) (rule that)
    let ?d4 = "decoded_tx h tx' d1"
    note s = sign_last_underway [OF d(2) q(2,3) w, of shake conf]
    have f: "g_state (ctx ?d4) = STATE_PARSED" "on_screen ?d4 = on_screen d" "sent ?d4 = sent d"
      "req_type (ctx ?d4) = CONFIRM_TRANSACTION" "m_hash (tx_info (ctx ?d4)) = h" "tx_data_of (tx_info (ctx ?d4)) = tx'"
      "received ?d4 = received d1"
      using q None by (simp_all add: set_tx_info_def set_state_def received_def)
    have due: "due ?d4 = due d" and n: "\<not> is_review (on_screen ?d4)" using d(2) f by (simp_all add: due_def)
    show ?thesis
    proof (cases "error = CX_OK \<and> ret = 0")
      case False
      then show ?thesis using s by (auto simp: last)
    next
      case True
      then obtain its where its: "decode_spec (received d1) = Some its" "tx' = store_fields its (tx_data_of (tx_info (ctx d1)))"
        using ret by (auto split: option.splits)
      have "pending_tx e ?d4"
        using its wt h True f by (auto simp: pending_tx_def hashed_def decoded_def)
      from serves_route [OF x l w(2) n this, of conf] have o: "opens e shake conf ?d4 (route_review e ?d4)" .
      have c: "undisplayable ?d4 \<Longrightarrow> crashes e cdata d"
        using its r None unfolding undisplayable_def crashes_def f by blast
      obtain ch where ch: "length ch \<le> 255" "length (received d @ ch) \<le> 2048" "received d1 = received d @ ch"
        using q(10) None by blast
      have "phase_of d = Collecting (received d)" using q(7) None by (simp add: phase_of_quiet d(2))
      then have "served e shake conf d d'" if "reviews e shake conf ?d4 d'" for d'
        using that apdu_last [OF ch(1,2)] apdu_drop due f(7) ch(3) by (auto simp: served_def reviews_def)
      then show ?thesis using True o c by (cases "route_review e ?d4") (auto simp: last opens_def)
    qed
  qed
qed

lemma serves_sig_chunk:
  assumes d: "device_inv e shake conf d" "\<not> is_review (on_screen d)" and i: "unat i < 18"
  shows "serves e shake conf d (helper_send_response_sig e i d)"
proof -
  have wf: "wf_device e d" and wn: "wf_nvm (nvm d)" using d by (simp_all add: device_inv_def wf_device_def)
  let ?n = "(nvm d)\<lparr>is_sending_signature := sending_flag i d\<rparr>"
  let ?d' = "d\<lparr>sent := sent d @ [(sigc.pieces (nv_sig (nvm d)) ! unat i, SW_OK)], nvm := ?n,
      ctx := (if i = 17 then zero_ctx (max_bip32_path e) else ctx d)\<rparr>"
  have r: "helper_send_response_sig e i d = Some (0, ?d')" by (rule helper_send_response_sig_result [OF wn i])
  have wf': "wf_device e ?d'" using wf wf_zero_ctx by (simp add: wf_device_def wf_nvm_def)
  have q: "\<not> is_review (on_screen ?d')" "due ?d' = due d + 1" using d(2) by (simp_all add: due_def)
  have "device_inv e shake conf ?d' \<and> apdu_step (phase_of d) (phase_of ?d')"
  proof (cases "i = 17")
    case True
    then have "phase_of ?d' = Idle" using q(1) by (simp add: phase_of_quiet zero_ctx_def)
    moreover have "device_inv e shake conf ?d'"
      using True by (intro device_inv_fresh [OF wf' q(1)]) (simp add: zero_ctx_def)
    ultimately show ?thesis using apdu_drop by simp
  next
    case False
    have "phase_of ?d' = phase_of d" using False by (intro phase_of_cong [OF _ q(1) d(2)]) simp
    moreover have "device_inv e shake conf ?d'"
      using False by (intro device_inv_keep [OF d(1) wf' q(1)]) simp_all
    ultimately show ?thesis using apdu_same by metis
  qed
  then show ?thesis using r q by (simp add: served_def)
qed

lemma serves_sign_tx:
  assumes ok: "env_ok e st shake" and d: "device_inv e shake conf d" "\<not> is_review (on_screen d)"
    and sz: "unat (buf_size cdata) \<le> 255"
  shows "handler_sign_tx e cdata p1 p2 d = None \<and> p1 = 2 \<and> p2 = 0 \<and> crashes e cdata d \<or>
    serves e shake conf d (handler_sign_tx e cdata p1 p2 d)"
proof -
  have x: "xof_ok e st shake" and l: "env_lengths e" "buffers_ok e" using ok by (simp_all add: env_ok_def)
  have wf: "wf_device e d" using d by (simp add: device_inv_def)
  note s = serves_send(2) [OF d(1) underway_same [OF d(2)]]
  consider "p1 = 0" | "p1 = 1" | "p1 = 2" "p2 = 0" | "p1 = 2" "p2 > 0" "p2 < 18" | "p1 \<notin> {0, 1, 2} \<or> p1 = 2 \<and> \<not> p2 < 18 \<and> p2 \<noteq> 0"
    by (auto simp: word_gt_0)
  then show ?thesis
  proof cases
    case 1
    then show ?thesis using serves_sign_first [OF l wf d(2)] by (simp add: handler_sign_tx_def)
  next
    case 2
    then show ?thesis using serves_sign_more [OF d l(1) sz] by (simp add: handler_sign_tx_def)
  next
    case 3
    have "handler_sign_tx e cdata 2 0 d = sign_tx_last e cdata d" by (simp add: handler_sign_tx_def)
    then show ?thesis using serves_sign_last [OF d l(1) x sz] unfolding 3 by simp
  next
    case 4
    then have "unat p2 < 18" "p2 \<noteq> 0" by (simp add: word_less_nat_alt, auto)
    then show ?thesis using 4 s serves_sig_chunk [OF d] by (simp add: handler_sign_tx_def sign_tx_signature_def)
  next
    case 5
    then show ?thesis using s by (auto simp: handler_sign_tx_def)
  qed
qed

text \<open>The dispatcher: a command is served, or it is the last chunk of an undisplayable transaction.\<close>

lemma command_buffer_size: "unat (buf_size (command_buffer cmd)) \<le> 255"
  using unsigned_less [of "cmd_lc cmd", where 'a = nat] by (simp add: command_buffer_def unat_ucast_byte)

lemma serves_dispatcher:
  assumes ok: "env_ok e st shake" and d: "device_inv e shake conf d" "\<not> is_review (on_screen d)"
  shows "apdu_dispatcher e cmd d = None \<and> cmd_cla cmd = APDU_CLA \<and> cmd_ins cmd = SIGN_TX \<and> cmd_p1 cmd = 2 \<and>
      cmd_p2 cmd = 0 \<and> cmd_data cmd \<noteq> None \<and> crashes e (command_buffer cmd) d \<or>
    serves e shake conf d (apdu_dispatcher e cmd d)"
proof -
  have wf: "wf_device e d" using d by (simp add: device_inv_def)
  note s = serves_send [OF d(1) underway_same [OF d(2)]]
  note sign = serves_sign_tx [OF ok d command_buffer_size, of cmd "cmd_p1 cmd" "cmd_p2 cmd"]
  have ins: "SIGN_TX \<noteq> GET_VERSION" "SIGN_TX \<noteq> GET_APP_NAME" "SIGN_TX \<noteq> GET_PUBLIC_KEY"
    by (simp_all add: ins_defs)
  show ?thesis
  proof (cases "cmd_cla cmd = APDU_CLA \<and> cmd_ins cmd = SIGN_TX")
    case True
    then show ?thesis using sign s(2) ins by (cases "cmd_data cmd") (auto simp: apdu_dispatcher_def)
  next
    case False
    then have "serves e shake conf d (apdu_dispatcher e cmd d)"
      using s(1,2) serves_get_public_key [OF ok wf d(2), of conf] serves_pk_chunk [OF d]
      by (simp add: apdu_dispatcher_def handler_get_version_def handler_get_app_name_def)
    then show ?thesis by blast
  qed
qed

lemma phase_of_exited: "phase_of (d\<lparr>exited := b\<rparr>) = phase_of d"
  using received_cong [of "d\<lparr>exited := b\<rparr>" d] by (simp add: phase_of_def split: screen.splits state_e.splits)

lemma device_inv_exited: "device_inv e shake conf d \<Longrightarrow> device_inv e shake conf (d\<lparr>exited := b\<rparr>)"
proof -
  let ?d = "d\<lparr>exited := b\<rparr>"
  have s: "same_request ?d d" "nv_sig (nvm ?d) = nv_sig (nvm d)" by (simp_all add: same_request_def)
  have p: "pending_tx e ?d = pending_tx e d"
    using hashed_cong [of ?d d e] decoded_cong [of ?d d] by (simp add: pending_tx_def)
  have "screen_inv e shake ?d = screen_inv e shake d"
    using shows_tx_cong [OF s(1)] blind_ok_cong [OF s(1)] p
    by (simp add: screen_inv_def shows_address_def split: screen.splits review_callback.splits)
  then show "device_inv e shake conf d \<Longrightarrow> device_inv e shake conf ?d"
    using approved_tx_cong [OF s] by (simp add: device_inv_def wf_device_def)
qed

lemma round_inv:
  assumes ok: "env_ok e st shake" and d: "device_inv e shake conf d" "\<not> is_review (on_screen d)"
  shows "(app_main_round e apdu d = None \<and> (\<exists>cmd. apdu_parser e apdu = Some cmd \<and> cmd_cla cmd = APDU_CLA \<and>
        cmd_ins cmd = SIGN_TX \<and> cmd_p1 cmd = 2 \<and> cmd_p2 cmd = 0 \<and> cmd_data cmd \<noteq> None \<and> crashes e (command_buffer cmd) d)) \<or>
    (\<exists>d'. app_main_round e apdu d = Some d' \<and> served e shake conf d d')"
proof (cases "apdu_parser e apdu")
  case None
  then show ?thesis using serves_send(2) [OF d(1) underway_same [OF d(2)]] by (simp add: app_main_round_def io_send_sw_def io_send_response_def)
next
  case (Some cmd)
  show ?thesis
  proof (cases "apdu_dispatcher e cmd d")
    case None
    then have "cmd_cla cmd = APDU_CLA \<and> cmd_ins cmd = SIGN_TX \<and> cmd_p1 cmd = 2 \<and> cmd_p2 cmd = 0 \<and>
        cmd_data cmd \<noteq> None \<and> crashes e (command_buffer cmd) d"
      using serves_dispatcher [OF ok d, of cmd] by (simp add: serves_def)
    then show ?thesis using None Some by (simp add: app_main_round_def)
  next
    case (Some rd)
    then obtain r d1 where rd: "apdu_dispatcher e cmd d = Some (r, d1)" by (cases rd) simp
    then have "served e shake conf d d1"
      using serves_dispatcher [OF ok d, of cmd] by simp
    then show ?thesis
      using rd \<open>apdu_parser e apdu = Some cmd\<close> device_inv_exited [of e shake conf d1 True]
      by (simp add: app_main_round_def served_def due_def phase_of_exited)
  qed
qed


section \<open>The choices keep the invariant\<close>

lemma due_cong: "sent d' = sent d @ [r] \<Longrightarrow> \<not> is_review (on_screen d') \<Longrightarrow> is_review (on_screen d) \<Longrightarrow> due d' = due d"
  by (simp add: due_def)

lemma due_shown: "is_review (on_screen d) \<Longrightarrow> due d = due (show_screen Blank d) + 1"
  by (simp add: due_def show_screen_def is_review_def)

text \<open>A choice answers the command that opened the page, or opens the next page.\<close>

definition chosen :: "env \<Rightarrow> (bytes \<Rightarrow> bytes) \<Rightarrow> screen \<Rightarrow> bool \<Rightarrow> device \<Rightarrow> device \<Rightarrow> bool" where
  "chosen e shake conf ok d d' \<longleftrightarrow> device_inv e shake conf d' \<and> due d' = due d \<and>
     choice_step ok (phase_of d) (phase_of d')"

lemma phase_of_page:
  "on_screen d = Review b ps t f cb \<Longrightarrow> phase_of d = Reviewing (received d)"
  "on_screen d = Address_Review a \<Longrightarrow> phase_of d = Showing_Address"
  by (simp_all add: phase_of_def)

lemma phase_of_zero:
  "ctx d = zero_ctx n \<Longrightarrow> \<not> is_review (on_screen d) \<Longrightarrow> phase_of d = Idle"
  by (simp add: phase_of_quiet zero_ctx_def)

lemma choice_step_quiet: "\<not> is_review (on_screen d) \<Longrightarrow> choice_step ok (phase_of d) (phase_of d)"
  by (rule choice_menu) (auto simp: phase_of_quiet split: state_e.splits)

text \<open>The transaction review.\<close>

lemma transaction_refused:
  assumes wf: "wf_device e d" and s: "on_screen d = Review b pairs t f Transaction_Choice"
    and r: "review_choice e rnd False (show_screen Blank d) = Some d'"
  shows "chosen e shake conf False d d'"
proof -
  have d': "d' = show_screen (Review_Status TRANSACTION_REJECTED)
      (bzero_ctx e (snd (io_send_sw e SW_DENY (show_screen Blank d))))"
    using r by (simp add: review_choice_def validate_transaction_def)
  then have f: "on_screen d' = Review_Status TRANSACTION_REJECTED" "sent d' = sent d @ [([], SW_DENY)]"
    "ctx d' = zero_ctx (max_bip32_path e)" "nvm d' = nvm d" by (simp_all add: dev_simps)
  have q: "\<not> is_review (on_screen d')" by (simp add: f is_review_def)
  have "wf_device e d'" using wf wf_zero_ctx by (simp add: wf_device_def f)
  then have "device_inv e shake conf d'" by (rule device_inv_fresh [OF _ q]) (simp add: f zero_ctx_def)
  then show ?thesis
    using due_cong [OF f(2) q] choice_stop phase_of_zero [OF f(3) q] phase_of_page(1) [OF s]
    by (simp add: s is_review_def chosen_def)
qed

lemma transaction_signed:
  assumes l: "env_lengths e" and wf: "wf_device e d"
    and p: "pending_tx e d" "shows_tx e shake (nvm d) d pairs" "blind_ok (nvm d) d"
    and s: "on_screen d = Review b pairs t f Transaction_Choice"
    and r: "review_choice e rnd True (show_screen Blank d) = Some d'"
  shows "chosen e shake (on_screen d) True d d'"
proof -
  let ?d0 = "show_screen Blank d"
  have wf0: "wf_device e ?d0" using wf by (simp add: wf_device_def show_screen_def)
  have c0: "ctx ?d0 = ctx d" "nvm ?d0 = nvm d" "sent ?d0 = sent d" by (simp_all add: show_screen_def)
  obtain res d1 sig where v: "validate_transaction e rnd True ?d0 = Some (res, d1)" "length sig = MLDSA87_SIGBYTES"
    and cases: "if res then d1 = (set_state STATE_APPROVED ?d0)
               \<lparr>nvm := (nvm ?d0)\<lparr>nv_sig := sig, is_sending_signature := 1\<rparr>,
                sent := sent ?d0 @ [(sigc.pieces sig ! 0, SW_OK)]\<rparr> \<and> signature_valid e d1
   else d1 = (set_state STATE_NONE ?d0)
               \<lparr>nvm := (nvm ?d0)\<lparr>nv_sig := sig\<rparr>, sent := sent ?d0 @ [([], SW_SIGNATURE_FAIL)]\<rparr>"
    using validate_transaction_approved [OF l wf0, of rnd] by blast
  obtain st where d': "d' = show_screen (Review_Status st) d1" using r v(1) by (auto simp: review_choice_def)
  have q: "\<not> is_review (on_screen d')" by (simp add: d' show_screen_def is_review_def)
  have same: "same_request d' d"
    using cases c0 by (cases res) (simp_all add: d' same_request_def set_state_def show_screen_def)
  have wf': "wf_device e d'"
    using cases wf v(2) c0 by (cases res) (simp_all add: d' wf_device_def wf_ctx_def wf_nvm_def set_state_def show_screen_def)
  obtain resp where "sent d' = sent d @ [resp]" using cases c0 by (cases res) (auto simp: d' show_screen_def)
  then have due: "due d' = due d" by (rule due_cong [OF _ q]) (simp add: s is_review_def)
  have t: "tx_info (ctx d') = tx_info (ctx d)" using same by (simp add: same_request_def)
  have rc: "received d' = received d" by (rule received_cong [OF t])
  have rq: "req_type (ctx d') = CONFIRM_TRANSACTION"
    using cases p(1) by (cases res) (simp_all add: d' set_state_def show_screen_def pending_tx_def)
  have "g_state (ctx d') = (if res then STATE_APPROVED else STATE_NONE)"
    using cases by (cases res) (simp_all add: d' set_state_def show_screen_def)
  note ph = phase_of_quiet [OF q] rq rc this phase_of_page(1) [OF s]
  show ?thesis
  proof (cases res)
    case False
    then show ?thesis using device_inv_fresh [OF wf' q] due choice_failed by (simp add: ph chosen_def)
  next
    case True
    have "same_request d' d1" "nv_sig (nvm d') = nv_sig (nvm d1)" by (simp_all add: d' same_request_def show_screen_def)
    moreover have "signature_valid e d1" using cases unfolding if_P [OF True] by blast
    ultimately have sv: "signature_valid e d'" using signature_valid_cong [of d' d1 e] by (simp only: simp_thms)
    have "approved_tx e shake (on_screen d) d'"
      using p sv s hashed_cong [OF t, of e] decoded_cong [OF t] shows_tx_cong [OF same, of e shake "nvm d" pairs]
        blind_ok_cong [OF same, of "nvm d"]
      unfolding approved_tx_def pending_tx_def by blast
    then show ?thesis using True wf' screen_inv_quiet [OF q] due choice_release by (simp add: ph chosen_def device_inv_def)
  qed
qed

lemma transaction_choice:
  assumes "env_lengths e" "wf_device e d" "pending_tx e d" "shows_tx e shake (nvm d) d pairs" "blind_ok (nvm d) d"
    and s: "on_screen d = Review b pairs t f Transaction_Choice"
    and r: "review_choice e rnd ok (show_screen Blank d) = Some d'"
  shows "chosen e shake (note_choice ok (on_screen d) conf) ok d d'"
  using transaction_signed [OF assms(1-6)] transaction_refused [OF assms(2) s] r
  by (cases ok) (simp_all add: note_choice_def s)

text \<open>The address review.\<close>

lemma address_choice:
  assumes wf: "wf_device e d" and st: "req_type (ctx d) = CONFIRM_ADDRESS"
    and s: "on_screen d = Address_Review a"
  shows "\<exists>d'. address_review_choice e ok (show_screen Blank d) = Some d' \<and> chosen e shake conf ok d d'"
proof -
  have a: "read_block (g_address (ctx d)) 0 ADDRESS_SIZE = Some (g_address (ctx d))"
    by (rule read_address) (use wf_device_parts [OF wf] in blast)
  define resp where "resp = (if ok then (ZOND_ADDRESS_PREFIX # g_address (ctx d), SW_OK) else ([], SW_DENY))"
  let ?d' = "d\<lparr>ctx := (if ok then (ctx d)\<lparr>g_state := STATE_APPROVED\<rparr> else zero_ctx (max_bip32_path e)),
      sent := sent d @ [resp], on_screen := Review_Status (if ok then ADDRESS_VERIFIED else ADDRESS_REJECTED)\<rparr>"
  have r: "address_review_choice e ok (show_screen Blank d) = Some ?d'"
    using a by (simp add: address_review_choice_def validate_pubkey_def helper_send_response_address_def dev_simps resp_def)
  have q: "\<not> is_review (on_screen ?d')" by (simp add: is_review_def)
  have "wf_device e ?d'" using wf wf_zero_ctx by (simp add: wf_device_def wf_ctx_def)
  then have "device_inv e shake conf ?d'"
    using st by (intro device_inv_fresh [OF _ q]) (simp_all add: zero_ctx_def)
  moreover have "due ?d' = due d" by (rule due_cong [OF _ q]) (simp_all add: s is_review_def)
  moreover have "phase_of ?d' = Idle" using q st by (simp add: phase_of_quiet zero_ctx_def)
  ultimately show ?thesis using r choice_address phase_of_page(2) [OF s] by (auto simp: chosen_def)
qed


text \<open>The selector and parameter pages.\<close>

lemma param_page_inv:
  assumes ok: "env_ok e st shake" and wf: "wf_device e d" and q: "\<not> is_review (on_screen d)"
    and p: "pending_tx e d" "blind_ok (nvm d) d" "unat (g_param_count d) \<le> 16"
    and i: "g_param_index d < g_param_count d"
  shows "\<exists>d'. buildScreen e PARAMETER_CONFIRMATION d = Some d' \<and> reviews e shake conf d d'"
proof -
  have f: "format_hex_ok e" using ok by (simp add: env_ok_def)
  have c: "0 < g_param_count d" "unat (g_param_index d) < 16"
    using i p(3) by (auto simp: word_less_nat_alt)
  let ?d' = "show_screen (param_page (cd_params (calldata_of (tx_info (ctx d))) ! unat (g_param_index d))) d"
  have "device_inv e shake conf ?d'"
    unfolding param_page_def by (rule device_inv_param_page [OF wf p])
  moreover have "due ?d' = due d + 1" using q by (simp add: due_def show_screen_def param_page_def is_review_def)
  moreover have "phase_of ?d' = Reviewing (received d)"
    by (simp add: phase_of_def show_screen_def param_page_def received_shown)
  ultimately show ?thesis using buildScreen_parameter [OF f wf c] by (simp add: reviews_def)
qed

text \<open>Refusing a page ends the request.\<close>

lemma parameter_refused:
  assumes wf: "wf_device e d" and scr: "on_screen d = Review b ps t f Parameter_Choice"
  shows "\<exists>d'. param_review_choice e False (show_screen Blank d) = Some d' \<and> chosen e shake conf False d d'"
proof -
  let ?d' = "bzero_ctx e (show_screen (Review_Status TRANSACTION_REJECTED)
                (snd (io_send_sw e SW_DENY (set_state STATE_NONE (show_screen Blank d)))))"
  have f: "on_screen ?d' = Review_Status TRANSACTION_REJECTED" "sent ?d' = sent d @ [([], SW_DENY)]"
    "ctx ?d' = zero_ctx (max_bip32_path e)" "nvm ?d' = nvm d" by (simp_all add: dev_simps)
  have q: "\<not> is_review (on_screen ?d')" by (simp add: f is_review_def)
  have "wf_device e ?d'" using wf wf_zero_ctx by (simp add: wf_device_def f)
  then have "device_inv e shake conf ?d'" by (rule device_inv_fresh [OF _ q]) (simp add: f zero_ctx_def)
  moreover have "due ?d' = due d" by (rule due_cong [OF f(2) q]) (simp add: scr is_review_def)
  moreover have "param_review_choice e False (show_screen Blank d) = Some ?d'" by (simp add: param_review_choice_def)
  ultimately show ?thesis
    using phase_of_zero [OF f(3) q] choice_stop phase_of_page(1) [OF scr] unfolding chosen_def by metis
qed

text \<open>The device after a page has been confirmed, before the next one is shown.\<close>

definition next_page :: "device \<Rightarrow> device" where
  "next_page d = (if g_current_screen d = SELECTOR_CONFIRMATION
      then (show_screen Blank d)\<lparr>g_current_screen := PARAMETER_CONFIRMATION, g_param_index := 0\<rparr>
      else (show_screen Blank d)\<lparr>g_param_index := g_param_index d + 1\<rparr>)"

lemma next_page_facts:
  "ctx (next_page d) = ctx d" "nvm (next_page d) = nvm d" "sent (next_page d) = sent d"
  "g_param_count (next_page d) = g_param_count d" "on_screen (next_page d) = Blank"
  "g_current_screen (next_page d) = PARAMETER_CONFIRMATION"
  by (simp_all add: next_page_def show_screen_def) (metis e_confirmation_type.exhaust)

lemma page_confirmed:
  "param_review_choice e True (show_screen Blank d) =
     (if g_param_index (next_page d) < g_param_count (next_page d) then buildScreen e PARAMETER_CONFIRMATION (next_page d)
      else do { (r, d2) \<leftarrow> ui_display_blind_signed_transaction e (next_page d); Some d2 })"
  by (simp add: param_review_choice_def next_page_def show_screen_def)

lemma parameter_confirmed:
  assumes ok: "env_ok e st shake" and wf: "wf_device e d"
    and p: "pending_tx e d" "blind_ok (nvm d) d" "unat (g_param_count d) \<le> 16"
    and scr: "on_screen d = Review b ps t f Parameter_Choice"
  shows "param_review_choice e True (show_screen Blank d) = None \<and> undisplayable d \<or>
    (\<exists>d'. param_review_choice e True (show_screen Blank d) = Some d' \<and> chosen e shake conf True d d')"
proof -
  have x: "xof_ok e st shake" and l: "env_lengths e" using ok by (simp_all add: env_ok_def)
  let ?d1 = "next_page d"
  note c = next_page_facts [of d]
  have wf1: "wf_device e ?d1" using wf by (simp add: wf_device_def c)
  have q: "\<not> is_review (on_screen ?d1)" by (simp add: c is_review_def)
  have due: "due d = due ?d1 + 1" by (simp add: due_def c scr is_review_def)
  have rc: "received ?d1 = received d" by (rule received_cong) (simp add: c)
  have p1: "pending_tx e ?d1" "blind_ok (nvm ?d1) ?d1" "unat (g_param_count ?d1) \<le> 16" and u: "undisplayable ?d1 = undisplayable d"
    using p hashed_cong [of ?d1 d e] decoded_cong [of ?d1 d]
    by (simp_all add: pending_tx_def blind_ok_def undisplayable_def c)
  have ch: "chosen e shake conf True d d'" if "reviews e shake conf ?d1 d'" for d'
    using that due rc choice_stop choice_next_page phase_of_page(1) [OF scr]
    by (auto simp: chosen_def reviews_def)
  show ?thesis
  proof (cases "g_param_index ?d1 < g_param_count ?d1")
    case i: True
    then show ?thesis using param_page_inv [OF ok wf1 q p1 i, of conf] ch by (auto simp: page_confirmed)
  next
    case i: False
    from serves_display_tx [OF x l wf1 q p1(1,2), of conf True] show ?thesis
      using i u ch
      by (cases "ui_display_transaction_bs_choice e True ?d1")
        (auto simp: page_confirmed ui_display_blind_signed_transaction_def opens_def)
  qed
qed

text \<open>The page that refuses a transaction leads to the menu or to the settings.\<close>

lemma menu_choice:
  assumes d: "device_inv e shake conf d" and pg: "on_screen d = Choice_Page t m y n"
  shows "chosen e shake conf cf d (ui_error_blind_signing_choice e cf (show_screen Blank d))"
proof -
  let ?d' = "ui_error_blind_signing_choice e cf (show_screen Blank d)"
  have c: "ctx ?d' = ctx d" "nvm ?d' = nvm d" "sent ?d' = sent d" "\<not> is_review (on_screen ?d')"
    by (simp_all add: ui_error_blind_signing_choice_def ui_settings_def ui_menu_main_def show_screen_def is_review_def)
  have "device_inv e shake conf ?d'"
    by (rule device_inv_keep [OF d _ c(4)]) (use d c in \<open>simp_all add: device_inv_def wf_device_def\<close>)
  moreover have "due ?d' = due d" using c by (simp add: due_def pg is_review_def)
  moreover have "phase_of ?d' = phase_of d" by (rule phase_of_cong [OF c(1,4)]) (simp add: pg is_review_def)
  moreover have "choice_step cf (phase_of d) (phase_of d)" by (rule choice_step_quiet) (simp add: pg is_review_def)
  ultimately show ?thesis by (simp add: chosen_def)
qed

text \<open>Every choice.\<close>

lemma choice_inv:
  assumes ok: "env_ok e st shake" and d: "device_inv e shake conf d"
    and page: "is_review (on_screen d) \<or> (\<exists>t m y n. on_screen d = Choice_Page t m y n)"
  shows "(run_choice e rnd cf d = None \<and> undisplayable d) \<or>
    (\<exists>d'. run_choice e rnd cf d = Some d' \<and> chosen e shake (note_choice cf (on_screen d) conf) cf d d')"
proof -
  have wf: "wf_device e d" and si: "screen_inv e shake d" using d by (simp_all add: device_inv_def)
  have l: "env_lengths e" using ok by (simp add: env_ok_def)
  consider (tx) b ps t f where "on_screen d = Review b ps t f Transaction_Choice"
    | (par) b ps t f where "on_screen d = Review b ps t f Parameter_Choice"
    | (addr) a where "on_screen d = Address_Review a"
    | (pg) t m y n where "on_screen d = Choice_Page t m y n"
    using page by (cases "on_screen d") (auto simp: is_review_def intro: review_callback.exhaust)
  then show ?thesis
  proof cases
    case tx
    have si': "pending_tx e d" "shows_tx e shake (nvm d) d ps" "blind_ok (nvm d) d"
      using si by (simp_all add: screen_inv_def tx)
    have "\<exists>d'. review_choice e rnd cf (show_screen Blank d) = Some d'"
    proof -
      have "wf_device e (show_screen Blank d)" using wf by (simp add: wf_device_def show_screen_def)
      from validate_transaction_approved [OF l this, of rnd] obtain res d1 where
        "validate_transaction e rnd True (show_screen Blank d) = Some (res, d1)" by blast
      then show ?thesis by (cases cf) (simp_all add: review_choice_def validate_transaction_def)
    qed
    then show ?thesis
      using transaction_choice [OF l wf si' tx, of rnd cf _ conf] by (auto simp: run_choice_def tx)
  next
    case par
    have si': "pending_tx e d" "blind_ok (nvm d) d" "unat (g_param_count d) \<le> 16"
      using si by (simp_all add: screen_inv_def par)
    then show ?thesis
      using parameter_confirmed [OF ok wf si' par, of conf] parameter_refused [OF wf par, of shake conf]
      by (cases cf) (simp_all add: run_choice_def par note_choice_def)
  next
    case addr
    have "req_type (ctx d) = CONFIRM_ADDRESS" using si by (simp add: screen_inv_def addr)
    from address_choice [OF wf this addr, of cf shake conf] show ?thesis
      by (simp add: run_choice_def addr note_choice_def)
  next
    case pg
    from menu_choice [OF d pg, of cf] show ?thesis by (simp add: run_choice_def pg note_choice_def)
  qed
qed

end
