(* ===== verification/Signing.thy ===== *)
theory Signing
  imports Session
begin

text \<open>
  A complete signing session: the path, the chunks of the transaction, the review, the approval
  and the eighteen chunks of the signature. It shows that the guards of the handler do not lock
  out the sequence of commands the protocol prescribes.
\<close>


section \<open>Cryptography that works\<close>

text \<open>
  The documented behaviour of the SDK's Keccak and of ML-DSA: key generation is a function of the
  seed, and a signature made with a generated key verifies under the matching public key.
\<close>

definition keccak_ok :: "env \<Rightarrow> (bytes \<Rightarrow> bytes) \<Rightarrow> bool" where
  "keccak_ok e keccak \<longleftrightarrow> (\<forall>m out. length out = 32 \<longrightarrow> cx_keccak_256_hash e m out = (CX_OK, keccak m))"

definition mldsa_ok :: "env \<Rightarrow> (bytes \<Rightarrow> bytes) \<Rightarrow> (bytes \<Rightarrow> bytes) \<Rightarrow> bool" where
  "mldsa_ok e pub sec \<longleftrightarrow>
     (\<forall>p s seed. length p = MLDSA87_PUBLICKEYBYTES \<and> length s = secret_key_bytes e \<longrightarrow>
        mldsa_keygen e p s seed = (CX_OK, pub seed, sec seed)) \<and>
     (\<forall>seed r s m c. length s = MLDSA87_SIGBYTES \<longrightarrow>
        (\<exists>sig n. mldsa_sign e r s m c (sec seed) = (CX_OK, sig, n) \<and> unat n = MLDSA87_SIGBYTES \<and>
           mldsa_verify e sig m c (pub seed) = CX_OK))"

lemma keccak_length: "keccak_ok e keccak \<Longrightarrow> env_lengths e \<Longrightarrow> length (keccak m) = 32"
  unfolding keccak_ok_def env_lengths_def by (metis length_replicate snd_conv)

lemma mldsa_ok_key:
  assumes "mldsa_ok e pub sec" "os_derive_bip32_no_throw e path n (replicate 64 0) = (CX_OK, seed)"
  shows "key_of e path n = Some (pub seed)"
  using assms by (simp add: key_of_def mldsa_ok_def)

lemma crypto_sign_message_works:
  assumes l: "env_lengths e" and m: "mldsa_ok e pub sec"
    and s: "os_derive_bip32_no_throw e (bip32_path (ctx d)) (ucast (bip32_path_len (ctx d))) (replicate 64 0) = (CX_OK, seed)"
    and pk: "nv_pk (nvm d) = pub seed"
  shows "fst (crypto_sign_message e rnd d) = 0"
proof -
  have u: "length (uninit e n) = n" for n using l by (simp add: env_lengths_def)
  have "length (take MLDSA87_PUBLICKEYBYTES (uninit e MLDSA87_SIGBYTES)) = MLDSA87_PUBLICKEYBYTES"
    by (simp add: u size_consts)
  then have k: "mldsa_keygen e (take MLDSA87_PUBLICKEYBYTES (uninit e MLDSA87_SIGBYTES)) (uninit e (secret_key_bytes e)) seed =
      (CX_OK, pub seed, sec seed)" using m u by (simp add: mldsa_ok_def)
  have "length (pub seed) = MLDSA87_PUBLICKEYBYTES"
    by (rule key_of_length [OF l mldsa_ok_key [OF m s]])
  then have "length (pub seed @ drop MLDSA87_PUBLICKEYBYTES (uninit e MLDSA87_SIGBYTES)) = MLDSA87_SIGBYTES"
    by (simp add: u size_consts)
  then obtain sig n where g: "mldsa_sign e rnd (pub seed @ drop MLDSA87_PUBLICKEYBYTES (uninit e MLDSA87_SIGBYTES))
      (m_hash (tx_info (ctx d))) QRL_CTX (sec seed) = (CX_OK, sig, n)" "unat n = MLDSA87_SIGBYTES"
    "mldsa_verify e sig (m_hash (tx_info (ctx d))) QRL_CTX (pub seed) = CX_OK"
    using m unfolding mldsa_ok_def by blast
  show ?thesis by (simp add: crypto_sign_message_def s k g pk Let_def)
qed


section \<open>The phases\<close>

text \<open>The device after the last chunk \<open>c\<close>, hashed and decoded to \<open>its\<close>.\<close>

definition ready :: "(bytes \<Rightarrow> bytes) \<Rightarrow> bytes \<Rightarrow> bytes list \<Rightarrow> device \<Rightarrow> device" where
  "ready keccak c its d = (let d1 = appended c d; t = tx_info (ctx d1) in
     set_tx_info (t\<lparr>m_hash := keccak (received d1), tx_data_of := store_fields its (tx_data_of t)\<rparr>)
       (set_state STATE_PARSED d1))"

lemma ready_facts:
  assumes wf: "wf_device e d" and n: "unat (raw_tx_len (tx_info (ctx d))) + length c \<le> 2048"
    and its: "fields_ok its" and k: "length (keccak (received d @ c)) = 32"
  shows "wf_device e (ready keccak c its d)" "received (ready keccak c its d) = received d @ c"
    "m_hash (tx_info (ctx (ready keccak c its d))) = keccak (received d @ c)"
    "tx_data_of (tx_info (ctx (ready keccak c its d))) = store_fields its (tx_data_of (tx_info (ctx d)))"
    "g_state (ctx (ready keccak c its d)) = STATE_PARSED" "req_type (ctx (ready keccak c its d)) = req_type (ctx d)"
    "bip32_path (ctx (ready keccak c its d)) = bip32_path (ctx d)"
    "bip32_path_len (ctx (ready keccak c its d)) = bip32_path_len (ctx d)"
    "sent (ready keccak c its d) = sent d" "nvm (ready keccak c its d) = nvm d"
    "exited (ready keccak c its d) = exited d"
proof -
  note a = appended_facts [OF wf n]
  have td: "tx_data_of (tx_info (ctx (appended c d))) = tx_data_of (tx_info (ctx d))"
    by (simp add: appended_def Let_def set_tx_info_def)
  have wa: "wf_device e (set_state STATE_PARSED (appended c d))" "wf_tx_info (tx_info (ctx (appended c d)))"
    using wf_appended [OF wf n] by (simp_all add: wf_device_def wf_ctx_def set_state_def)
  have "wf_tx (store_fields its (tx_data_of (tx_info (ctx (appended c d)))))"
    using store_fields_bounds [OF its] wa(2) by (simp add: wf_tx_info_def)
  then show "wf_device e (ready keccak c its d)"
    using wa k unfolding ready_def Let_def by (intro wf_set_tx_info [OF wa(1)]) (simp add: wf_tx_info_def a(1))
  have "received (ready keccak c its d) = received (appended c d)"
    by (simp add: ready_def Let_def received_def set_tx_info_def set_state_def)
  then show "received (ready keccak c its d) = received d @ c" using a(1) by simp
  show "m_hash (tx_info (ctx (ready keccak c its d))) = keccak (received d @ c)"
    "tx_data_of (tx_info (ctx (ready keccak c its d))) = store_fields its (tx_data_of (tx_info (ctx d)))"
    "g_state (ctx (ready keccak c its d)) = STATE_PARSED" "req_type (ctx (ready keccak c its d)) = req_type (ctx d)"
    "bip32_path (ctx (ready keccak c its d)) = bip32_path (ctx d)"
    "bip32_path_len (ctx (ready keccak c its d)) = bip32_path_len (ctx d)"
    "sent (ready keccak c its d) = sent d" "nvm (ready keccak c its d) = nvm d"
    "exited (ready keccak c its d) = exited d"
    using a(1,3,5-8) td by (simp_all add: ready_def appended_def Let_def set_tx_info_def set_state_def)
qed

lemma sign_tx_last_ready:
  assumes b: "buffers_ok e" and wf: "wf_device e d" and c: "length c \<le> 255"
    and st: "req_type (ctx d) = CONFIRM_TRANSACTION" "g_state (ctx d) = STATE_NONE"
    and n: "unat (raw_tx_len (tx_info (ctx d))) + length c \<le> 2048"
    and its: "decode_spec (received d @ c) = Some its" and k: "keccak_ok e keccak"
  shows "handler_sign_tx e (chunk_buffer c) 2 0 d = route_review e (ready keccak c its d)"
proof -
  let ?d1 = "appended c d"
  let ?t = "tx_info (ctx ?d1)"
  have r: "recv_chunk e (chunk_buffer c) d = Some (None, ?d1)" using recv_chunk_copies [OF b wf c st] n by simp
  have t: "wf_tx_info ?t" "length (raw_tx ?t) = 2048" "unat (raw_tx_len ?t) \<le> 2048"
    using wf_device_tx [OF wf_appended [OF wf n]] by auto
  have rc: "received ?d1 = received d @ c" by (rule appended_facts(1) [OF wf n])
  have h: "cx_keccak_256_hash e (take (unat (raw_tx_len ?t)) (raw_tx ?t)) (m_hash ?t) = (CX_OK, keccak (received ?d1))"
    using k t(1) by (simp add: keccak_ok_def wf_tx_info_def received_def)
  have "unat (raw_tx_len ?t) \<le> length (raw_tx ?t)" "unat (raw_tx_len ?t) < 2 ^ 31" "wf_tx (tx_data_of ?t)"
    using t by (auto simp: wf_tx_info_def)
  from decode_ledger_tx_spec [OF this] have
    dec: "decode_ledger_tx (Some (raw_tx ?t)) (raw_tx_len ?t) (Some (tx_data_of ?t)) =
      Some (0, Some (store_fields its (tx_data_of ?t)))"
    using its rc by (auto simp: received_def)
  have "handler_sign_tx e (chunk_buffer c) 2 0 d = sign_tx_last e (chunk_buffer c) d"
    by (simp add: handler_sign_tx_def)
  also have "\<dots> = route_review e (ready keccak c its d)"
    by (simp add: sign_tx_last_def r h dec Let_def set_state_def set_tx_info_def ready_def)
  finally show ?thesis .
qed


section \<open>The signature chunks\<close>

definition sig_requests :: "env \<Rightarrow> device \<Rightarrow> device option" where
  "sig_requests e d = send_each (\<lambda>i. handler_sign_tx e (chunk_buffer []) 2 i) (map of_nat [1..<18]) d"

lemma handler_sig_chunk:
  assumes "req_type (ctx d) = CONFIRM_TRANSACTION" "g_state (ctx d) = STATE_APPROVED"
    "is_sending_signature (nvm d) \<noteq> 0" "0 < i" "i < 18"
  shows "handler_sign_tx e cdata 2 (of_nat i) d = helper_send_response_sig e (of_nat i) d"
proof -
  have u: "unat (of_nat i :: byte) = i" using assms(5) by (simp add: unat_of_nat)
  then have "(of_nat i :: byte) \<noteq> 0" "(of_nat i :: byte) > 0" "(of_nat i :: byte) < 18"
    using assms(4,5) by (auto simp: word_less_nat_alt)
  then show ?thesis using assms(1-3) by (simp add: handler_sign_tx_def sign_tx_signature_def)
qed

lemma send_each_requests:
  assumes "req_type (ctx d) = CONFIRM_TRANSACTION" "g_state (ctx d) = STATE_APPROVED"
    "is_sending_signature (nvm d) \<noteq> 0" "wf_nvm (nvm d)" "1 \<le> k" "k \<le> 17"
  shows "send_each (\<lambda>i. handler_sign_tx e cdata 2 i) (map of_nat [1..<k]) d =
    Some (d\<lparr>sent := sent d @ map (\<lambda>i. (sigc.pieces (nv_sig (nvm d)) ! i, SW_OK)) [1..<k]\<rparr>)"
  using assms(5,6)
proof (induction k rule: dec_induct)
  case base
  then show ?case by simp
next
  case (step k)
  let ?d = "d\<lparr>sent := sent d @ map (\<lambda>i. (sigc.pieces (nv_sig (nvm d)) ! i, SW_OK)) [1..<k]\<rparr>"
  have u: "unat (of_nat k :: byte) = k" using step by (simp add: unat_of_nat)
  then have n: "(of_nat k :: byte) \<noteq> 0" "(of_nat k :: byte) \<noteq> 17" using step by (auto simp: word_unat_eq_iff)
  have "handler_sign_tx e cdata 2 (of_nat k) ?d = helper_send_response_sig e (of_nat k) ?d"
    by (rule handler_sig_chunk) (use assms(1-3) step in simp_all)
  also have "\<dots> = Some (0, d\<lparr>sent := sent d @ map (\<lambda>i. (sigc.pieces (nv_sig (nvm d)) ! i, SW_OK)) [1..<Suc k]\<rparr>)"
    using helper_send_response_sig_result [of ?d "of_nat k" e] assms(4) step n u by (simp add: sending_flag_def)
  finally show ?case using step by (simp add: send_each_append)
qed

lemma sig_requests_result:
  assumes "req_type (ctx d) = CONFIRM_TRANSACTION" "g_state (ctx d) = STATE_APPROVED"
    "is_sending_signature (nvm d) \<noteq> 0" "wf_nvm (nvm d)"
  shows "\<exists>d'. sig_requests e d = Some d' \<and> nv_sig (nvm d') = nv_sig (nvm d) \<and>
    ctx d' = zero_ctx (max_bip32_path e) \<and>
    sent d' = sent d @ map (\<lambda>i. (sigc.pieces (nv_sig (nvm d)) ! i, SW_OK)) [1..<18]"
proof -
  let ?d = "d\<lparr>sent := sent d @ map (\<lambda>i. (sigc.pieces (nv_sig (nvm d)) ! i, SW_OK)) [1..<17]\<rparr>"
  have upt: "[1..<18] = [1..<17] @ [17 :: nat]" by (simp add: upt_rec)
  have h: "handler_sign_tx e (chunk_buffer []) 2 17 ?d = helper_send_response_sig e 17 ?d"
    using handler_sig_chunk [of ?d 17] assms(1-3) by simp
  show ?thesis
    unfolding sig_requests_def upt map_append send_each_append
    using send_each_requests [OF assms, of 17 e "chunk_buffer []"] h helper_send_response_sig_result [of ?d 17 e] assms(4)
    by (simp add: sending_flag_def)
qed


section \<open>Which pages open\<close>

text \<open>Data that is a selector and whole slots.\<close>

definition whole_call :: "zond_tx_t \<Rightarrow> bool" where
  "whole_call tx \<longleftrightarrow> 4 \<le> unat (tx_data_len tx) \<and> (unat (tx_data_len tx) - 4) mod 64 = 0"

text \<open>The number of selector and parameter pages before the transaction review, and the form of the review.\<close>

definition call_page_count :: "internal_storage_t \<Rightarrow> zond_tx_t \<Rightarrow> nat" where
  "call_page_count n tx =
     (if enable_debug_smart_contract n \<noteq> 0 \<and> tx_to_len tx \<noteq> 0 \<and> whole_call tx
      then 1 + min ((unat (tx_data_len tx) - 4) div 64) 16 else 0)"

definition blind_form :: "internal_storage_t \<Rightarrow> zond_tx_t \<Rightarrow> bool" where
  "blind_form n tx \<longleftrightarrow> tx_data_len tx \<noteq> 0 \<and>
     \<not> (enable_debug_smart_contract n \<noteq> 0 \<and> tx_to_len tx \<noteq> 0 \<and> \<not> whole_call tx)"

lemma whole_call_encoding:
  assumes wf: "wf_device e d" and len: "tx_data_len (tx_data_of (tx_info (ctx d))) \<le> 2048"
  shows "whole_call (tx_data_of (tx_info (ctx d))) \<longleftrightarrow> (\<exists>sel slots. is_encoding (calldata_bytes d) sel slots)"
    "is_encoding (calldata_bytes d) sel slots \<Longrightarrow>
      length slots = (unat (tx_data_len (tx_data_of (tx_info (ctx d)))) - 4) div 64"
proof -
  let ?tx = "tx_data_of (tx_info (ctx d))"
  have l: "length (calldata_bytes d) = unat (tx_data_len ?tx)"
    using wf_device_tx [OF wf] len by (simp add: calldata_bytes_def wf_tx_info_def wf_tx_def size_consts word_le_nat_alt)
  show n: "is_encoding (calldata_bytes d) sel slots \<Longrightarrow> length slots = (unat (tx_data_len ?tx) - 4) div 64" for sel slots
    using is_encoding_length l by fastforce
  show "whole_call ?tx \<longleftrightarrow> (\<exists>sel slots. is_encoding (calldata_bytes d) sel slots)"
  proof
    assume "whole_call ?tx"
    then have "length (calldata_bytes d) = 4 + 64 * ((unat (tx_data_len ?tx) - 4) div 64)"
      using l by (auto simp: whole_call_def)
    then show "\<exists>sel slots. is_encoding (calldata_bytes d) sel slots" by (rule encoding_exists)
  next
    assume "\<exists>sel slots. is_encoding (calldata_bytes d) sel slots"
    then obtain slots :: "bytes list" where "length (calldata_bytes d) = 4 + 64 * length slots" using is_encoding_length by blast
    then show "whole_call ?tx" using l by (simp add: whole_call_def)
  qed
qed

text \<open>
  From the decoded transaction to its review, through the pages of a call when there are any: after
  \<open>n\<close> confirmations the review is open, in the blind-signing form if \<open>b\<close>.
\<close>

definition opens_as :: "env \<Rightarrow> (bytes \<Rightarrow> bytes) \<Rightarrow> nat \<Rightarrow> bool \<Rightarrow> bytes \<Rightarrow> device \<Rightarrow> bool" where
  "opens_as e shake n b pk d \<longleftrightarrow> (\<exists>d0 d1 cd. route_review e d = Some (0, d0) \<and> walks_pages e n d0 \<and> exited d0 = exited d \<and>
     confirms e n d0 = Some (reviewing e shake b pk d1) \<and> wf_device e d1 \<and>
     ctx d1 = ctx (with_calldata cd d) \<and> nvm d1 = nvm d \<and> sent d1 = sent d \<and> exited d1 = exited d)"

lemma opens_at_once:
  "route_review e d = Some (0, reviewing e shake b pk (with_calldata cd d)) \<Longrightarrow> wf_device e (with_calldata cd d) \<Longrightarrow>
   opens_as e shake 0 b pk d"
  unfolding opens_as_def
  by (intro exI [of _ "reviewing e shake b pk (with_calldata cd d)"] exI [of _ "with_calldata cd d"] exI [of _ cd])
    (simp add: walks_pages_def reviewing_def Let_def pending_calldata)

lemma same_calldata: "with_calldata (calldata_of (tx_info (ctx d))) d = d"
  by (simp add: with_calldata_def set_tx_info_def)

text \<open>The pages of a call, from the selector to the review.\<close>

lemma opens_call:
  assumes f: "format_hex_ok e" and wf: "wf_device e d" and enc: "is_encoding (calldata_bytes d) sel slots"
    and disp: "\<And>d1 cd. wf_device e d1 \<Longrightarrow> ctx d1 = ctx (with_calldata cd d) \<Longrightarrow>
      ui_display_transaction_bs_choice e True d1 = Some (0, reviewing e shake True pk d1)"
    and r: "route_review e d = ui_confirm_selector e (ui_contract_call_init (of_nat (min (length slots) 16))
      (with_calldata (parsed_calldata sel slots) d))"
  shows "opens_as e shake (1 + min (length slots) 16) True pk d"
proof -
  let ?cd = "parsed_calldata sel slots" and ?cnt = "of_nat (min (length slots) 16) :: byte"
  let ?i = "ui_contract_call_init ?cnt (with_calldata ?cd d)"
  let ?sel = "cd_selector (calldata_of (tx_info (ctx ?i)))"
  have wd: "wf_device e (with_calldata ?cd d)" by (rule wf_with_calldata [OF wf wf_parsed_calldata [OF enc]])
  have cnt: "unat ?cnt = min (length slots) 16" by (simp add: unat_of_nat)
  then have n: "1 + min (length slots) 16 = unat ?cnt + 1" "unat ?cnt \<le> 16" by simp_all
  have "wf_device e ?i" using wd by (simp add: wf_device_def ui_contract_call_init_facts)
  from buildScreen_selector [OF this]
  have rt: "route_review e d = Some (0, show_screen (selector_page ?sel) ?i)" by (simp add: r ui_confirm_selector_def)
  obtain d1 where d1: "confirms e (unat ?cnt + 1) (show_screen (selector_page ?sel) ?i) =
      map_option snd (ui_display_blind_signed_transaction e d1)" "ctx d1 = ctx (with_calldata ?cd d)"
      "nvm d1 = nvm d" "sent d1 = sent d" "exited d1 = exited d"
    using confirms_all [OF f wd n(2), of ?sel] by (auto simp: pending_calldata)
  have w1: "wf_device e d1" using wd by (simp add: wf_device_def d1 pending_calldata)
  have "confirms e (unat ?cnt + 1) (show_screen (selector_page ?sel) ?i) = Some (reviewing e shake True pk d1)"
    using d1(1) disp [OF w1 d1(2)] by (simp add: ui_display_blind_signed_transaction_def)
  moreover have "exited (show_screen (selector_page ?sel) ?i) = exited d"
    by (simp add: show_screen_def ui_contract_call_init_def pending_calldata)
  ultimately show ?thesis
    using rt w1 d1(2-5) confirms_walk [OF f wd n(2), of ?sel] unfolding opens_as_def n(1) by blast
qed

text \<open>With contract debugging on: page by page, or in the clear form when the data is not a call.\<close>

lemma opens_debugged:
  assumes f: "format_hex_ok e" and wf: "wf_device e d"
    and tx: "tx = tx_data_of (tx_info (ctx d))" "tx_data_len tx \<le> 2048"
    and on: "tx_data_len tx \<noteq> 0" "enable_blind_signing (nvm d) \<noteq> 0" "tx_to_len tx \<noteq> 0" "enable_debug_smart_contract (nvm d) \<noteq> 0"
    and disp: "\<And>b d1 cd. wf_device e d1 \<Longrightarrow> ctx d1 = ctx (with_calldata cd d) \<Longrightarrow>
      ui_display_transaction_bs_choice e b d1 = Some (0, reviewing e shake b pk d1)"
  shows "opens_as e shake (call_page_count (nvm d) tx) (blind_form (nvm d) tx) pk d"
proof -
  have len: "tx_data_len (tx_data_of (tx_info (ctx d))) \<le> 2048" using tx by simp
  note wc = whole_call_encoding [OF wf len, folded tx(1)]
  note p = route_parsed [OF wf len, folded tx(1), OF on]
  show ?thesis
  proof (cases "whole_call tx")
    case False
    then obtain cd where cd: "wf_calldata cd" "route_review e d = ui_display_transaction e (with_calldata cd d)"
      using p(2) wc(1) by blast
    have "call_page_count (nvm d) tx = 0" "\<not> blind_form (nvm d) tx"
      using on False by (simp_all add: call_page_count_def blind_form_def)
    moreover note w = wf_with_calldata [OF wf cd(1)]
    have "route_review e d = Some (0, reviewing e shake False pk (with_calldata cd d))"
      using cd(2) disp [OF w refl] by (simp add: ui_display_transaction_def)
    ultimately show ?thesis using opens_at_once [OF _ w] by simp
  next
    case True
    then obtain sel slots where enc: "is_encoding (calldata_bytes d) sel slots" using wc(1) by blast
    have "call_page_count (nvm d) tx = 1 + min (length slots) 16" "blind_form (nvm d) tx"
      using on True wc(2) [OF enc] by (simp_all add: call_page_count_def blind_form_def)
    then show ?thesis using opens_call [OF f wf enc disp p(1) [OF enc]] by simp
  qed
qed

lemma open_review_result:
  assumes ok: "env_ok e st shake" and wf: "wf_device e d"
    and st: "req_type (ctx d) = CONFIRM_TRANSACTION" "g_state (ctx d) = STATE_PARSED"
    and tx: "tx = tx_data_of (tx_info (ctx d))" "tx_in_bounds tx" "tx_data_len tx \<le> 2048" "displayable tx"
    and on: "tx_data_len tx = 0 \<or> enable_blind_signing (nvm d) \<noteq> 0"
    and key: "key_of e (bip32_path (ctx d)) (ucast (bip32_path_len (ctx d))) = Some pk"
  shows "opens_as e shake (call_page_count (nvm d) tx) (blind_form (nvm d) tx) pk d"
proof -
  have x: "xof_ok e st shake" and f: "format_hex_ok e" using ok by (simp_all add: env_ok_def)
  have disp: "ui_display_transaction_bs_choice e b d1 = Some (0, reviewing e shake b pk d1)"
    if "wf_device e d1" "ctx d1 = ctx (with_calldata cd d)" for b d1 cd
    using ui_display_transaction_result [OF x that(1), of b] that(2) st tx key by (simp add: with_calldata_def set_tx_info_def)
  note disp0 = disp [OF wf, of "calldata_of (tx_info (ctx d))", unfolded same_calldata, OF refl]
  note once = opens_at_once [of e d shake _ pk "calldata_of (tx_info (ctx d))", unfolded same_calldata, OF _ wf]
  consider "tx_data_len tx = 0"
    | "tx_data_len tx \<noteq> 0" "tx_to_len tx = 0 \<or> enable_debug_smart_contract (nvm d) = 0"
    | "tx_data_len tx \<noteq> 0" "tx_to_len tx \<noteq> 0" "enable_debug_smart_contract (nvm d) \<noteq> 0" by blast
  then show ?thesis
  proof cases
    case 1
    then have "call_page_count (nvm d) tx = 0" "\<not> blind_form (nvm d) tx"
      by (simp_all add: call_page_count_def blind_form_def whole_call_def)
    moreover have "route_review e d = Some (0, reviewing e shake False pk d)"
      using 1 tx(1) disp0 by (simp add: route_review_def Let_def ui_display_transaction_def)
    ultimately show ?thesis using once by simp
  next
    case 2
    then have "call_page_count (nvm d) tx = 0" "blind_form (nvm d) tx"
      by (auto simp: call_page_count_def blind_form_def)
    moreover have "route_review e d = Some (0, reviewing e shake True pk d)"
      using 2 on tx(1) disp0 by (auto simp: route_review_def Let_def ui_display_blind_signed_transaction_def)
    ultimately show ?thesis using once by simp
  next
    case 3
    then have on': "enable_blind_signing (nvm d) \<noteq> 0" using on by simp
    show ?thesis by (rule opens_debugged [OF f wf tx(1,3) 3(1) on' 3(2,3) disp])
  qed
qed


section \<open>The complete session\<close>

lemma decoded_tx_bounds:
  assumes "decode_spec bs = Some its" "wf_tx tx0"
  shows "tx_in_bounds (store_fields its tx0)" "tx_data_len (store_fields its tx0) \<le> 2048"
proof -
  note b = store_fields_bounds [OF decode_spec_fields_ok [OF assms(1)] assms(2)]
  then have "unat (tx_nonce_len (store_fields its tx0)) \<le> 8" "unat (tx_value_len (store_fields its tx0)) \<le> 32"
    "unat (tx_gas_fee_cap_len (store_fields its tx0)) \<le> 32" by (simp_all add: word_le_nat_alt)
  then show "tx_in_bounds (store_fields its tx0)" "tx_data_len (store_fields its tx0) \<le> 2048"
    using b unfolding tx_in_bounds_def by blast+
qed

text \<open>The page that opens, for a transaction \<open>tx\<close> with the hash \<open>h\<close>.\<close>

definition review_of :: "env \<Rightarrow> (bytes \<Rightarrow> bytes) \<Rightarrow> internal_storage_t \<Rightarrow> bytes \<Rightarrow> bytes \<Rightarrow> zond_tx_t \<Rightarrow> screen" where
  "review_of e shake n pk h tx = transaction_page e (blind_form n tx)
     (review_pairs e n tx (texts_of shake (shake ([1, 0, 0] @ pk)) h tx))"

text \<open>From the last chunk to the open transaction review.\<close>

lemma last_chunk_review:
  assumes ok: "env_ok e st shake" "keccak_ok e keccak" and wf: "wf_device e d"
    and s: "req_type (ctx d) = CONFIRM_TRANSACTION" "g_state (ctx d) = STATE_NONE"
    and c: "length c \<le> 255" "length (received d @ c) \<le> 2048"
    and its: "decode_spec (received d @ c) = Some its" "tx = store_fields its (tx_data_of (tx_info (ctx d)))"
      "displayable tx" "tx_data_len tx = 0 \<or> enable_blind_signing (nvm d) \<noteq> 0"
    and key: "key_of e (bip32_path (ctx d)) (ucast (bip32_path_len (ctx d))) = Some pk"
  shows "\<exists>d0 d'. handler_sign_tx e (chunk_buffer c) 2 0 d = Some (0, d0) \<and>
    walks_pages e (call_page_count (nvm d) tx) d0 \<and> exited d0 = exited d \<and>
    confirms e (call_page_count (nvm d) tx) d0 = Some d' \<and> wf_device e d' \<and>
    req_type (ctx d') = CONFIRM_TRANSACTION \<and> bip32_path (ctx d') = bip32_path (ctx d) \<and>
    bip32_path_len (ctx d') = bip32_path_len (ctx d) \<and> tx_data_of (tx_info (ctx d')) = tx \<and> nvm d' = (nvm d)\<lparr>nv_pk := pk\<rparr> \<and> sent d' = sent d \<and>
    exited d' = exited d \<and> received d' = received d @ c \<and> m_hash (tx_info (ctx d')) = keccak (received d @ c) \<and>
    on_screen d' = review_of e shake (nvm d) pk (keccak (received d @ c)) tx"
proof -
  have x: "xof_ok e st shake" and l: "env_lengths e" and b: "buffers_ok e" using ok by (simp_all add: env_ok_def)
  have n: "unat (raw_tx_len (tx_info (ctx d))) + length c \<le> 2048"
    using c(2) wf_device_tx [OF wf] by (simp add: received_def)
  have wt: "wf_tx (tx_data_of (tx_info (ctx d)))" using wf_device_tx [OF wf] by (simp add: wf_tx_info_def)
  let ?r = "ready keccak c its d"
  note r = ready_facts [where keccak = keccak, OF wf n decode_spec_fields_ok [OF its(1)] keccak_length [OF ok(2) l]]
  note bd = decoded_tx_bounds [OF its(1) wt, folded its(2)]
  have rt: "tx = tx_data_of (tx_info (ctx ?r))" using r(4) its(2) by simp
  have rk: "key_of e (bip32_path (ctx ?r)) (ucast (bip32_path_len (ctx ?r))) = Some pk" using r(7,8) key by simp
  obtain d0 d1 cd where w: "walks_pages e (call_page_count (nvm ?r) tx) d0" "exited d0 = exited ?r"
    and o: "route_review e ?r = Some (0, d0)" "confirms e (call_page_count (nvm ?r) tx) d0 = Some (reviewing e shake (blind_form (nvm ?r) tx) pk d1)"
    "wf_device e d1" "ctx d1 = ctx (with_calldata cd ?r)" "nvm d1 = nvm ?r" "sent d1 = sent ?r" "exited d1 = exited ?r"
    using open_review_result [OF ok(1) r(1) _ r(5) rt bd its(3) _ rk] s(1) r(6,10) its(4) unfolding opens_as_def by auto
  let ?d' = "reviewing e shake (blind_form (nvm ?r) tx) pk d1"
  have i: "m_hash (tx_info (ctx d1)) = keccak (received d @ c)" "tx_data_of (tx_info (ctx d1)) = tx"
    "req_type (ctx d1) = CONFIRM_TRANSACTION" "bip32_path (ctx d1) = bip32_path (ctx d)"
    "bip32_path_len (ctx d1) = bip32_path_len (ctx d)"
    using o(4) r s(1) its(2) by (simp_all add: with_calldata_def set_tx_info_def)
  have "received d1 = received (with_calldata cd ?r)" by (rule received_cong) (simp add: o(4))
  then have rcd: "received d1 = received d @ c" using r(2) by (simp add: pending_calldata)
  have "received ?d' = received d1" by (rule received_cong) (simp add: reviewing_def Let_def)
  moreover have "exited ?d' = exited d" using o(7) r(11) by (simp add: reviewing_def Let_def)
  moreover note rcd
  moreover have "wf_device e ?d'"
    using o(3) key_of_length [OF l key] x
    by (simp add: reviewing_def Let_def wf_device_def wf_ctx_def wf_nvm_def xof_ok_def)
  moreover have "on_screen ?d' = review_of e shake (nvm d) pk (keccak (received d @ c)) tx"
    using i o(5) r(10) by (simp add: review_of_def transaction_page_def reviewing_def Let_def)
  moreover have "handler_sign_tx e (chunk_buffer c) 2 0 d = Some (0, d0)" "confirms e (call_page_count (nvm d) tx) d0 = Some ?d'"
    using o(1,2) r(10) sign_tx_last_ready [OF b wf c(1) s n its(1) ok(2)] by simp_all
  moreover have "nvm ?d' = (nvm d)\<lparr>nv_pk := pk\<rparr>" using o(5) r(10) by (simp add: reviewing_def Let_def)
  moreover have "walks_pages e (call_page_count (nvm d) tx) d0" "exited d0 = exited d" using w r(10,11) by simp_all
  ultimately show ?thesis using i o(6) r(9)
    by (fastforce simp: reviewing_def Let_def)
qed

text \<open>From the open review to the first chunk of the signature.\<close>

lemma approval_signs:
  assumes l: "env_lengths e" and m: "mldsa_ok e pub sec" and wf: "wf_device e d"
    and key: "os_derive_bip32_no_throw e (bip32_path (ctx d)) (ucast (bip32_path_len (ctx d))) (replicate 64 0) = (CX_OK, seed)"
      "nv_pk (nvm d) = pub seed"
  shows "\<exists>d' sig. review_choice e rnd True d = Some d' \<and> length sig = MLDSA87_SIGBYTES \<and> nv_sig (nvm d') = sig \<and>
    sent d' = sent d @ [(sigc.pieces sig ! 0, SW_OK)] \<and> ctx d' = (ctx d)\<lparr>g_state := STATE_APPROVED\<rparr> \<and>
    nv_pk (nvm d') = nv_pk (nvm d) \<and> exited d' = exited d \<and>
    is_sending_signature (nvm d') = 1 \<and> wf_nvm (nvm d') \<and> signature_valid e d' \<and> on_screen d' = Review_Status TRANSACTION_SIGNED"
proof -
  have "fst (crypto_sign_message e rnd (set_state STATE_APPROVED d)) = 0"
    by (rule crypto_sign_message_works [OF l m]) (use key in \<open>simp_all add: set_state_def\<close>)
  then obtain d1 where "crypto_sign_message e rnd (set_state STATE_APPROVED d) = (0, d1)" by (metis prod.collapse)
  moreover obtain res d' sig where v: "validate_transaction e rnd True d = Some (res, d')" "length sig = MLDSA87_SIGBYTES"
    and cases: "if res then d' = (set_state STATE_APPROVED d)
                 \<lparr>nvm := (nvm d)\<lparr>nv_sig := sig, is_sending_signature := 1\<rparr>,
                  sent := sent d @ [(sigc.pieces sig ! 0, SW_OK)]\<rparr> \<and> signature_valid e d'
     else d' = (set_state STATE_NONE d)
                 \<lparr>nvm := (nvm d)\<lparr>nv_sig := sig\<rparr>, sent := sent d @ [([], SW_SIGNATURE_FAIL)]\<rparr>"
    using validate_transaction_approved [OF l wf, of rnd] by blast
  ultimately have res: "res" by (auto simp: validate_transaction_def split: bind_splits)
  have d': "d' = (set_state STATE_APPROVED d)
      \<lparr>nvm := (nvm d)\<lparr>nv_sig := sig, is_sending_signature := 1\<rparr>,
       sent := sent d @ [(sigc.pieces sig ! 0, SW_OK)]\<rparr>" "signature_valid e d'"
    using cases unfolding if_P [OF res] by blast+
  have "signature_valid e (show_screen (Review_Status TRANSACTION_SIGNED) d') = signature_valid e d'"
    by (rule signature_valid_cong) (simp_all add: same_request_def show_screen_def)
  then show ?thesis using v res d' wf
    by (intro exI [of _ "show_screen (Review_Status TRANSACTION_SIGNED) d'"] exI [of _ sig])
      (simp add: review_choice_def show_screen_def set_state_def wf_device_def wf_nvm_def)
qed


text \<open>The commands up to the open review, and from there to the last chunk of the signature.\<close>

definition review_steps :: "env \<Rightarrow> buffer_t \<Rightarrow> bytes list \<Rightarrow> bytes \<Rightarrow> nat \<Rightarrow> device \<Rightarrow> device option" where
  "review_steps e path chunks lst pages d = do {
     (r, d1) \<leftarrow> handler_sign_tx e path 0 0 d;
     d2 \<leftarrow> send_each (\<lambda>c. handler_sign_tx e (chunk_buffer c) 1 0) chunks d1;
     (r, d3) \<leftarrow> handler_sign_tx e (chunk_buffer lst) 2 0 d2;
     confirms e pages d3 }"

definition signing_steps ::
    "env \<Rightarrow> buffer_t \<Rightarrow> bytes list \<Rightarrow> bytes \<Rightarrow> nat \<Rightarrow> bytes \<Rightarrow> device \<Rightarrow> (device \<times> device) option" where
  "signing_steps e path chunks lst pages rnd d = do {
     d3 \<leftarrow> review_steps e path chunks lst pages d;
     d4 \<leftarrow> review_choice e rnd True d3;
     d5 \<leftarrow> sig_requests e d4;
     Some (d3, d5) }"

lemma review_steps_result:
  assumes ok: "env_ok e st shake" "keccak_ok e keccak" and wf: "wf_device e d"
    and path: "buffer_read_u8 e path_cmd 0 = (True, len, c1)"
      "buffer_read_bip32_path e c1 (replicate (max_bip32_path e) 0) (ucast len) = (True, path, c2)"
      "zond_path (take (unat len) path)" "key_of e path (ucast len) = Some pk"
    and chunks: "\<forall>c \<in> set chunks. length c \<le> 255" "length lst \<le> 255" "length (concat chunks @ lst) \<le> 2048"
    and tx: "decode_spec (concat chunks @ lst) = Some its" "tx = store_fields its zero_tx" "displayable tx"
      "tx_data_len tx = 0 \<or> enable_blind_signing (nvm d) \<noteq> 0"
  shows "\<exists>d3. review_steps e path_cmd chunks lst (call_page_count (nvm d) tx) d = Some d3 \<and> wf_device e d3 \<and>
    req_type (ctx d3) = CONFIRM_TRANSACTION \<and> bip32_path (ctx d3) = path \<and> bip32_path_len (ctx d3) = len \<and>
    nv_pk (nvm d3) = pk \<and> sent d3 = sent d @ replicate (length chunks + 1) ([], SW_OK) \<and>
    m_hash (tx_info (ctx d3)) = keccak (concat chunks @ lst) \<and>
    on_screen d3 = review_of e shake (nvm d) pk (keccak (concat chunks @ lst)) tx"
proof -
  have l: "env_lengths e" and b: "buffers_ok e" using ok by (simp_all add: env_ok_def)
  let ?d1 = "snd (io_send_sw e SW_OK (started e len path d))"
  note p = sign_tx_path_result(1) [OF l b path(1,2), of 0 d] sign_tx_path_result(2) [OF l b path(1,2)]
  have h1: "handler_sign_tx e path_cmd 0 0 d = Some (fst (io_send_sw e SW_OK (started e len path d)), ?d1)"
    using p(1) path(3) by simp
  note s1 = started_facts [where e = e and sw = SW_OK and len = len and path = path and d = d]
  have wf1: "wf_device e ?d1" by (rule s1(10) [OF wf p(2)])
  obtain d2 where d2: "send_each (\<lambda>c. handler_sign_tx e (chunk_buffer c) 1 0) chunks ?d1 = Some d2" "wf_device e d2"
    "received d2 = concat chunks" "sent d2 = sent d @ [([], SW_OK)] @ replicate (length chunks) ([], SW_OK)"
    "req_type (ctx d2) = CONFIRM_TRANSACTION" "g_state (ctx d2) = STATE_NONE" "bip32_path (ctx d2) = path"
    "bip32_path_len (ctx d2) = len" "tx_data_of (tx_info (ctx d2)) = zero_tx"
    "nvm d2 = (nvm d)\<lparr>nv_sig := replicate MLDSA87_SIGBYTES 0\<rparr>"
    using send_chunks_result [OF b wf1 s1(1,2) chunks(1)] chunks(3) s1 by auto
  have n2: "enable_blind_signing (nvm d2) = enable_blind_signing (nvm d)"
    "call_page_count (nvm d2) tx = call_page_count (nvm d) tx" "blind_form (nvm d2) tx = blind_form (nvm d) tx"
    by (simp_all add: d2(10) call_page_count_def blind_form_def)
  obtain p3 d3 where d3: "handler_sign_tx e (chunk_buffer lst) 2 0 d2 = Some (0, p3)"
    "confirms e (call_page_count (nvm d) tx) p3 = Some d3" "wf_device e d3"
    "req_type (ctx d3) = CONFIRM_TRANSACTION" "bip32_path (ctx d3) = path" "bip32_path_len (ctx d3) = len"
    "nvm d3 = (nvm d2)\<lparr>nv_pk := pk\<rparr>" "sent d3 = sent d2" "m_hash (tx_info (ctx d3)) = keccak (concat chunks @ lst)"
    "on_screen d3 = review_of e shake (nvm d2) pk (keccak (concat chunks @ lst)) tx"
    using last_chunk_review [OF ok d2(2,5,6) chunks(2), unfolded d2(3,7-9) n2, OF chunks(3) tx path(4)] unfolding n2 by blast
  have "review_of e shake (nvm d2) pk h tx = review_of e shake (nvm d) pk h tx" for h
    using review_pairs_settings [of "nvm d2" "nvm d" e tx] by (simp add: review_of_def d2(10) n2(3) [unfolded d2(10)])
  moreover have "review_steps e path_cmd chunks lst (call_page_count (nvm d) tx) d = Some d3"
    unfolding review_steps_def h1 using d2(1) d3(1,2) by (simp add: case_prod_beta)
  ultimately show ?thesis using d3 d2(4) by simp
qed

text \<open>From the open review to the last chunk of the signature.\<close>

lemma signature_after_review:
  assumes l: "env_lengths e" and m: "mldsa_ok e pub sec" and wf: "wf_device e d"
    and key: "os_derive_bip32_no_throw e (bip32_path (ctx d)) (ucast (bip32_path_len (ctx d))) (replicate 64 0) = (CX_OK, seed)"
      "nv_pk (nvm d) = pub seed" "req_type (ctx d) = CONFIRM_TRANSACTION"
  shows "\<exists>d4 d5 sig. review_choice e rnd True d = Some d4 \<and> sig_requests e d4 = Some d5 \<and>
    exited d4 = exited d \<and> length (sent d4) = Suc (length (sent d)) \<and> sent d5 = sent d @ map (\<lambda>c. (c, SW_OK)) sig \<and> length sig = 18 \<and>
    length (concat sig) = MLDSA87_SIGBYTES \<and> mldsa_verify e (concat sig) (m_hash (tx_info (ctx d))) QRL_CTX (pub seed) = CX_OK"
proof -
  obtain d4 sig where d4: "review_choice e rnd True d = Some d4" "length sig = MLDSA87_SIGBYTES" "nv_sig (nvm d4) = sig"
    "sent d4 = sent d @ [(sigc.pieces sig ! 0, SW_OK)]" "ctx d4 = (ctx d)\<lparr>g_state := STATE_APPROVED\<rparr>"
    "nv_pk (nvm d4) = nv_pk (nvm d)" "exited d4 = exited d" "is_sending_signature (nvm d4) = 1" "wf_nvm (nvm d4)" "signature_valid e d4"
    using approval_signs [OF l m wf key(1,2), of rnd] by auto
  obtain d5 where d5: "sig_requests e d4 = Some d5"
    "sent d5 = sent d4 @ map (\<lambda>i. (sigc.pieces sig ! i, SW_OK)) [1..<18]"
    using sig_requests_result [of d4 e] d4 key(3) by auto
  let ?p = "sigc.pieces sig"
  have lp: "length ?p = 18" by (rule sigc.length_pieces)
  have "map (\<lambda>i. (?p ! i, SW_OK)) [0..<18] = map (\<lambda>c. (c, SW_OK)) ?p"
    using lp by (intro nth_equalityI) simp_all
  moreover have "[0..<18] = 0 # [1..<18 :: nat]" by (simp add: upt_conv_Cons)
  ultimately have m: "map (\<lambda>c. (c, SW_OK)) ?p = [(?p ! 0, SW_OK)] @ map (\<lambda>i. (?p ! i, SW_OK)) [1..<18]"
    by (simp only: list.map append.simps)
  have out: "sent d5 = sent d @ map (\<lambda>c. (c, SW_OK)) ?p"
    unfolding d5(2) d4(4) m append_assoc by (rule refl)
  have "concat ?p = sig" by (rule sigc.concat_pieces [OF d4(2)])
  then have "length (concat ?p) = MLDSA87_SIGBYTES \<and>
      mldsa_verify e (concat ?p) (m_hash (tx_info (ctx d))) QRL_CTX (pub seed) = CX_OK"
    using d4(2,3,5,6,10) key(2) by (simp add: signature_valid_def)
  moreover have "length (sent d4) = Suc (length (sent d))" by (simp add: d4(4))
  ultimately show ?thesis using d4(1,7) d5(1) out lp by blast
qed

text \<open>
  C4. Signing works: with cryptography that behaves as documented, a valid path, the transaction in
  chunks of at most 255 bytes and at most 2048 in all, decoding to a displayable transaction that
  carries no data or is sent with blind signing on, the sequence of commands, confirmations and the
  approval runs to the end. A call with contract debugging on first takes as many confirmations as
  it has pages (the selector and at most sixteen parameters). The review that opens shows the
  decoded transaction, every command is answered with 9000, and the last eighteen responses put
  together are a signature of the Keccak hash of the bytes sent that verifies under the key of the
  path.
\<close>

theorem signing_completes:
  assumes ok: "env_ok e st shake" "keccak_ok e keccak" "mldsa_ok e pub sec" and wf: "wf_device e d"
    and path: "buffer_read_u8 e path_cmd 0 = (True, len, c1)"
      "buffer_read_bip32_path e c1 (replicate (max_bip32_path e) 0) (ucast len) = (True, path, c2)"
      "zond_path (take (unat len) path)"
      "os_derive_bip32_no_throw e path (ucast len) (replicate 64 0) = (CX_OK, seed)"
    and chunks: "\<forall>c \<in> set chunks. length c \<le> 255" "length lst \<le> 255" "length (concat chunks @ lst) \<le> 2048"
    and tx: "decode_spec (concat chunks @ lst) = Some its" "tx = store_fields its zero_tx" "displayable tx"
      "tx_data_len tx = 0 \<or> enable_blind_signing (nvm d) \<noteq> 0"
  shows "\<exists>d3 d5 sig. signing_steps e path_cmd chunks lst (call_page_count (nvm d) tx) rnd d = Some (d3, d5) \<and>
    on_screen d3 = Review (blind_form (nvm d) tx) (review_pairs e (nvm d) tx
      (texts_of shake (shake ([1, 0, 0] @ pub seed)) (keccak (concat chunks @ lst)) tx))
      REVIEW_TITLE (finish_title e (blind_form (nvm d) tx)) Transaction_Choice \<and>
    sent d5 = sent d @ replicate (length chunks + 1) ([], SW_OK) @ map (\<lambda>c. (c, SW_OK)) sig \<and> length sig = 18 \<and>
    mldsa_verify e (concat sig) (keccak (concat chunks @ lst)) QRL_CTX (pub seed) = CX_OK"
proof -
  have l: "env_lengths e" using ok by (simp add: env_ok_def)
  obtain d3 where d3: "review_steps e path_cmd chunks lst (call_page_count (nvm d) tx) d = Some d3" "wf_device e d3"
    "req_type (ctx d3) = CONFIRM_TRANSACTION" "bip32_path (ctx d3) = path" "bip32_path_len (ctx d3) = len"
    "nv_pk (nvm d3) = pub seed" "sent d3 = sent d @ replicate (length chunks + 1) ([], SW_OK)"
    "m_hash (tx_info (ctx d3)) = keccak (concat chunks @ lst)"
    "on_screen d3 = review_of e shake (nvm d) (pub seed) (keccak (concat chunks @ lst)) tx"
    using review_steps_result [OF ok(1,2) wf path(1-3) mldsa_ok_key [OF ok(3) path(4)] chunks tx] by blast
  obtain d4 d5 sig where s: "review_choice e rnd True d3 = Some d4" "sig_requests e d4 = Some d5"
    "sent d5 = sent d3 @ map (\<lambda>c. (c, SW_OK)) sig" "length sig = 18"
    "mldsa_verify e (concat sig) (m_hash (tx_info (ctx d3))) QRL_CTX (pub seed) = CX_OK"
    using signature_after_review [OF l ok(3) d3(2), unfolded d3(4,5), OF path(4) d3(6,3), of rnd] by blast
  have "signing_steps e path_cmd chunks lst (call_page_count (nvm d) tx) rnd d = Some (d3, d5)"
    by (simp add: signing_steps_def d3(1) s(1,2))
  moreover have "sent d5 = sent d @ replicate (length chunks + 1) ([], SW_OK) @ map (\<lambda>c. (c, SW_OK)) sig"
    unfolding s(3) d3(7) append_assoc by (rule refl)
  ultimately show ?thesis using s(4,5) d3(9) unfolding review_of_def transaction_page_def d3(8) by blast
qed


section \<open>A concrete session\<close>

lemma sample_env_ok: "env_ok sample_env (\<lambda>x. x) sample_shake"
  using sample_xof sample_lengths sample_buffers sample_format_hex by (simp add: env_ok_def)

definition sample_keccak :: "bytes \<Rightarrow> bytes" where "sample_keccak m = take 32 (m @ replicate 32 0)"

lemma sample_keccak_ok: "keccak_ok sample_env sample_keccak"
  by (simp add: keccak_ok_def sample_env_def sample_keccak_def)

lemma sample_mldsa_ok:
  "mldsa_ok sample_env (\<lambda>seed. replicate MLDSA87_PUBLICKEYBYTES 3) (\<lambda>seed. replicate (secret_key_bytes sample_env) 4)"
  by (auto simp: mldsa_ok_def sample_env_def MLDSA87_SIGBYTES_def)

lemma contract_creation_displayable:
  "displayable contract_creation_tx" "tx_data_len contract_creation_tx = 0"
  by (simp_all add: contract_creation_tx_def store_fields_def tx_field_specs_def padded_def overlay_def zero_tx_def
      size_consts displayable_def nonce_of_def value_of_def fee_cap_of_def be_simps)

text \<open>A call: a selector and one parameter, to a recipient, on a device with both settings on.\<close>

definition call_recipient :: bytes where "call_recipient = replicate 64 0x11"

definition call_data :: bytes where "call_data = [0xa9, 0x05, 0x9c, 0xbb] @ replicate 63 0 @ [7]"

definition call_vector :: bytes where
  "call_vector = [0x02, 0xf8, 0x94, 0x01, 0x01, 0x01, 0x01, 0x01, 0xb8, 0x40] @ call_recipient @
     [0x01, 0xb8, 0x44] @ call_data @ [0xc0, 0x83, 1, 0, 0, 0x80]"

definition call_items :: "bytes list" where
  "call_items = [[1], [1], [1], [1], [1], call_recipient, [1], call_data, [], [1, 0, 0], []]"

definition call_tx :: zond_tx_t where "call_tx = store_fields call_items zero_tx"

definition call_device :: device where
  "call_device = start_device\<lparr>nvm := (nvm start_device)\<lparr>enable_blind_signing := 1, enable_debug_smart_contract := 1\<rparr>\<rparr>"

lemma call_lengths: "length call_recipient = 64" "length call_data = 68" "length call_vector = 151"
  by (simp_all add: call_vector_def call_recipient_def call_data_def)

lemma take_long_one: "take_long (Suc 0) (b # bs) = take_bytes (unat b) bs"
proof -
  have "unat b < 2 ^ 32" using unsigned_less [of b, where 'a = nat] by simp
  then show ?thesis by (simp add: take_long_def be_nat_def)
qed

lemma decode_spec_call: "decode_spec call_vector = Some call_items"
  by (simp add: decode_spec_def call_vector_def call_items_def take_long_one take_bytes_def fields_ok_def call_lengths
      fields_accepted_def tx_field_specs_def size_consts read_items_numeral)

lemma call_tx_facts:
  "displayable call_tx" "tx_data_len call_tx = 68" "tx_to_len call_tx = 64" "take 68 (tx_data call_tx) = call_data"
  by (simp_all add: call_tx_def call_items_def store_fields_def tx_field_specs_def padded_def overlay_def zero_tx_def
      call_lengths size_consts displayable_def nonce_of_def value_of_def fee_cap_of_def be_simps)

lemma call_device_facts:
  "wf_device sample_env call_device" "sent call_device = []" "\<not> exited call_device"
  "enable_blind_signing (nvm call_device) = 1" "enable_debug_smart_contract (nvm call_device) = 1"
  using wf_start_device by (simp_all add: call_device_def start_device_def wf_device_def wf_nvm_def)

lemma call_pages_opened:
  "call_page_count (nvm call_device) call_tx = 2" "blind_form (nvm call_device) call_tx"
  by (simp_all add: call_page_count_def blind_form_def whole_call_def call_tx_facts call_device_facts)

theorem signing_completes_witness:
  "\<exists>d3 d5 sig ps. signing_steps sample_env (chunk_buffer (path_data 0xEE)) [take 20 call_vector]
      (drop 20 call_vector) 2 [] call_device = Some (d3, d5) \<and>
    on_screen d3 = Review True ps REVIEW_TITLE (finish_title sample_env True) Transaction_Choice \<and>
    sent d5 = [([], SW_OK), ([], SW_OK)] @ map (\<lambda>c. (c, SW_OK)) sig \<and> length sig = 18"
proof -
  let ?v = "call_vector"
  obtain c2 where r2: "buffer_read_bip32_path sample_env ((chunk_buffer (path_data 0xEE))\<lparr>buf_offset := 1\<rparr>)
     (replicate (max_bip32_path sample_env) 0) (ucast (5 :: byte)) = (True, sample_path, c2)"
    using sample_path_read(2) by blast
  have cat: "concat [take 20 ?v] @ drop 20 ?v = ?v" by simp
  have "\<exists>d3 d5 sig. signing_steps sample_env (chunk_buffer (path_data 0xEE)) [take 20 ?v] (drop 20 ?v)
      (call_page_count (nvm call_device) call_tx) [] call_device = Some (d3, d5) \<and>
    on_screen d3 = Review (blind_form (nvm call_device) call_tx) (review_pairs sample_env (nvm call_device) call_tx
      (texts_of sample_shake (sample_shake ([1, 0, 0] @ replicate MLDSA87_PUBLICKEYBYTES 3)) (sample_keccak ?v) call_tx))
      REVIEW_TITLE (finish_title sample_env (blind_form (nvm call_device) call_tx)) Transaction_Choice \<and>
    sent d5 = sent call_device @ replicate (length [take 20 ?v] + 1) ([], SW_OK) @ map (\<lambda>c. (c, SW_OK)) sig \<and> length sig = 18 \<and>
    mldsa_verify sample_env (concat sig) (sample_keccak ?v) QRL_CTX (replicate MLDSA87_PUBLICKEYBYTES 3) = CX_OK"
    by (rule signing_completes [OF sample_env_ok sample_keccak_ok sample_mldsa_ok call_device_facts(1) sample_path_read(1) r2
        sample_path_read(3,4), of "[take 20 ?v]" "drop 20 ?v" call_items call_tx "[]", unfolded cat])
      (use decode_spec_call in \<open>simp_all add: call_lengths call_tx_facts call_device_facts call_tx_def [symmetric]\<close>)
  then show ?thesis unfolding call_pages_opened call_device_facts(2)
    by (simp add: call_pages_opened numeral_2_eq_2) blast
qed

end
