(* ===== verification/Runs.thy ===== *)
theory Runs
  imports Main
begin

text \<open>
  Runs of a transition system, and the contracts of a system with an invariant and of one that
  follows an abstract machine.
\<close>


section \<open>Runs\<close>

inductive run :: "('s \<Rightarrow> 'e \<Rightarrow> 's \<Rightarrow> bool) \<Rightarrow> 's \<Rightarrow> 'e list \<Rightarrow> 's \<Rightarrow> bool" for stp where
  run_nil: "run stp s [] s"
| run_snoc: "run stp s es s' \<Longrightarrow> stp s' ev s'' \<Longrightarrow> run stp s (es @ [ev]) s''"

text \<open>
  A family of transition systems with an invariant: the parameters (here the SDK's functions) are
  good, the initial states satisfy the invariant and the steps keep it.
\<close>

locale invariant_system =
  fixes good :: "'p \<Rightarrow> bool" and init :: "'p \<Rightarrow> 's \<Rightarrow> bool"
    and stp :: "'p \<Rightarrow> 's \<Rightarrow> 'e \<Rightarrow> 's \<Rightarrow> bool" and inv :: "'p \<Rightarrow> 's \<Rightarrow> bool"
  assumes inv_init: "good p \<Longrightarrow> init p s \<Longrightarrow> inv p s"
    and inv_step: "good p \<Longrightarrow> inv p s \<Longrightarrow> stp p s ev s' \<Longrightarrow> inv p s'"
begin

lemma run_inv: "run (stp p) s es s' \<Longrightarrow> good p \<Longrightarrow> init p s \<Longrightarrow> inv p s'"
  by (induction rule: run.induct) (auto intro: inv_init inv_step)

end

text \<open>One that also follows an abstract machine: every step maps to a step of the machine.\<close>

locale simulated_system = invariant_system +
  fixes abst :: "'s \<Rightarrow> 'a" and astep :: "'p \<Rightarrow> 'a \<Rightarrow> 'e \<Rightarrow> 'a \<Rightarrow> bool"
  assumes sim_step: "good p \<Longrightarrow> inv p s \<Longrightarrow> stp p s ev s' \<Longrightarrow> astep p (abst s) ev (abst s')"
begin

lemma run_simulated:
  "run (stp p) s es s' \<Longrightarrow> good p \<Longrightarrow> init p s \<Longrightarrow> run (astep p) (abst s) es (abst s')"
proof (induction rule: run.induct)
  case (run_nil s)
  show ?case by (rule run.run_nil)
next
  case (run_snoc s es s' ev s'')
  then have "astep p (abst s') ev (abst s'')" using run_inv sim_step by blast
  then show ?case using run_snoc by (blast intro: run.run_snoc)
qed

end


text \<open>Runs one after the other.\<close>

lemma run_append: "run stp s' es' s'' \<Longrightarrow> run stp s es s' \<Longrightarrow> run stp s (es @ es') s''"
proof (induction rule: run.induct)
  case (run_snoc s' es' t ev t')
  then show ?case using run.run_snoc [of stp s "es @ es'" t ev t'] by simp
qed simp

lemma run_single: "stp s ev s' \<Longrightarrow> run stp s [ev] s'"
  using run.run_snoc [OF run.run_nil, of stp s ev s'] by simp

text \<open>A deterministic machine computes a fold.\<close>

lemma run_fold: "run (\<lambda>a ev a'. a' = f ev a) s es s' \<Longrightarrow> s' = fold f es s"
  by (induction rule: run.induct) simp_all

end
