(* ===== verification/Client.thy ===== *)
theory Client
  imports Signing Runs
begin

text \<open>
  The client of the tests (\<open>tests/application_client/boilerplate_command_sender.py\<close> and the
  helpers of \<open>tests/test_sign_cmd.py\<close>) and the application together: the commands the client sends
  for one signature, as a run of the session. The packing of a command and of a path (the test
  framework) are parameters; \<open>apdu_link\<close> says that the SDK's parser reads what the client packs.
\<close>


section \<open>The client\<close>

text \<open>The messages: \<open>[message[x:x + max_size] for x in range(0, len(message), max_size)]\<close>.\<close>

definition split_message :: "bytes \<Rightarrow> nat \<Rightarrow> bytes list" where
  "split_message message max_size =
     map (\<lambda>i. take max_size (drop (i * max_size) message)) [0..<(length message + max_size - 1) div max_size]"

lemma concat_takes: "concat (map (\<lambda>i. take m (drop (i * m) xs)) [0..<k]) = take (k * m) xs"
proof (induction k)
  case (Suc k)
  have "take (k * m) xs @ take m (drop (k * m) xs) = take (k * m + m) xs" by (simp add: take_add)
  then show ?case using Suc by (simp add: add.commute)
qed simp

lemma split_message_facts:
  assumes "0 < m"
  shows "concat (split_message xs m) = xs" "\<forall>c \<in> set (split_message xs m). c \<noteq> [] \<and> length c \<le> m"
    "xs \<noteq> [] \<Longrightarrow> split_message xs m \<noteq> []"
proof -
  let ?k = "(length xs + m - 1) div m"
  have k: "length xs \<le> ?k * m"
  proof -
    have "length xs + m - 1 < (?k + 1) * m" using assms by (simp add: dividend_less_div_times)
    then show ?thesis by simp
  qed
  have l: "i * m < length xs" if "i < ?k" for i
  proof -
    have "(i + 1) * m \<le> ?k * m" using that by (intro mult_le_mono1) simp
    also have "\<dots> \<le> length xs + m - 1" by simp
    finally show ?thesis using assms by simp
  qed
  show "concat (split_message xs m) = xs" using k by (simp add: split_message_def concat_takes)
  show "\<forall>c \<in> set (split_message xs m). c \<noteq> [] \<and> length c \<le> m"
    using l assms by (auto simp: split_message_def not_le simp del: One_nat_def)
  show "xs \<noteq> [] \<Longrightarrow> split_message xs m \<noteq> []"
    using k by (cases "?k = 0") (auto simp: split_message_def)
qed

text \<open>The commands of \<open>sign_tx\<close> and of \<open>get_signature_chunks\<close>; \<open>exchange\<close> packs a command.\<close>

definition client_sign_tx :: "(byte \<Rightarrow> byte \<Rightarrow> byte \<Rightarrow> byte \<Rightarrow> bytes \<Rightarrow> bytes) \<Rightarrow> bytes \<Rightarrow> bytes \<Rightarrow> bytes list" where
  "client_sign_tx exchange path transaction =
     (let messages = split_message transaction 255 in
      exchange APDU_CLA SIGN_TX 0 0 path # map (exchange APDU_CLA SIGN_TX 1 0) (butlast messages) @
      [exchange APDU_CLA SIGN_TX 2 0 (last messages)])"

definition get_signature_chunks :: "(byte \<Rightarrow> byte \<Rightarrow> byte \<Rightarrow> byte \<Rightarrow> bytes \<Rightarrow> bytes) \<Rightarrow> bytes list" where
  "get_signature_chunks exchange = map (\<lambda>p2. exchange APDU_CLA SIGN_TX 2 (of_nat p2) []) [1..<18]"



section \<open>Commands as steps\<close>

text \<open>The command the parser reads from what the client packs.\<close>

definition packed :: "byte \<Rightarrow> byte \<Rightarrow> byte \<Rightarrow> byte \<Rightarrow> bytes \<Rightarrow> command_t" where
  "packed cla ins p1 p2 data =
     \<lparr>cmd_cla = cla, cmd_ins = ins, cmd_p1 = p1, cmd_p2 = p2, cmd_lc = of_nat (length data),
      cmd_data = (if data = [] then None else Some data)\<rparr>"

definition apdu_link :: "env \<Rightarrow> (byte \<Rightarrow> byte \<Rightarrow> byte \<Rightarrow> byte \<Rightarrow> bytes \<Rightarrow> bytes) \<Rightarrow> bool" where
  "apdu_link e exchange \<longleftrightarrow> (\<forall>cla ins p1 p2 data. length data \<le> 255 \<longrightarrow>
     apdu_parser e (exchange cla ins p1 p2 data) = Some (packed cla ins p1 p2 data))"

definition io_ok :: "env \<Rightarrow> bool" where "io_ok e \<longleftrightarrow> (\<forall>data sw. 0 \<le> io_ret e data sw)"

lemma link_dispatch:
  assumes "apdu_link e exchange" "length data \<le> 255"
    and "apdu_dispatcher e (packed cla ins p1 p2 data) d = Some (r, d')" "0 \<le> r"
  shows "app_main_round e (exchange cla ins p1 p2 data) d = Some d'"
proof -
  have "apdu_parser e (exchange cla ins p1 p2 data) = Some (packed cla ins p1 p2 data)"
    using assms(1,2) by (simp add: apdu_link_def)
  then show ?thesis using assms(3,4) by (simp add: app_main_round_def)
qed

lemma packed_buffer:
  assumes "length data \<le> 255" "data \<noteq> []"
  shows "command_buffer (packed cla ins p1 p2 data) = chunk_buffer data"
proof -
  have "(ucast (of_nat (length data) :: byte) :: size_t) = of_nat (length data)"
    using assms(1) by (simp add: word_unat_eq_iff unat_ucast_byte unat_of_nat unat_of_nat_size_t)
  then show ?thesis using assms(2) by (simp add: command_buffer_def chunk_buffer_def packed_def)
qed

lemma link_round:
  assumes l: "apdu_link e exchange" and data: "length data \<le> 255" "data \<noteq> [] \<or> p1 = 2 \<and> p2 \<noteq> 0 \<and> p2 < 18"
    and h: "handler_sign_tx e (chunk_buffer data) p1 p2 d = Some (r, d')" "0 \<le> r"
  shows "app_main_round e (exchange APDU_CLA SIGN_TX p1 p2 data) d = Some d'"
proof (rule link_dispatch [OF l data(1) _ h(2)])
  let ?cmd = "packed APDU_CLA SIGN_TX p1 p2 data"
  have "handler_sign_tx e (command_buffer ?cmd) p1 p2 d = handler_sign_tx e (chunk_buffer data) p1 p2 d"
    using data(2) packed_buffer [OF data(1)] by (cases "data = []") (simp_all add: handler_sign_tx_def word_gt_0)
  then show "apdu_dispatcher e ?cmd d = Some (r, d')"
    using h(1) data(2) by (auto simp: apdu_dispatcher_def ins_defs packed_def)
qed

text \<open>A session that waits for a command, and a command of it.\<close>

definition idle :: "session \<Rightarrow> bool" where
  "idle s \<longleftrightarrow> \<not> exited (dev s) \<and> requests s = length (sent (dev s))"

definition answers_once :: "env \<Rightarrow> ('i \<Rightarrow> bytes) \<Rightarrow> ('i \<Rightarrow> device \<Rightarrow> (int \<times> device) option) \<Rightarrow> 'i list \<Rightarrow> bool" where
  "answers_once e apdu f xs \<longleftrightarrow> (\<forall>x \<in> set xs. \<forall>d r d'. f x d = Some (r, d') \<longrightarrow>
     app_main_round e (apdu x) d = Some d' \<and> exited d' = exited d \<and> length (sent d') = Suc (length (sent d)))"

lemma send_each_run:
  "answers_once e apdu f xs \<Longrightarrow> idle s \<Longrightarrow> send_each f xs (dev s) = Some d' \<Longrightarrow>
   idle (s\<lparr>dev := d', requests := requests s + length xs\<rparr>) \<and>
   run (step e) s (map (\<lambda>x. Apdu (apdu x)) xs) (s\<lparr>dev := d', requests := requests s + length xs\<rparr>)"
proof (induction xs arbitrary: s)
  case Nil
  then have "d' = dev s" by simp
  then show ?case using Nil(2) by (simp add: run.run_nil)
next
  case (Cons x xs)
  then obtain r d1 where f: "f x (dev s) = Some (r, d1)" "send_each f xs d1 = Some d'" by (auto split: bind_splits)
  have a: "app_main_round e (apdu x) (dev s) = Some d1" "exited d1 = exited (dev s)" "length (sent d1) = Suc (length (sent (dev s)))"
    using Cons.prems(1) f(1) by (simp_all add: answers_once_def)
  let ?s = "s\<lparr>dev := d1, requests := requests s + 1\<rparr>"
  have stp: "step e s (Apdu (apdu x)) ?s" using Cons.prems(2) a(1) by (intro step_apdu) (simp_all add: idle_def)
  have "idle ?s" using Cons.prems(2) a by (simp add: idle_def)
  moreover have "answers_once e apdu f xs" using Cons.prems(1) by (simp add: answers_once_def)
  ultimately have "idle (s\<lparr>dev := d', requests := requests s + length (x # xs)\<rparr>) \<and>
      run (step e) ?s (map (\<lambda>x. Apdu (apdu x)) xs) (s\<lparr>dev := d', requests := requests s + length (x # xs)\<rparr>)"
    using Cons.IH [of ?s] f(2) by simp
  then show ?case using run_append [OF _ run_single [where stp = "step e", OF stp]] by fastforce
qed

text \<open>The chunks of a transaction and the requests for the signature are such commands.\<close>

lemma chunk_answers:
  assumes "apdu_link e exchange" "io_ok e" "\<forall>c \<in> set cs. c \<noteq> [] \<and> length c \<le> 255"
  shows "answers_once e (exchange APDU_CLA SIGN_TX 1 0) (\<lambda>c. handler_sign_tx e (chunk_buffer c) 1 0) cs"
  unfolding answers_once_def
proof (intro ballI allI impI)
  fix c d r d' assume c: "c \<in> set cs" and h: "handler_sign_tx e (chunk_buffer c) 1 0 d = Some (r, d')"
  have "sign_tx_more e (chunk_buffer c) d = Some (r, d')" using h by (simp add: handler_sign_tx_def)
  then have "0 \<le> r \<and> exited d' = exited d \<and> length (sent d') = Suc (length (sent d))"
    using assms(2) by (auto simp: sign_tx_more_def recv_chunk_def io_ok_def dev_simps set_tx_info_def Let_def
        split: if_splits bind_splits prod.splits option.splits)
  then show "app_main_round e (exchange APDU_CLA SIGN_TX 1 0 c) d = Some d' \<and> exited d' = exited d \<and>
      length (sent d') = Suc (length (sent d))"
    using link_round [OF assms(1) _ _ h] assms(3) c by simp
qed

lemma request_answers:
  assumes "apdu_link e exchange" "io_ok e" "\<forall>i \<in> set is. i \<noteq> 0 \<and> i < 18"
  shows "answers_once e (\<lambda>i. exchange APDU_CLA SIGN_TX 2 i []) (\<lambda>i. handler_sign_tx e (chunk_buffer []) 2 i) is"
  unfolding answers_once_def
proof (intro ballI allI impI)
  fix i d r d' assume i: "i \<in> set is" and h: "handler_sign_tx e (chunk_buffer []) 2 i d = Some (r, d')"
  have "sign_tx_signature e i d = Some (r, d')" using h assms(3) i by (simp add: handler_sign_tx_def word_gt_0)
  then have "0 \<le> r \<and> exited d' = exited d \<and> length (sent d') = Suc (length (sent d))"
    using assms(2) by (auto simp: sign_tx_signature_def helper_send_response_sig_def io_ok_def dev_simps Let_def
        split: if_splits bind_splits)
  then show "app_main_round e (exchange APDU_CLA SIGN_TX 2 i []) d = Some d' \<and> exited d' = exited d \<and>
      length (sent d') = Suc (length (sent d))"
    using link_round [OF assms(1) _ _ h] assms(3) i by simp
qed

text \<open>Confirming the pages of a call is a run.\<close>

lemma walk_run:
  assumes "\<not> exited (dev s)"
  shows "walks_pages e n (dev s) \<Longrightarrow> confirms e n (dev s) = Some d' \<Longrightarrow>
    run (step e) s (replicate n (Choose True rnd)) (s\<lparr>dev := d'\<rparr>)"
proof (induction n arbitrary: d')
  case 0
  then have "s\<lparr>dev := d'\<rparr> = s" by (cases s) simp
  then show ?case by (simp add: run.run_nil)
next
  case (Suc n)
  obtain dn ps t f where dn: "confirms e n (dev s) = Some dn" "on_screen dn = Review False ps t f Parameter_Choice"
    "exited dn = exited (dev s)"
    using Suc.prems(1) by (auto simp: walks_pages_def)
  have "walks_pages e n (dev s)" using Suc.prems(1) by (auto simp: walks_pages_def)
  from Suc.IH [OF this dn(1)] have r: "run (step e) s (replicate n (Choose True rnd)) (s\<lparr>dev := dn\<rparr>)" .
  have "run_choice e rnd True dn = Some d'" using Suc.prems(2) dn by (simp add: run_choice_def)
  then have "step e (s\<lparr>dev := dn\<rparr>) (Choose True rnd) (s\<lparr>dev := d'\<rparr>)"
    using step_choose [of "s\<lparr>dev := dn\<rparr>" e rnd True d'] assms dn(2,3) by (simp add: note_choice_def)
  from run.run_snoc [where stp = "step e", OF r this] show ?case by (simp add: replicate_append_same)
qed


section \<open>One signature\<close>

text \<open>The path: the request is started.\<close>

lemma client_path:
  assumes ok: "env_ok e st shake" "apdu_link e exchange" "io_ok e" and s: "idle s" "wf_device e (dev s)"
    and path: "path_cmd \<noteq> []" "length path_cmd \<le> 255" "buffer_read_u8 e (chunk_buffer path_cmd) 0 = (True, len, c1)"
      "buffer_read_bip32_path e c1 (replicate (max_bip32_path e) 0) (ucast len) = (True, path, c2)"
      "zond_path (take (unat len) path)"
  shows "\<exists>t. run (step e) s [Apdu (exchange APDU_CLA SIGN_TX 0 0 path_cmd)] t \<and> idle t \<and> wf_device e (dev t) \<and>
    sent (dev t) = sent (dev s) @ [([], SW_OK)] \<and> received (dev t) = [] \<and>
    req_type (ctx (dev t)) = CONFIRM_TRANSACTION \<and> g_state (ctx (dev t)) = STATE_NONE \<and>
    bip32_path (ctx (dev t)) = path \<and> bip32_path_len (ctx (dev t)) = len \<and>
    tx_data_of (tx_info (ctx (dev t))) = zero_tx \<and> nvm (dev t) = (nvm (dev s))\<lparr>nv_sig := replicate MLDSA87_SIGBYTES 0\<rparr>"
proof -
  have l: "env_lengths e" and b: "buffers_ok e" using ok by (simp_all add: env_ok_def)
  let ?s = "io_send_sw e SW_OK (started e len path (dev s))"
  note p = sign_tx_path_result(1) [OF l b path(3,4), of 0 "dev s"] sign_tx_path_result(2) [OF l b path(3,4)]
  note s1 = started_facts [where e = e and sw = SW_OK and len = len and path = path and d = "dev s"]
  have h: "handler_sign_tx e (chunk_buffer path_cmd) 0 0 (dev s) = Some (fst ?s, snd ?s)" using p(1) path(5) by simp
  have "0 \<le> fst ?s" using ok(3) by (simp add: io_ok_def dev_simps)
  from link_round [OF ok(2) path(2) _ h this] path(1)
  have r: "app_main_round e (exchange APDU_CLA SIGN_TX 0 0 path_cmd) (dev s) = Some (snd ?s)" by simp
  let ?t = "s\<lparr>dev := snd ?s, requests := requests s + 1\<rparr>"
  have "step e s (Apdu (exchange APDU_CLA SIGN_TX 0 0 path_cmd)) ?t"
    using s(1) r by (intro step_apdu) (simp_all add: idle_def)
  from run_single [where stp = "step e", OF this] show ?thesis
    using s(1) s1(1-9) s1(10) [OF s(2) p(2)] by (intro exI [of _ ?t]) (simp add: idle_def dev_simps started_def)
qed

text \<open>The chunks before the last, and the last one with the confirmations up to the transaction review.\<close>

lemma client_chunks:
  assumes ok: "buffers_ok e" "apdu_link e exchange" "io_ok e" and s: "idle s" "wf_device e (dev s)"
    "req_type (ctx (dev s)) = CONFIRM_TRANSACTION" "g_state (ctx (dev s)) = STATE_NONE" "received (dev s) = []"
    and cs: "\<forall>c \<in> set cs. c \<noteq> [] \<and> length c \<le> 255" "length (concat cs) \<le> 2048"
  shows "\<exists>t. run (step e) s (map (\<lambda>c. Apdu (exchange APDU_CLA SIGN_TX 1 0 c)) cs) t \<and> idle t \<and> wf_device e (dev t) \<and>
    received (dev t) = concat cs \<and> sent (dev t) = sent (dev s) @ replicate (length cs) ([], SW_OK) \<and>
    req_type (ctx (dev t)) = CONFIRM_TRANSACTION \<and> g_state (ctx (dev t)) = STATE_NONE \<and>
    bip32_path (ctx (dev t)) = bip32_path (ctx (dev s)) \<and> bip32_path_len (ctx (dev t)) = bip32_path_len (ctx (dev s)) \<and>
    tx_data_of (tx_info (ctx (dev t))) = tx_data_of (tx_info (ctx (dev s))) \<and> nvm (dev t) = nvm (dev s)"
proof -
  obtain d2 where c2: "send_each (\<lambda>c. handler_sign_tx e (chunk_buffer c) 1 0) cs (dev s) = Some d2"
    and d2: "wf_device e d2" "received d2 = concat cs" "sent d2 = sent (dev s) @ replicate (length cs) ([], SW_OK)"
      "req_type (ctx d2) = CONFIRM_TRANSACTION" "g_state (ctx d2) = STATE_NONE" "bip32_path (ctx d2) = bip32_path (ctx (dev s))"
      "bip32_path_len (ctx d2) = bip32_path_len (ctx (dev s))"
      "tx_data_of (tx_info (ctx d2)) = tx_data_of (tx_info (ctx (dev s)))" "nvm d2 = nvm (dev s)"
    using send_chunks_result [OF ok(1) s(2-4), of cs] cs s(5) by auto
  from send_each_run [OF chunk_answers [OF ok(2,3) cs(1)] s(1) c2] show ?thesis
    using d2 by (intro exI [of _ "s\<lparr>dev := d2, requests := requests s + length cs\<rparr>"]) simp
qed

lemma client_last:
  assumes ok: "env_ok e st shake" "keccak_ok e keccak" "apdu_link e exchange" and s: "idle s" "wf_device e (dev s)"
    "req_type (ctx (dev s)) = CONFIRM_TRANSACTION" "g_state (ctx (dev s)) = STATE_NONE"
    and c: "c \<noteq> []" "length c \<le> 255" "length (received (dev s) @ c) \<le> 2048"
    and its: "decode_spec (received (dev s) @ c) = Some its" "tx = store_fields its (tx_data_of (tx_info (ctx (dev s))))"
      "displayable tx" "tx_data_len tx = 0 \<or> enable_blind_signing (nvm (dev s)) \<noteq> 0"
    and key: "key_of e (bip32_path (ctx (dev s))) (ucast (bip32_path_len (ctx (dev s)))) = Some pk"
  shows "\<exists>t. run (step e) s (Apdu (exchange APDU_CLA SIGN_TX 2 0 c) #
      replicate (call_page_count (nvm (dev s)) tx) (Choose True rnd)) t \<and> wf_device e (dev t) \<and>
    \<not> exited (dev t) \<and> requests t = Suc (length (sent (dev t))) \<and> sent (dev t) = sent (dev s) \<and>
    req_type (ctx (dev t)) = CONFIRM_TRANSACTION \<and> received (dev t) = received (dev s) @ c \<and>
    bip32_path (ctx (dev t)) = bip32_path (ctx (dev s)) \<and> bip32_path_len (ctx (dev t)) = bip32_path_len (ctx (dev s)) \<and>
    nvm (dev t) = (nvm (dev s))\<lparr>nv_pk := pk\<rparr> \<and> tx_data_of (tx_info (ctx (dev t))) = tx \<and>
    m_hash (tx_info (ctx (dev t))) = keccak (received (dev s) @ c) \<and>
    on_screen (dev t) = review_of e shake (nvm (dev s)) pk (keccak (received (dev s) @ c)) tx"
proof -
  let ?n = "call_page_count (nvm (dev s)) tx" and ?a = "exchange APDU_CLA SIGN_TX 2 0 c"
  obtain p d where d: "handler_sign_tx e (chunk_buffer c) 2 0 (dev s) = Some (0, p)"
    "walks_pages e ?n p" "exited p = exited (dev s)" "confirms e ?n p = Some d" "wf_device e d"
    "req_type (ctx d) = CONFIRM_TRANSACTION" "bip32_path (ctx d) = bip32_path (ctx (dev s))"
    "bip32_path_len (ctx d) = bip32_path_len (ctx (dev s))" "tx_data_of (tx_info (ctx d)) = tx"
    "nvm d = (nvm (dev s))\<lparr>nv_pk := pk\<rparr>" "sent d = sent (dev s)" "exited d = exited (dev s)"
    "received d = received (dev s) @ c" "m_hash (tx_info (ctx d)) = keccak (received (dev s) @ c)"
    "on_screen d = review_of e shake (nvm (dev s)) pk (keccak (received (dev s) @ c)) tx"
    using last_chunk_review [OF ok(1,2) s(2-4) c(2,3) its key] by blast
  let ?t = "s\<lparr>dev := p, requests := requests s + 1\<rparr>"
  have "app_main_round e ?a (dev s) = Some p" by (rule link_round [OF ok(3) c(2) _ d(1)]) (use c(1) in simp_all)
  then have "step e s (Apdu ?a) ?t" using s(1) by (intro step_apdu) (simp_all add: idle_def)
  note r = run_single [where stp = "step e", OF this]
  have "run (step e) ?t (replicate ?n (Choose True rnd)) (?t\<lparr>dev := d\<rparr>)"
    by (rule walk_run) (use d(2-4) s(1) in \<open>simp_all add: idle_def\<close>)
  from run_append [OF this r] show ?thesis
    using d(5-) s(1) by (intro exI [of _ "?t\<lparr>dev := d\<rparr>"]) (simp add: idle_def)
qed

lemma client_review:
  assumes ok: "env_ok e st shake" "keccak_ok e keccak" "apdu_link e exchange" "io_ok e"
    and s: "idle s" "wf_device e (dev s)"
    and path: "path_cmd \<noteq> []" "length path_cmd \<le> 255" "buffer_read_u8 e (chunk_buffer path_cmd) 0 = (True, len, c1)"
      "buffer_read_bip32_path e c1 (replicate (max_bip32_path e) 0) (ucast len) = (True, path, c2)"
      "zond_path (take (unat len) path)" "key_of e path (ucast len) = Some pk"
    and v: "v \<noteq> []" "length v \<le> 2048" "decode_spec v = Some its" "tx = store_fields its zero_tx" "displayable tx"
      "tx_data_len tx = 0 \<or> enable_blind_signing (nvm (dev s)) \<noteq> 0"
  shows "\<exists>t. run (step e) s (map Apdu (client_sign_tx exchange path_cmd v) @
      replicate (call_page_count (nvm (dev s)) tx) (Choose True rnd)) t \<and>
    wf_device e (dev t) \<and> \<not> exited (dev t) \<and> requests t = Suc (length (sent (dev t))) \<and>
    sent (dev t) = sent (dev s) @ replicate (length (split_message v 255)) ([], SW_OK) \<and>
    req_type (ctx (dev t)) = CONFIRM_TRANSACTION \<and> received (dev t) = v \<and>
    bip32_path (ctx (dev t)) = path \<and> bip32_path_len (ctx (dev t)) = len \<and>
    nvm (dev t) = (nvm (dev s))\<lparr>nv_sig := replicate MLDSA87_SIGBYTES 0, nv_pk := pk\<rparr> \<and>
    tx_data_of (tx_info (ctx (dev t))) = tx \<and> m_hash (tx_info (ctx (dev t))) = keccak v \<and>
    on_screen (dev t) = review_of e shake (nvm (dev s)) pk (keccak v) tx"
proof -
  have b: "buffers_ok e" using ok by (simp add: env_ok_def)
  let ?m = "split_message v 255" and ?n = "call_page_count (nvm (dev s)) tx"
  note m = split_message_facts [of 255 v, simplified]
  have bl: "?m = butlast ?m @ [last ?m]" using m(3) [OF v(1)] by simp
  have lst: "last ?m \<noteq> []" "length (last ?m) \<le> 255" "concat (butlast ?m) @ last ?m = v"
    using m(1,2) m(3) [OF v(1)] concat_append [of "butlast ?m" "[last ?m]", folded bl] by auto
  have bm: "\<forall>c \<in> set (butlast ?m). c \<noteq> [] \<and> length c \<le> 255" using m(2) in_set_butlastD by fast
  obtain t1 where r1: "run (step e) s [Apdu (exchange APDU_CLA SIGN_TX 0 0 path_cmd)] t1" and i1: "idle t1"
    and t1: "wf_device e (dev t1)" "sent (dev t1) = sent (dev s) @ [([], SW_OK)]" "received (dev t1) = []"
      "req_type (ctx (dev t1)) = CONFIRM_TRANSACTION" "g_state (ctx (dev t1)) = STATE_NONE"
      "bip32_path (ctx (dev t1)) = path" "bip32_path_len (ctx (dev t1)) = len"
      "tx_data_of (tx_info (ctx (dev t1))) = zero_tx" "nvm (dev t1) = (nvm (dev s))\<lparr>nv_sig := replicate MLDSA87_SIGBYTES 0\<rparr>"
    using client_path [OF ok(1,3,4) s path(1-5)] by blast
  have "length (concat (butlast ?m)) \<le> 2048" using lst(3) v(2) by (metis le_trans length_append le_add1)
  from client_chunks [OF b ok(3,4) i1 t1(1,4,5,3) bm this, unfolded t1(6-8)] obtain t2 where
    r2: "run (step e) t1 (map (\<lambda>c. Apdu (exchange APDU_CLA SIGN_TX 1 0 c)) (butlast ?m)) t2" and i2: "idle t2"
    and t2: "wf_device e (dev t2)" "received (dev t2) = concat (butlast ?m)"
      "sent (dev t2) = sent (dev t1) @ replicate (length (butlast ?m)) ([], SW_OK)"
      "req_type (ctx (dev t2)) = CONFIRM_TRANSACTION" "g_state (ctx (dev t2)) = STATE_NONE" "bip32_path (ctx (dev t2)) = path"
      "bip32_path_len (ctx (dev t2)) = len" "tx_data_of (tx_info (ctx (dev t2))) = zero_tx" "nvm (dev t2) = nvm (dev t1)" by blast
  have n: "call_page_count (nvm (dev t2)) tx = ?n" "enable_blind_signing (nvm (dev t2)) = enable_blind_signing (nvm (dev s))"
    "review_of e shake (nvm (dev t2)) pk (keccak v) tx = review_of e shake (nvm (dev s)) pk (keccak v) tx"
    using review_pairs_settings [of "nvm (dev t2)" "nvm (dev s)" e tx]
    by (simp_all add: review_of_def call_page_count_def blind_form_def t2(9) t1(9))
  from client_last [OF ok(1-3) i2 t2(1,4,5) lst(1,2), unfolded t2(2,6-8) lst(3) n(2), OF v(2-6) path(6), of rnd]
  obtain t where r3: "run (step e) t2 (Apdu (exchange APDU_CLA SIGN_TX 2 0 (last ?m)) # replicate ?n (Choose True rnd)) t"
    and t: "wf_device e (dev t)" "\<not> exited (dev t)" "requests t = Suc (length (sent (dev t)))" "sent (dev t) = sent (dev t2)"
      "req_type (ctx (dev t)) = CONFIRM_TRANSACTION" "received (dev t) = v" "bip32_path (ctx (dev t)) = path"
      "bip32_path_len (ctx (dev t)) = len" "nvm (dev t) = (nvm (dev t2))\<lparr>nv_pk := pk\<rparr>"
      "tx_data_of (tx_info (ctx (dev t))) = tx" "m_hash (tx_info (ctx (dev t))) = keccak v"
      "on_screen (dev t) = review_of e shake (nvm (dev s)) pk (keccak v) tx" unfolding n by blast
  have "run (step e) s (map Apdu (client_sign_tx exchange path_cmd v) @ replicate ?n (Choose True rnd)) t"
    using run_append [OF run_append [OF r3 r2] r1] by (simp add: client_sign_tx_def Let_def comp_def)
  moreover have "sent (dev t) = sent (dev s) @ replicate (length ?m) ([], SW_OK)"
  proof -
    have "length ?m = Suc (length (butlast ?m))" using m(3) [OF v(1)] by simp
    then have "replicate (length ?m) x = [x] @ replicate (length (butlast ?m)) x" for x :: "bytes \<times> u16"
      by (simp only: replicate_Suc append.simps)
    then show ?thesis unfolding t(4) t2(3) t1(2) append_assoc by (simp only:)
  qed
  ultimately show ?thesis using t(1-3,5-8,10-12) by (intro exI [of _ t]) (simp add: t(9) t2(9) t1(9))
qed

lemma client_signature:
  assumes ok: "env_ok e st shake" "keccak_ok e keccak" "mldsa_ok e pub sec" "apdu_link e exchange" "io_ok e"
    and s: "idle s" "wf_device e (dev s)"
    and path: "path_cmd \<noteq> []" "length path_cmd \<le> 255" "buffer_read_u8 e (chunk_buffer path_cmd) 0 = (True, len, c1)"
      "buffer_read_bip32_path e c1 (replicate (max_bip32_path e) 0) (ucast len) = (True, path, c2)"
      "zond_path (take (unat len) path)"
      "os_derive_bip32_no_throw e path (ucast len) (replicate 64 0) = (CX_OK, seed)"
    and v: "v \<noteq> []" "length v \<le> 2048" "decode_spec v = Some its" "tx = store_fields its zero_tx" "displayable tx"
      "tx_data_len tx = 0 \<or> enable_blind_signing (nvm (dev s)) \<noteq> 0"
  shows "\<exists>t sig. run (step e) s (map Apdu (client_sign_tx exchange path_cmd v) @
      replicate (call_page_count (nvm (dev s)) tx) (Choose True rnd) @ [Choose True rnd] @
      map Apdu (get_signature_chunks exchange)) t \<and>
    sent (dev t) = sent (dev s) @ replicate (length (split_message v 255)) ([], SW_OK) @ map (\<lambda>c. (c, SW_OK)) sig \<and>
    length sig = 18 \<and> length (concat sig) = MLDSA87_SIGBYTES \<and>
    mldsa_verify e (concat sig) (keccak v) QRL_CTX (pub seed) = CX_OK"
proof -
  have l: "env_lengths e" using ok by (simp add: env_ok_def)
  let ?pages = "replicate (call_page_count (nvm (dev s)) tx) (Choose True rnd)"
  obtain t where r: "run (step e) s (map Apdu (client_sign_tx exchange path_cmd v) @ ?pages) t"
    and t: "wf_device e (dev t)" "\<not> exited (dev t)" "requests t = Suc (length (sent (dev t)))"
      "sent (dev t) = sent (dev s) @ replicate (length (split_message v 255)) ([], SW_OK)"
      "req_type (ctx (dev t)) = CONFIRM_TRANSACTION" "bip32_path (ctx (dev t)) = path" "bip32_path_len (ctx (dev t)) = len"
      "nv_pk (nvm (dev t)) = pub seed" "m_hash (tx_info (ctx (dev t))) = keccak v"
      "\<exists>b ps tl f. on_screen (dev t) = Review b ps tl f Transaction_Choice"
    using client_review [OF ok(1,2,4,5) s path(1-5) mldsa_ok_key [OF ok(3) path(6)] v, of rnd]
    by (fastforce simp: review_of_def transaction_page_def)
  let ?d = "show_screen Blank (dev t)"
  have d: "wf_device e ?d" "ctx ?d = ctx (dev t)" "nvm ?d = nvm (dev t)" "sent ?d = sent (dev t)" "exited ?d = exited (dev t)"
    using t(1) by (simp_all add: wf_device_def show_screen_def)
  obtain d4 d5 sig where g: "review_choice e rnd True ?d = Some d4" "sig_requests e d4 = Some d5"
    "exited d4 = exited ?d" "length (sent d4) = Suc (length (sent ?d))"
    "sent d5 = sent ?d @ map (\<lambda>c. (c, SW_OK)) sig" "length sig = 18" "length (concat sig) = MLDSA87_SIGBYTES"
    "mldsa_verify e (concat sig) (m_hash (tx_info (ctx ?d))) QRL_CTX (pub seed) = CX_OK"
    using signature_after_review [OF l ok(3) d(1), unfolded d(2,3) t(6,7), OF path(6) t(8,5), of rnd] by (auto simp: d)
  let ?t4 = "t\<lparr>dev := d4, confirmed := note_choice True (on_screen (dev t)) (confirmed t)\<rparr>"
  have st: "step e t (Choose True rnd) ?t4"
    by (rule step_choose [OF t(2)]) (use t(10) g(1) in \<open>auto simp: run_choice_def\<close>)
  have i4: "idle ?t4" using t(2,3) g(3,4) d by (simp add: idle_def)
  have "\<forall>i \<in> set (map of_nat [1..<18]). (i :: byte) \<noteq> 0 \<and> i < 18"
    by (auto simp: word_unat_eq_iff word_less_nat_alt unat_of_nat)
  note a = request_answers [OF ok(4,5) this]
  have "send_each (\<lambda>i. handler_sign_tx e (chunk_buffer []) 2 i) (map of_nat [1..<18]) (dev ?t4) = Some d5"
    using g(2) by (simp add: sig_requests_def)
  from conjunct2 [OF send_each_run [OF a i4 this]]
  obtain t5 where r5: "run (step e) ?t4 (map Apdu (get_signature_chunks exchange)) t5" "dev t5 = d5"
    by (fastforce simp: get_signature_chunks_def comp_def)
  from run_append [OF r5(1) run_append [OF run_single [where stp = "step e", OF st] r]]
  have "run (step e) s (map Apdu (client_sign_tx exchange path_cmd v) @ ?pages @ [Choose True rnd] @
      map Apdu (get_signature_chunks exchange)) t5" by simp
  then show ?thesis using g(5-8) t(4,9) r5(2) by (intro exI [of _ t5] exI [of _ sig]) (simp add: d)
qed

text \<open>
  C5. The client and the application together: let a device wait for a command, and let the message
  be nonempty, of at most 2048 bytes, and decode to a displayable transaction (a nonce below ten
  digits, a value and fee cap of at most forty); let the path be one the application accepts and its
  seed derivable; and, if the transaction carries data, let blind signing be on. Then the commands the
  test client sends for a signature (the path, the message split into chunks of 255 bytes, the
  requests for the signature), with one confirmation for each page of a contract call and one for
  the transaction, are a run of the session in which every command is answered with 9000, and the
  eighteen responses put together are a signature (of 4627 bytes) of the Keccak hash of the message
  that verifies under the key of the path. (The services of the SDK behave as documented.)
\<close>

theorem client_signs:
  assumes ok: "env_ok e st shake" "keccak_ok e keccak" "mldsa_ok e pub sec" "apdu_link e exchange" "io_ok e"
    and s: "idle s" "wf_device e (dev s)"
    and path: "path_cmd \<noteq> []" "length path_cmd \<le> 255" "buffer_read_u8 e (chunk_buffer path_cmd) 0 = (True, len, c1)"
      "buffer_read_bip32_path e c1 (replicate (max_bip32_path e) 0) (ucast len) = (True, path, c2)"
      "zond_path (take (unat len) path)"
      "os_derive_bip32_no_throw e path (ucast len) (replicate 64 0) = (CX_OK, seed)"
    and v: "v \<noteq> []" "length v \<le> 2048" "decode_spec v = Some its" "tx = store_fields its zero_tx" "displayable tx"
      "tx_data_len tx = 0 \<or> enable_blind_signing (nvm (dev s)) \<noteq> 0"
  shows "\<exists>t sig. run (step e) s (map Apdu (client_sign_tx exchange path_cmd v) @
      replicate (call_page_count (nvm (dev s)) tx) (Choose True rnd) @ [Choose True rnd] @
      map Apdu (get_signature_chunks exchange)) t \<and>
    sent (dev t) = sent (dev s) @ replicate (length (split_message v 255)) ([], SW_OK) @ map (\<lambda>c. (c, SW_OK)) sig \<and>
    length sig = 18 \<and> length (concat sig) = MLDSA87_SIGBYTES \<and>
    mldsa_verify e (concat sig) (keccak v) QRL_CTX (pub seed) = CX_OK"
  by (rule client_signature [OF ok s path v])


section \<open>A concrete client\<close>

definition sample_exchange :: "byte \<Rightarrow> byte \<Rightarrow> byte \<Rightarrow> byte \<Rightarrow> bytes \<Rightarrow> bytes" where
  "sample_exchange cla ins p1 p2 data = [cla, ins, p1, p2, of_nat (length data)] @ data"

lemma sample_link: "apdu_link sample_env sample_exchange"
  unfolding apdu_link_def
proof (intro allI impI)
  fix cla ins p1 p2 :: byte and data :: bytes assume l: "length data \<le> 255"
  then have u: "unat (of_nat (length data) :: byte) = length data" by (simp add: unat_of_nat)
  then have "data \<noteq> [] \<Longrightarrow> (of_nat (length data) :: byte) \<noteq> 0" by (auto simp: word_unat_eq_iff)
  then show "apdu_parser sample_env (sample_exchange cla ins p1 p2 data) =
      Some (packed cla ins p1 p2 data)"
    using u by (simp add: sample_env_def sample_exchange_def packed_def)
qed

lemma sample_io: "io_ok sample_env"
  by (simp add: io_ok_def sample_env_def)

lemma split_message_short:
  assumes "xs \<noteq> []" "length xs \<le> m"
  shows "split_message xs m = [xs]"
proof -
  have "0 < length xs" using assms(1) by simp
  then have "m \<le> length xs + m - 1" "length xs + m - 1 < m + m" using assms(2) by linarith+
  then have "(length xs + m - 1) div m = 1" by (intro div_nat_eqI) simp_all
  then show ?thesis using assms(2) by (simp add: split_message_def)
qed

definition session_of :: "device \<Rightarrow> session" where
  "session_of d = \<lparr>dev = app_main_start sample_env d, requests = 0, confirmed = Blank\<rparr>"

lemma session_of_ok: "wf_device sample_env d \<Longrightarrow> sent d = [] \<Longrightarrow> \<not> exited d \<Longrightarrow> session_start sample_env (session_of d)"
  by (auto simp: session_start_def session_of_def)

lemma session_of_idle:
  assumes "wf_device sample_env d" "sent d = []" "\<not> exited d"
  shows "idle (session_of d)" "wf_device sample_env (dev (session_of d))" "sent (dev (session_of d)) = []"
    "nvm (dev (session_of d)) = nvm d"
  using assms wf_zero_ctx
  by (simp_all add: idle_def session_of_def app_main_start_def bzero_ctx_def ui_menu_main_def show_screen_def wf_device_def)

lemma sample_path_cmd: "path_data 0xEE \<noteq> []" "length (path_data 0xEE) \<le> 255"
  by (simp_all add: path_data_def)

theorem client_signs_witness:
  "\<exists>t sig. run (step sample_env) (session_of call_device)
      (map Apdu (client_sign_tx sample_exchange (path_data 0xEE) call_vector) @ replicate 2 (Choose True []) @
       [Choose True []] @ map Apdu (get_signature_chunks sample_exchange)) t \<and>
    sent (dev t) = [([], SW_OK)] @ map (\<lambda>c. (c, SW_OK)) sig \<and> length sig = 18"
proof -
  note c = call_device_facts and i = session_of_idle [OF call_device_facts(1-3)]
  have v: "call_vector \<noteq> []" "length call_vector \<le> 255" "length call_vector \<le> 2048" using call_lengths by auto
  obtain c2 where r2: "buffer_read_bip32_path sample_env ((chunk_buffer (path_data 0xEE))\<lparr>buf_offset := 1\<rparr>)
     (replicate (max_bip32_path sample_env) 0) (ucast (5 :: byte)) = (True, sample_path, c2)"
    using sample_path_read(2) by blast
  have "tx_data_len call_tx = 0 \<or> enable_blind_signing (nvm (dev (session_of call_device))) \<noteq> 0" using c(4) i(4) by simp
  from client_signs [OF sample_env_ok sample_keccak_ok sample_mldsa_ok sample_link sample_io i(1,2) sample_path_cmd
      sample_path_read(1) r2 sample_path_read(3,4) v(1,3) decode_spec_call call_tx_def call_tx_facts(1) this, of "[]"]
  show ?thesis unfolding i(3,4) call_pages_opened split_message_short [OF v(1,2)] by auto
qed

end
