(* ===== verification/Creation.thy ===== *)
theory Creation
  imports Client
begin

text \<open>
  Contract creations without data: from the commands of the client through the decoder to the lines
  of the review.
\<close>


section \<open>What the decoder leaves of an empty recipient\<close>

text \<open>
  The fields are decoded into the context that the start of the request has wiped: an empty
  recipient leaves its 64 zero bytes.
\<close>

lemma creation_fields:
  assumes "decode_spec v = Some its" "its ! 5 = []" "its ! 7 = []"
  shows "tx_to (store_fields its zero_tx) = replicate 64 0" "tx_to_len (store_fields its zero_tx) = 0"
    "tx_data_len (store_fields its zero_tx) = 0"
proof -
  obtain c n t f g r v' d a where its: "its = [c, n, t, f, g, r, v', d, a, [1, 0, 0], []]"
    by (rule fields_ok_cases [OF decode_spec_fields_ok [OF assms(1)]]) (rule that)
  have "r = []" "d = []" using assms(2,3) by (simp_all add: its)
  then show "tx_to (store_fields its zero_tx) = replicate 64 0" "tx_to_len (store_fields its zero_tx) = 0"
    "tx_data_len (store_fields its zero_tx) = 0"
    by (simp_all add: its store_fields_def tx_field_specs_def overlay_def padded_def zero_tx_def size_consts)
qed


section \<open>The review of a creation\<close>

text \<open>
  C37. A contract creation without data is shown as a payment to the all-zero address: when the
  client sends the path and the chunks of a message (nonempty, at most 2048 bytes, that decodes to a
  displayable transaction with an empty recipient and empty data; the path is accepted and its key
  can be derived) to a device that waits for a command, the decoder leaves the recipient array of
  the context zero, and the review that opens has a recipient line with the checksummed text of 64
  zero bytes, and no line says Contract.
\<close>

theorem creation_without_data_shows_zero_address:
  assumes ok: "env_ok e st shake" "keccak_ok e keccak" "apdu_link e exchange" "io_ok e"
    and s: "idle s" "wf_device e (dev s)"
    and path: "path_cmd \<noteq> []" "length path_cmd \<le> 255" "buffer_read_u8 e (chunk_buffer path_cmd) 0 = (True, len, c1)"
      "buffer_read_bip32_path e c1 (replicate (max_bip32_path e) 0) (ucast len) = (True, path, c2)"
      "zond_path (take (unat len) path)" "key_of e path (ucast len) = Some pk"
    and v: "v \<noteq> []" "length v \<le> 2048" "decode_spec v = Some its" "displayable (store_fields its zero_tx)"
    and creation: "its ! 5 = []" "its ! 7 = []"
  shows "\<exists>t b pairs title fin. run (step e) s (map Apdu (client_sign_tx exchange path_cmd v)) t \<and>
    received (dev t) = v \<and> tx_to (tx_data_of (tx_info (ctx (dev t)))) = replicate 64 0 \<and>
    on_screen (dev t) = Review b pairs title fin Transaction_Choice \<and>
    (''To'', checksummed shake (replicate 64 0)) \<in> set pairs \<and> (\<forall>i. (i, ''Contract'') \<notin> set pairs)"
proof -
  let ?tx = "store_fields its zero_tx"
  note f = creation_fields [OF v(3) creation]
  have pages: "call_page_count (nvm (dev s)) ?tx = 0" by (simp add: call_page_count_def f(2))
  have "tx_data_len ?tx = 0 \<or> enable_blind_signing (nvm (dev s)) \<noteq> 0" using f(3) by simp
  from client_review [OF ok s path v(1-3) refl v(4) this, unfolded pages] obtain t where
    t: "run (step e) s (map Apdu (client_sign_tx exchange path_cmd v)) t" "received (dev t) = v"
    "tx_data_of (tx_info (ctx (dev t))) = ?tx" "on_screen (dev t) = review_of e shake (nvm (dev s)) pk (keccak v) ?tx"
    by auto
  show ?thesis
    using t(1,2) f(1) creation_pairs [OF f(2,1,3) refl]
    by (intro exI [of _ t]) (simp add: t(3,4) review_of_def transaction_page_def)
qed

text \<open>The contract creation of the repository's own tests.\<close>

theorem creation_without_data_shows_zero_address_witness:
  "\<exists>t b pairs title fin. run (step sample_env) (session_of start_device)
      (map Apdu (client_sign_tx sample_exchange (path_data 0xEE) contract_creation_vector)) t \<and>
    on_screen (dev t) = Review b pairs title fin Transaction_Choice \<and>
    (''To'', checksummed sample_shake (replicate 64 0)) \<in> set pairs \<and> (\<forall>i. (i, ''Contract'') \<notin> set pairs)"
proof -
  have d: "sent start_device = []" "\<not> exited start_device" by (simp_all add: start_device_def)
  note i = session_of_idle [OF wf_start_device d]
  obtain c2 where r2: "buffer_read_bip32_path sample_env ((chunk_buffer (path_data 0xEE))\<lparr>buf_offset := 1\<rparr>)
     (replicate (max_bip32_path sample_env) 0) (ucast (5 :: byte)) = (True, sample_path, c2)"
    using sample_path_read(2) by blast
  have v: "contract_creation_vector \<noteq> []" "length contract_creation_vector \<le> 2048"
    by (simp_all add: contract_creation_vector_def)
  have n: "[[0x30, 0x18, 0x24], [0x01], [0x3b, 0x9a, 0xca, 0x00], [0x02, 0x54, 0x0b, 0xe4, 0x00],
       [0x07, 0xa1, 0x20], [], [0x23, 0x86, 0xf2, 0x6f, 0xc1, 0x00, 0x00], [], [], [1, 0, 0], []] ! 5 = ([] :: bytes)"
    "[[0x30, 0x18, 0x24], [0x01], [0x3b, 0x9a, 0xca, 0x00], [0x02, 0x54, 0x0b, 0xe4, 0x00],
       [0x07, 0xa1, 0x20], [], [0x23, 0x86, 0xf2, 0x6f, 0xc1, 0x00, 0x00], [], [], [1, 0, 0], []] ! 7 = ([] :: bytes)"
    by simp_all
  from creation_without_data_shows_zero_address [OF sample_env_ok sample_keccak_ok sample_link sample_io i(1,2) sample_path_cmd
      sample_path_read(1) r2 sample_path_read(3) mldsa_ok_key [OF sample_mldsa_ok sample_path_read(4)] v
      decode_spec_contract_creation contract_creation_displayable(1) [unfolded contract_creation_tx_def] n]
  show ?thesis by blast
qed

end
