(* ===== verification/Call_Pages.thy ===== *)
theory Call_Pages
  imports Session
begin

text \<open>
  The pages of a contract call: which selector and parameter pages have been confirmed, in which
  order, when a page of a session is open, and that every command and every choice keeps this.
\<close>


section \<open>What the displays keep\<close>

text \<open>Showing the address and the transaction changes the key in the storage and no setting.\<close>

lemma address_keeps_settings:
  assumes "address_from_bip32_path e p n a s = (err, a', s')"
  shows "\<exists>pk. s' = s\<lparr>nv_pk := pk\<rparr>"
proof -
  have "\<exists>pk. s = s\<lparr>nv_pk := pk\<rparr>" by (rule exI [of _ "nv_pk s"]) simp
  then show ?thesis using assms
    by (auto simp: address_from_bip32_path_def Let_def split: prod.splits if_splits)
qed

text \<open>What a page about calldata depends on.\<close>

definition same_call :: "device \<Rightarrow> device \<Rightarrow> bool" where
  "same_call d' d \<longleftrightarrow> tx_info (ctx d') = tx_info (ctx d) \<and>
     enable_blind_signing (nvm d') = enable_blind_signing (nvm d) \<and>
     enable_debug_smart_contract (nvm d') = enable_debug_smart_contract (nvm d)"

lemma display_result:
  assumes d: "ui_display_transaction_bs_choice e bl d = Some (r, d')"
  shows "same_call d' d" "g_state (ctx d') = g_state (ctx d) \<or> g_state (ctx d') = STATE_NONE"
    "on_screen d' = on_screen d \<or> (\<exists>ps. on_screen d' = transaction_page e bl ps)"
proof -
  obtain err a n where k: "address_from_bip32_path e (bip32_path (ctx d))
      (ucast (bip32_path_len (ctx d))) (g_address (ctx d)) (nvm d) = (err, a, n)" by (metis prod_cases3)
  obtain pk where "n = (nvm d)\<lparr>nv_pk := pk\<rparr>" using address_keeps_settings [OF k] by blast
  then have "same_call d' d \<and> (g_state (ctx d') = g_state (ctx d) \<or> g_state (ctx d') = STATE_NONE) \<and>
      (on_screen d' = on_screen d \<or> (\<exists>ps. on_screen d' = transaction_page e bl ps))"
    using d by (auto simp: ui_display_transaction_bs_choice_def k same_call_def transaction_page_def dev_simps Let_def
        split: if_splits bind_splits)
  then show "same_call d' d" "g_state (ctx d') = g_state (ctx d) \<or> g_state (ctx d') = STATE_NONE"
    "on_screen d' = on_screen d \<or> (\<exists>ps. on_screen d' = transaction_page e bl ps)" by blast+
qed

lemma get_public_key_page:
  assumes "handler_get_public_key e cdata display d = Some (r, d')"
  shows "on_screen d' = on_screen d \<or> (\<exists>a. on_screen d' = Address_Review a)"
  using assms
  by (auto simp: handler_get_public_key_def ui_display_address_def helper_send_response_address_def dev_simps Let_def
      split: prod.splits if_splits bind_splits)

lemma signature_page:
  "sign_tx_signature e i d = Some (r, d') \<Longrightarrow> on_screen d' = on_screen d"
  by (auto simp: sign_tx_signature_def helper_send_response_sig_def dev_simps Let_def split: if_splits bind_splits)

text \<open>The selector and parameter pages never approve.\<close>

lemma buildScreen_keeps: "buildScreen e c d = Some d' \<Longrightarrow> ctx d' = ctx d"
  by (auto simp: buildScreen_def show_screen_def Let_def split: bind_splits)

lemma param_choice_state:
  assumes "param_review_choice e cf d = Some d'"
  shows "g_state (ctx d') = g_state (ctx d) \<or> g_state (ctx d') = STATE_NONE"
proof (cases cf)
  case False
  then show ?thesis using assms by (auto simp: param_review_choice_def dev_simps zero_ctx_def)
next
  case True
  then show ?thesis using assms display_result(2)
    by (fastforce simp: param_review_choice_def ui_display_blind_signed_transaction_def Let_def
        dest: buildScreen_keeps split: if_splits bind_splits)
qed


section \<open>The pages of a contract call\<close>

text \<open>Two readings of the same bytes as a call are the same call.\<close>

lemma is_encoding_unique:
  assumes "is_encoding bs sel slots" "is_encoding bs sel' slots'"
  shows "sel = sel' \<and> slots = slots'"
proof -
  have l: "length slots = length slots'" using is_encoding_length [OF assms(1)] is_encoding_length [OF assms(2)] by simp
  have e: "sel @ concat slots = sel' @ concat slots'" "length sel = length sel'"
    "\<forall>p \<in> set slots. length p = 64" "\<forall>p \<in> set slots'. length p = 64"
    using assms by (simp_all add: is_encoding_def abi_encode_def size_consts)
  have "slots ! i = slots' ! i" if "i < length slots" for i
    using nth_slot [OF e(3) that] nth_slot [OF e(4), of i] that l e(1,2) by simp
  then show ?thesis using e(1,2) l by (simp add: nth_equalityI)
qed

definition call_pages :: "bytes \<Rightarrow> bytes list \<Rightarrow> screen list" where
  "call_pages sel slots = selector_page sel # map param_page (take 16 slots)"

definition page_number :: "device \<Rightarrow> nat" where
  "page_number d = (if g_current_screen d = SELECTOR_CONFIRMATION then 0 else Suc (unat (g_param_index d)))"

definition parsed_call :: "bytes \<Rightarrow> bytes list \<Rightarrow> device \<Rightarrow> bool" where
  "parsed_call sel slots d \<longleftrightarrow> is_encoding (calldata_bytes d) sel slots \<and>
     calldata_of (tx_info (ctx d)) = parsed_calldata sel slots \<and> g_param_count d = of_nat (min (length slots) 16)"

text \<open>The settings and the recipient for which the calldata is reviewed page by page.\<close>

definition call_reviewed :: "device \<Rightarrow> bool" where
  "call_reviewed d \<longleftrightarrow> enable_blind_signing (nvm d) \<noteq> 0 \<and> enable_debug_smart_contract (nvm d) \<noteq> 0 \<and>
     tx_to_len (tx_data_of (tx_info (ctx d))) \<noteq> 0"

definition pages_inv :: "device \<Rightarrow> screen list \<Rightarrow> bool" where
  "pages_inv d log = (case on_screen d of
       Review b ps t f Parameter_Choice \<Rightarrow>
         (\<exists>sel slots. parsed_call sel slots d \<and> page_number d < length (call_pages sel slots) \<and>
            log = take (page_number d) (call_pages sel slots) \<and> on_screen d = call_pages sel slots ! page_number d)
     | Review b ps t f Transaction_Choice \<Rightarrow>
         (\<forall>sel slots. call_reviewed d \<and> is_encoding (calldata_bytes d) sel slots \<longrightarrow> b \<and> log = call_pages sel slots)
     | _ \<Rightarrow> True)"

lemma call_page_shape:
  "n < length (call_pages sel slots) \<Longrightarrow> \<exists>ps t f. call_pages sel slots ! n = Review False ps t f Parameter_Choice"
  by (cases n) (simp_all add: call_pages_def selector_page_def param_page_def)

lemma pages_inv_page:
  assumes "parsed_call sel slots d" "page_number d < length (call_pages sel slots)"
    "on_screen d = call_pages sel slots ! page_number d"
  shows "pages_inv d (take (page_number d) (call_pages sel slots))"
proof -
  obtain ps t f where "on_screen d = Review False ps t f Parameter_Choice"
    using call_page_shape [OF assms(2)] assms(3) by auto
  moreover have "\<exists>sel' slots'. parsed_call sel' slots' d \<and> page_number d < length (call_pages sel' slots') \<and>
      take (page_number d) (call_pages sel slots) = take (page_number d) (call_pages sel' slots') \<and>
      on_screen d = call_pages sel' slots' ! page_number d" using assms by blast
  ultimately show ?thesis unfolding pages_inv_def by simp
qed

lemma call_shown:
  "page_number (show_screen s d) = page_number d" "calldata_bytes (show_screen s d) = calldata_bytes d"
  "parsed_call sel slots (show_screen s d) = parsed_call sel slots d" "on_screen (show_screen s d) = s"
  by (simp_all add: page_number_def parsed_call_def calldata_bytes_def show_screen_def)

lemma pages_inv_quiet: "\<not> is_review (on_screen d) \<Longrightarrow> pages_inv d log"
  by (simp add: pages_inv_def is_review_def split: screen.splits)

lemma pages_inv_address: "on_screen d = Address_Review a \<Longrightarrow> pages_inv d log"
  by (simp add: pages_inv_def)

lemma same_call_simps:
  "same_call d' d \<Longrightarrow> calldata_bytes d' = calldata_bytes d" "same_call d' d \<Longrightarrow> call_reviewed d' = call_reviewed d"
  by (simp_all add: same_call_def calldata_bytes_def call_reviewed_def)

text \<open>A transaction review that opens when the pages of the call, if there are any, have been confirmed.\<close>

lemma display_pages:
  assumes d: "ui_display_transaction_bs_choice e bl d = Some (r, d')" "\<not> is_review (on_screen d)"
    and l: "\<And>sel slots. call_reviewed d \<Longrightarrow> is_encoding (calldata_bytes d) sel slots \<Longrightarrow> bl \<and> log = call_pages sel slots"
  shows "pages_inv d' log"
proof -
  note r = display_result [OF d(1)]
  consider "on_screen d' = on_screen d" | ps where "on_screen d' = transaction_page e bl ps" using r(3) by blast
  then show ?thesis
  proof cases
    case 1
    then show ?thesis using d(2) pages_inv_quiet by simp
  next
    case 2
    then show ?thesis using l same_call_simps [OF r(1)] by (auto simp: pages_inv_def transaction_page_def)
  qed
qed

text \<open>The first page of a call, and no page for anything else, when the last chunk opens a review.\<close>

lemma selector_pages:
  assumes wf: "wf_device e d" and enc: "is_encoding (calldata_bytes d) sel slots"
    and r: "ui_confirm_selector e (ui_contract_call_init (of_nat (min (length slots) 16))
      (with_calldata (parsed_calldata sel slots) d)) = Some (r, d')"
  shows "pages_inv d' []"
proof -
  let ?i = "ui_contract_call_init (of_nat (min (length slots) 16)) (with_calldata (parsed_calldata sel slots) d)"
  have c: "calldata_of (tx_info (ctx ?i)) = parsed_calldata sel slots" "calldata_bytes ?i = calldata_bytes d"
    "g_param_count ?i = of_nat (min (length slots) 16)" "page_number ?i = 0"
    by (simp_all add: ui_contract_call_init_def with_calldata_def set_tx_info_def calldata_bytes_def page_number_def)
  have "wf_device e ?i"
    using wf_with_calldata [OF wf wf_parsed_calldata [OF enc]] by (simp add: wf_device_def ui_contract_call_init_facts)
  note b = buildScreen_selector [OF this, unfolded c(1)]
  have "cd_selector (parsed_calldata sel slots) = sel" by (simp add: parsed_calldata_def)
  then have "d' = show_screen (selector_page sel) ?i" using r b by (simp add: ui_confirm_selector_def)
  moreover have "parsed_call sel slots ?i" using c(1-3) enc by (simp only: parsed_call_def)
  ultimately show ?thesis
    using pages_inv_page [of sel slots d'] c(4) by (simp add: call_shown call_pages_def)
qed

lemma route_pages:
  assumes wf: "wf_device e d" and len: "tx_data_len (tx_data_of (tx_info (ctx d))) \<le> 2048" and q: "\<not> is_review (on_screen d)"
    and r: "route_review e d = Some (r, d')"
  shows "pages_inv d' []"
proof -
  let ?tx = "tx_data_of (tx_info (ctx d))"
  consider "tx_data_len ?tx = 0"
    | "tx_data_len ?tx \<noteq> 0" "enable_blind_signing (nvm d) = 0"
    | "tx_data_len ?tx \<noteq> 0" "enable_blind_signing (nvm d) \<noteq> 0" "tx_to_len ?tx = 0 \<or> enable_debug_smart_contract (nvm d) = 0"
    | "tx_data_len ?tx \<noteq> 0" "enable_blind_signing (nvm d) \<noteq> 0" "tx_to_len ?tx \<noteq> 0" "enable_debug_smart_contract (nvm d) \<noteq> 0" by blast
  then show ?thesis
  proof cases
    case 1
    then have "\<not> is_encoding (calldata_bytes d) sel slots" for sel slots
      using is_encoding_length [of "calldata_bytes d" sel slots] by (auto simp: calldata_bytes_def)
    moreover have "ui_display_transaction_bs_choice e False d = Some (r, d')"
      using 1 r by (simp add: route_review_def Let_def ui_display_transaction_def)
    ultimately show ?thesis using display_pages [OF _ q] by blast
  next
    case 2
    then have "on_screen d' = on_screen (ui_error_blind_signing e d)"
      using r by (auto simp: route_review_def Let_def dev_simps)
    then show ?thesis using ui_error_blind_signing_facts(4) pages_inv_quiet by simp
  next
    case 3
    then have "ui_display_transaction_bs_choice e True d = Some (r, d')"
      using r by (auto simp: route_review_def Let_def ui_display_blind_signed_transaction_def)
    then show ?thesis using display_pages [OF _ q] 3(3) by (auto simp: call_reviewed_def)
  next
    case 4
    note p = route_parsed [OF wf len 4(1,2,3,4)]
    show ?thesis
    proof (cases "\<exists>sel slots. is_encoding (calldata_bytes d) sel slots")
      case True
      then obtain sel slots where enc: "is_encoding (calldata_bytes d) sel slots" by blast
      show ?thesis by (rule selector_pages [OF wf enc r [unfolded p(1) [OF enc]]])
    next
      case False
      then obtain cd where "ui_display_transaction_bs_choice e False (with_calldata cd d) = Some (r, d')"
        using p(2) r by (auto simp: ui_display_transaction_def)
      moreover have "calldata_bytes (with_calldata cd d) = calldata_bytes d"
        by (simp add: calldata_bytes_def with_calldata_def set_tx_info_def)
      ultimately show ?thesis using display_pages [of e False "with_calldata cd d" r d' "[]"] False q
        by (auto simp: pending_calldata)
    qed
  qed
qed

text \<open>A command: no page of a call has been confirmed before its first page.\<close>

lemma sign_last_pages:
  assumes l: "env_lengths e" and wf: "wf_device e d" and q: "\<not> is_review (on_screen d)"
    and sz: "unat (buf_size cdata) \<le> 255" and r: "sign_tx_last e cdata d = Some (r, d')"
  shows "pages_inv d' []"
proof -
  obtain res d1 where c: "recv_chunk e cdata d = Some (res, d1)" using recv_chunk_result [OF l wf sz] by blast
  note k = recv_quiet [OF c l wf sz]
  show ?thesis
  proof (cases res)
    case (Some sw)
    then have "on_screen d' = on_screen d" using r c k(2) by (auto simp: sign_tx_last_def dev_simps)
    then show ?thesis using q pages_inv_quiet by simp
  next
    case None
    obtain error h ret tx' where
      ret: "case decode_spec (received d1) of None \<Rightarrow> ret = (-1 :: int)
        | Some its \<Rightarrow> ret = 0 \<and> tx' = store_fields its (tx_data_of (tx_info (ctx d1)))"
      and last: "sign_tx_last e cdata d = (if error \<noteq> CX_OK then Some (io_send_sw e SW_SIGNATURE_FAIL (hashed_tx h d1))
        else if ret \<noteq> 0 then Some (io_send_sw e SW_TX_PARSING_FAIL (decoded_tx h tx' d1)) else route_review e (decoded_tx h tx' d1))"
      and w: "wf_device e (decoded_tx h tx' d1)" and wt: "wf_tx (tx_data_of (tx_info (ctx d1)))"
      by (rule sign_last_result [OF c [unfolded None] k(1) l]) (rule that)
    have s: "on_screen (decoded_tx h tx' d1) = on_screen d" "on_screen (hashed_tx h d1) = on_screen d"
      using k(2) by (simp_all add: set_tx_info_def set_state_def)
    show ?thesis
    proof (cases "error = CX_OK \<and> ret = 0")
      case False
      then have "on_screen d' = on_screen d" using r s unfolding last by (auto simp: dev_simps set_tx_info_def split: if_splits)
      then show ?thesis using q pages_inv_quiet by simp
    next
      case True
      then obtain its where its: "decode_spec (received d1) = Some its" "tx' = store_fields its (tx_data_of (tx_info (ctx d1)))"
        using ret by (auto split: option.splits)
      have "tx_data_len (tx_data_of (tx_info (ctx (decoded_tx h tx' d1)))) \<le> 2048"
        using store_fields_bounds [OF decode_spec_fields_ok [OF its(1)] wt] its(2) by (simp add: set_tx_info_def)
      then show ?thesis using route_pages [OF w] q s r True unfolding last by simp
    qed
  qed
qed

lemma sign_tx_pages:
  assumes ok: "env_ok e st shake" and wf: "wf_device e d" and q: "\<not> is_review (on_screen d)"
    and sz: "unat (buf_size cdata) \<le> 255" and r: "handler_sign_tx e cdata p1 p2 d = Some (r, d')"
  shows "pages_inv d' []"
proof -
  have l: "env_lengths e" "buffers_ok e" using ok by (simp_all add: env_ok_def)
  have keep: "pages_inv d' []" if "on_screen d' = on_screen d" using that q pages_inv_quiet by simp
  consider "p1 = 0" | "p1 = 1" | "p1 = 2" "p2 = 0" | "p1 = 2" "p2 > 0" "p2 < 18" | "p1 \<notin> {0, 1, 2} \<or> p1 = 2 \<and> \<not> p2 < 18 \<and> p2 \<noteq> 0"
    by (auto simp: word_gt_0)
  then show ?thesis
  proof cases
    case 1
    obtain len path sw where "sign_tx_first e cdata d = Some (io_send_sw e sw (started e len path d))"
      using sign_tx_first_result [OF l] by blast
    then show ?thesis using r 1 by (intro keep) (auto simp: handler_sign_tx_def dev_simps started_def)
  next
    case 2
    obtain res d1 where "recv_chunk e cdata d = Some (res, d1)" "on_screen d1 = on_screen d"
      using recv_chunk_result [OF l(1) wf sz] recv_quiet(2) [OF _ l(1) wf sz] by blast
    then show ?thesis using r 2
      by (intro keep) (auto simp: handler_sign_tx_def sign_tx_more_def dev_simps split: option.splits)
  next
    case 3
    then show ?thesis using r sign_last_pages [OF l(1) wf q sz] by (simp add: handler_sign_tx_def)
  next
    case 4
    then have "sign_tx_signature e p2 d = Some (r, d')" using r by (simp add: handler_sign_tx_def word_gt_0)
    then show ?thesis by (intro keep signature_page)
  next
    case 5
    then show ?thesis using r by (intro keep) (auto simp: handler_sign_tx_def dev_simps)
  qed
qed

lemma pages_inv_exited: "pages_inv (d\<lparr>exited := b\<rparr>) log = pages_inv d log"
proof -
  have "parsed_call sel slots (d\<lparr>exited := b\<rparr>) = parsed_call sel slots d" "page_number (d\<lparr>exited := b\<rparr>) = page_number d"
    "calldata_bytes (d\<lparr>exited := b\<rparr>) = calldata_bytes d" "call_reviewed (d\<lparr>exited := b\<rparr>) = call_reviewed d"
    "on_screen (d\<lparr>exited := b\<rparr>) = on_screen d" for sel slots
    by (simp_all add: parsed_call_def calldata_bytes_def page_number_def call_reviewed_def)
  then show ?thesis by (simp only: pages_inv_def)
qed

lemma round_pages:
  assumes ok: "env_ok e st shake" and wf: "wf_device e d" and q: "\<not> is_review (on_screen d)"
    and r: "app_main_round e apdu d = Some d'"
  shows "pages_inv d' []"
proof -
  have keep: "pages_inv d' []" if "on_screen d' = on_screen d" for d' using that q pages_inv_quiet by simp
  have addr: "pages_inv d' []" if "on_screen d' = on_screen d \<or> (\<exists>a. on_screen d' = Address_Review a)" for d'
    using that keep pages_inv_address by blast
  have "pages_inv d1 []" if c: "apdu_dispatcher e cmd d = Some (x, d1)" for cmd x d1
  proof -
    note s = sign_tx_pages [OF ok wf q command_buffer_size]
    note k = get_public_key_page
    have "handler_get_public_key_chunk e i d = Some (x, d1) \<Longrightarrow> on_screen d1 = on_screen d" for i
      by (auto simp: handler_get_public_key_chunk_def helper_send_response_pk_chunk_def dev_simps split: if_splits bind_splits)
    then show ?thesis using c
      by (auto simp: apdu_dispatcher_def handler_get_version_def handler_get_app_name_def dev_simps
          split: if_splits intro: s addr dest: k)
  qed
  then show ?thesis using r q
    by (auto simp: app_main_round_def pages_inv_exited dev_simps split: option.splits bind_splits if_splits intro: keep)
qed

text \<open>A confirmed page of a call leads to the next one, and the last one to the blind-signing review.\<close>

lemma call_choice_pages:
  assumes f: "format_hex_ok e" and wf: "wf_device e d" and p: "pages_inv d log"
    and scr: "on_screen d = Review b ps t fin Parameter_Choice"
    and r: "param_review_choice e True (show_screen Blank d) = Some d'"
  shows "pages_inv d' (log @ [on_screen d])"
proof -
  obtain sel slots where c: "parsed_call sel slots d" and n: "page_number d < length (call_pages sel slots)"
    "log = take (page_number d) (call_pages sel slots)" "on_screen d = call_pages sel slots ! page_number d"
    using p scr by (auto simp: pages_inv_def)
  let ?pages = "call_pages sel slots" and ?m = "min (length slots) 16"
  have log: "log @ [on_screen d] = take (Suc (page_number d)) ?pages"
    using n by (simp add: take_Suc_conv_app_nth)
  have k: "length ?pages = Suc ?m" by (simp add: call_pages_def)
  define d1 where "d1 = next_page d"
  note d1 = next_page_facts [of d, folded d1_def]
  have i: "Suc (unat (g_param_index d1)) = Suc (page_number d)"
    using n(1) k by (auto simp: d1_def next_page_def page_number_def show_screen_def unat_word_ariths)
  have cnt: "unat (g_param_count d1) = ?m" using c by (simp add: parsed_call_def d1 unat_of_nat)
  have num: "page_number d1 = Suc (page_number d)" using i d1(6) by (simp add: page_number_def)
  have call: "parsed_call sel slots d1" using c by (simp add: parsed_call_def d1 calldata_bytes_def)
  have wf1: "wf_device e d1" using wf by (simp add: wf_device_def d1)
  note res = r [unfolded page_confirmed, folded d1_def]
  show ?thesis
  proof (cases "page_number d < ?m")
    case True
    then have lt: "g_param_index d1 < g_param_count d1" using i cnt by (simp add: word_less_nat_alt)
    have b: "0 < g_param_count d1" "unat (g_param_index d1) < 16" using lt cnt by (auto simp: word_less_nat_alt)
    have "cd_params (calldata_of (tx_info (ctx d1))) ! page_number d = slots ! page_number d"
      using call True by (simp add: parsed_call_def parsed_calldata_def nth_append size_consts)
    then have "d' = show_screen (?pages ! Suc (page_number d)) d1"
      using buildScreen_parameter [OF f wf1 b] res lt i True by (simp add: call_pages_def)
    then show ?thesis
      using pages_inv_page [of sel slots d'] call num True k unfolding log by (simp add: call_shown)
  next
    case False
    then have "\<not> g_param_index d1 < g_param_count d1" using i cnt by (simp add: word_less_nat_alt)
    then obtain x where x: "ui_display_transaction_bs_choice e True d1 = Some (x, d')"
      using res by (auto simp: ui_display_blind_signed_transaction_def split: bind_splits)
    have full: "take (Suc (page_number d)) ?pages = ?pages" using False k by (intro take_all) linarith
    have "call_pages sel' slots' = ?pages" if "is_encoding (calldata_bytes d1) sel' slots'" for sel' slots'
      using is_encoding_unique [OF that, of sel slots] call by (simp add: parsed_call_def)
    then show ?thesis unfolding log full by (intro display_pages [OF x]) (simp_all add: d1(5) is_review_def)
  qed
qed

text \<open>Every choice.\<close>

definition is_call_page :: "screen \<Rightarrow> bool" where
  "is_call_page s = (case s of Review b ps t f Parameter_Choice \<Rightarrow> True | _ \<Rightarrow> False)"

lemma choice_pages:
  assumes ok: "env_ok e st shake" and wf: "wf_device e d" and p: "pages_inv d log"
    and r: "run_choice e rnd cf d = Some d'"
  shows "pages_inv d' (if cf \<and> is_call_page (on_screen d) then log @ [on_screen d] else log)"
proof -
  consider (call) b ps t f where "on_screen d = Review b ps t f Parameter_Choice" "cf"
    | (stop) b ps t f where "on_screen d = Review b ps t f Parameter_Choice" "\<not> cf"
    | (other) "\<forall>b ps t f. on_screen d \<noteq> Review b ps t f Parameter_Choice" by blast
  then show ?thesis
  proof cases
    case call
    have "format_hex_ok e" using ok by (simp add: env_ok_def)
    from call_choice_pages [OF this wf p call(1)] show ?thesis
      using r call by (simp add: run_choice_def is_call_page_def)
  next
    case stop
    then have "on_screen d' = Review_Status TRANSACTION_REJECTED"
      using r by (auto simp: run_choice_def param_review_choice_def dev_simps)
    then show ?thesis by (simp add: pages_inv_def)
  next
    case other
    then have "\<not> is_review (on_screen d')"
      using r by (cases "on_screen d")
        (auto simp: run_choice_def review_choice_def address_review_choice_def ui_error_blind_signing_choice_def
          ui_settings_def ui_menu_main_def show_screen_def is_review_def Let_def
          split: review_callback.splits bind_splits if_splits)
    then show ?thesis by (rule pages_inv_quiet)
  qed
qed

end
