(* ===== verification/Session_Correct.thy ===== *)
theory Session_Correct
  imports Client Call_Pages
begin

text \<open>
  What holds in every session: the application as an instance of the contracts of \<open>Runs\<close>, a
  concrete session, and the properties of the sessions that follow.
\<close>


section \<open>The application\<close>

type_synonym sdk = "env \<times> (bytes \<Rightarrow> bytes) \<times> (bytes \<Rightarrow> bytes)"

definition sdk_ok :: "sdk \<Rightarrow> bool" where "sdk_ok p = (case p of (e, st, shake) \<Rightarrow> env_ok e st shake)"

definition sdk_inv :: "sdk \<Rightarrow> session \<Rightarrow> bool" where
  "sdk_inv p s = (case p of (e, st, shake) \<Rightarrow> session_inv e shake s)"

lemma session_start_inv:
  assumes "session_start e s"
  shows "session_inv e shake s"
proof -
  obtain d where d: "wf_device e d" "sent d = []" "s = \<lparr>dev = app_main_start e d, requests = 0, confirmed = Blank\<rparr>"
    using assms by (auto simp: session_start_def)
  have f: "ctx (app_main_start e d) = zero_ctx (max_bip32_path e)" "nvm (app_main_start e d) = nvm d"
    "sent (app_main_start e d) = []" "\<not> is_review (on_screen (app_main_start e d))"
    using d(2) by (simp_all add: app_main_start_def bzero_ctx_def ui_menu_main_def show_screen_def is_review_def)
  have "wf_device e (app_main_start e d)" using d(1) wf_zero_ctx by (simp add: wf_device_def f)
  then have "device_inv e shake Blank (app_main_start e d)"
    by (rule device_inv_fresh [OF _ f(4)]) (simp add: f zero_ctx_def)
  then show ?thesis using f by (simp add: session_inv_def d(3) due_def)
qed

lemma run_choice_page:
  "run_choice e rnd cf d = Some d' \<Longrightarrow>
   is_review (on_screen d) \<or> (\<exists>t m y n. on_screen d = Choice_Page t m y n)"
  by (auto simp: run_choice_def is_review_def split: screen.splits)

lemma menu_inv:
  assumes d: "device_inv e shake conf d" and q: "\<not> is_review (on_screen d)"
    and s: "ctx d' = ctx d" "nv_pk (nvm d') = nv_pk (nvm d)" "nv_sig (nvm d') = nv_sig (nvm d)"
      "sent d' = sent d" "\<not> is_review (on_screen d')"
  shows "device_inv e shake conf d' \<and> due d' = due d"
proof -
  have "wf_device e d'" using d s by (simp add: device_inv_def wf_device_def wf_nvm_def)
  then show ?thesis using device_inv_keep [OF d _ s(5) s(1-3)] q s(4,5) by (simp add: due_def)
qed

lemma controls_callback_keeps:
  "ctx (controls_callback e tk i p d) = ctx d" "nv_pk (nvm (controls_callback e tk i p d)) = nv_pk (nvm d)"
  "nv_sig (nvm (controls_callback e tk i p d)) = nv_sig (nvm d)" "sent (controls_callback e tk i p d) = sent d"
  "on_screen (controls_callback e tk i p d) = on_screen d"
  by (simp_all add: controls_callback_def Let_def)

lemma session_step_inv:
  assumes ok: "env_ok e st shake" and i: "session_inv e shake s" and stp: "step e s ev s'"
  shows "session_inv e shake s'"
  using stp
proof cases
  case (step_apdu apdu d')
  have d: "device_inv e shake (confirmed s) (dev s)" "\<not> is_review (on_screen (dev s))"
    using i step_apdu(4) by (auto simp: session_inv_def due_def split: if_splits)
  then show ?thesis
    using round_inv [OF ok d, of apdu] step_apdu i by (auto simp: session_inv_def served_def)
next
  case (step_choose rnd cf d')
  have "device_inv e shake (confirmed s) (dev s)" using i by (simp add: session_inv_def)
  from choice_inv [OF ok this run_choice_page [OF step_choose(4)], of rnd cf] show ?thesis
    using step_choose i by (auto simp: session_inv_def chosen_def)
next
  case step_dismiss
  then have "\<not> is_review (on_screen (dev s))" by (auto simp: is_review_def)
  then have "device_inv e shake (confirmed s) (ui_menu_main e (dev s)) \<and> due (ui_menu_main e (dev s)) = due (dev s)"
    using i by (intro menu_inv) (simp_all add: session_inv_def ui_menu_main_def show_screen_def is_review_def)
  then show ?thesis using i step_dismiss by (simp add: session_inv_def)
next
  case (step_toggle nm p info tk ix pg)
  then have "\<not> is_review (on_screen (dev s))" by (simp add: is_review_def)
  then have "device_inv e shake (confirmed s) (controls_callback e tk ix pg (dev s)) \<and>
      due (controls_callback e tk ix pg (dev s)) = due (dev s)"
    using i by (intro menu_inv) (simp_all add: session_inv_def controls_callback_keeps)
  then show ?thesis using i step_toggle by (simp add: session_inv_def)
next
  case (step_quit nm p info)
  then have "\<not> is_review (on_screen (dev s))" by (simp add: is_review_def)
  then have "device_inv e shake (confirmed s) (app_quit (dev s)) \<and> due (app_quit (dev s)) = due (dev s)"
    using i by (intro menu_inv) (simp_all add: session_inv_def app_quit_def)
  then show ?thesis using i step_quit by (simp add: session_inv_def)
next
  case step_recv_failure
  then show ?thesis using i by (simp add: session_inv_def app_main_recv_failure_def device_inv_exited due_def)
qed

text \<open>The machine of the phases: commands only when no review is open, choices on what is open.\<close>

definition waiting :: "phase \<Rightarrow> bool" where
  "waiting p = (case p of Reviewing bs \<Rightarrow> True | Showing_Address \<Rightarrow> True | _ \<Rightarrow> False)"

inductive phase_step :: "phase \<Rightarrow> event \<Rightarrow> phase \<Rightarrow> bool" where
  phase_apdu: "\<not> waiting p \<Longrightarrow> apdu_step p p' \<Longrightarrow> phase_step p (Apdu apdu) p'"
| phase_choose: "choice_step ok p p' \<Longrightarrow> phase_step p (Choose ok rnd) p'"
| phase_dismiss: "\<not> waiting p \<Longrightarrow> phase_step p Dismiss p"
| phase_toggle: "\<not> waiting p \<Longrightarrow> phase_step p (Toggle token index page) p"
| phase_quit: "\<not> waiting p \<Longrightarrow> phase_step p Quit p"
| phase_recv_failure: "phase_step p Receive_Failure p"

text \<open>The ways into the release of a signature.\<close>

inductive_simps apdu_released: "apdu_step p (Released bs)"
inductive_simps choice_released: "choice_step ok p (Released bs)"
inductive_simps phase_released: "phase_step p ev (Released bs)"

lemma waiting_phase: "waiting (phase_of d) \<longleftrightarrow> is_review (on_screen d)"
proof (cases "is_review (on_screen d)")
  case False
  then show ?thesis by (simp add: phase_of_quiet waiting_def split: state_e.splits)
next
  case True
  then show ?thesis by (auto simp: phase_of_def waiting_def is_review_def split: screen.splits)
qed

lemma phase_of_same:
  "ctx d' = ctx d \<Longrightarrow> \<not> is_review (on_screen d') \<Longrightarrow> \<not> is_review (on_screen d) \<Longrightarrow>
   phase_of d' = phase_of d \<and> \<not> waiting (phase_of d)"
  using phase_of_cong waiting_phase by blast

lemma session_step_sim:
  assumes ok: "env_ok e st shake" and i: "session_inv e shake s" and stp: "step e s ev s'"
  shows "phase_step (phase_of (dev s)) ev (phase_of (dev s'))"
  using stp
proof cases
  case (step_apdu apdu d')
  have d: "device_inv e shake (confirmed s) (dev s)" "\<not> is_review (on_screen (dev s))"
    using i step_apdu(4) by (auto simp: session_inv_def due_def split: if_splits)
  then have "served e shake (confirmed s) (dev s) d'" using round_inv [OF ok d, of apdu] step_apdu by auto
  then show ?thesis using step_apdu d(2) by (auto simp: served_def waiting_phase intro: phase_apdu)
next
  case (step_choose rnd cf d')
  have "device_inv e shake (confirmed s) (dev s)" using i by (simp add: session_inv_def)
  from choice_inv [OF ok this run_choice_page [OF step_choose(4)], of rnd cf] show ?thesis
    using step_choose by (auto simp: chosen_def intro: phase_choose)
next
  case step_dismiss
  then have "\<not> is_review (on_screen (dev s))" by (auto simp: is_review_def)
  then have "phase_of (ui_menu_main e (dev s)) = phase_of (dev s) \<and> \<not> waiting (phase_of (dev s))"
    by (intro phase_of_same) (simp_all add: ui_menu_main_def show_screen_def is_review_def)
  then show ?thesis using step_dismiss by (simp add: phase_dismiss)
next
  case (step_toggle nm p info tk ix pg)
  then have "\<not> is_review (on_screen (dev s))" by (simp add: is_review_def)
  then have "phase_of (controls_callback e tk ix pg (dev s)) = phase_of (dev s) \<and> \<not> waiting (phase_of (dev s))"
    by (intro phase_of_same) (simp_all add: controls_callback_keeps)
  then show ?thesis using step_toggle by (simp add: phase_toggle)
next
  case (step_quit nm p info)
  then have "\<not> is_review (on_screen (dev s))" by (simp add: is_review_def)
  then have "phase_of (app_quit (dev s)) = phase_of (dev s) \<and> \<not> waiting (phase_of (dev s))"
    by (intro phase_of_same) (simp_all add: app_quit_def)
  then show ?thesis using step_quit by (simp add: phase_quit)
next
  case step_recv_failure
  then show ?thesis by (simp add: app_main_recv_failure_def phase_of_exited phase_recv_failure)
qed

interpretation app: simulated_system sdk_ok "\<lambda>p. session_start (fst p)" "\<lambda>p. step (fst p)" sdk_inv
    "\<lambda>s. phase_of (dev s)" "\<lambda>p. phase_step"
  by unfold_locales
    (auto simp: sdk_ok_def sdk_inv_def session_start_inv intro: session_step_inv session_step_sim)

text \<open>The invariant in every state of a session, and the phases it goes through.\<close>

lemma session_run_inv:
  "env_ok e st shake \<Longrightarrow> session_start e s0 \<Longrightarrow> run (step e) s0 es s \<Longrightarrow> session_inv e shake s"
  using app.run_inv [of "(e, st, shake)" s0 es s] by (simp add: sdk_ok_def sdk_inv_def)

lemma session_start_phase: "session_start e s0 \<Longrightarrow> phase_of (dev s0) = Idle"
  by (auto simp: session_start_def app_main_start_def bzero_ctx_def ui_menu_main_def show_screen_def is_review_def
      zero_ctx_def phase_of_quiet)

lemma session_run_phases:
  "env_ok e st shake \<Longrightarrow> session_start e s0 \<Longrightarrow> run (step e) s0 es s \<Longrightarrow> run phase_step Idle es (phase_of (dev s))"
  using app.run_simulated [of "(e, st, shake)" s0 es s] session_start_phase [of e s0]
  by (simp add: sdk_ok_def)



section \<open>A concrete session\<close>

definition sample_start :: session where "sample_start = session_of start_device"

lemma sample_start_ok: "session_start sample_env sample_start"
  unfolding sample_start_def by (rule session_of_ok [OF wf_start_device]) (simp_all add: start_device_def)

definition sample_commands :: "bytes \<Rightarrow> event list" where
  "sample_commands v = map Apdu (client_sign_tx sample_exchange (path_data 0xEE) v)"

definition sample_events :: "event list" where
  "sample_events = sample_commands contract_creation_vector @ [Choose True []]"

text \<open>A session of the sample environment up to the open review, and up to the approved state.\<close>

lemma sample_commands_run:
  assumes d: "wf_device sample_env d" "sent d = []" "\<not> exited d"
    and v: "v \<noteq> []" "length v \<le> 2048" "decode_spec v = Some its" "tx = store_fields its zero_tx" "displayable tx"
      "tx_data_len tx = 0 \<or> enable_blind_signing (nvm d) \<noteq> 0"
  shows "\<exists>s. run (step sample_env) (session_of d)
      (sample_commands v @ replicate (call_page_count (nvm d) tx) (Choose True [])) s \<and>
     wf_device sample_env (dev s) \<and> \<not> exited (dev s) \<and>
     (\<exists>ps t f. on_screen (dev s) = Review (blind_form (nvm d) tx) ps t f Transaction_Choice) \<and>
     req_type (ctx (dev s)) = CONFIRM_TRANSACTION \<and> received (dev s) = v \<and>
     bip32_path (ctx (dev s)) = sample_path \<and> bip32_path_len (ctx (dev s)) = 5 \<and>
     nvm (dev s) = (nvm d)\<lparr>nv_sig := replicate MLDSA87_SIGBYTES 0, nv_pk := replicate MLDSA87_PUBLICKEYBYTES 3\<rparr> \<and>
     tx_data_of (tx_info (ctx (dev s))) = tx"
proof -
  note i = session_of_idle [OF d]
  obtain c2 where r2: "buffer_read_bip32_path sample_env ((chunk_buffer (path_data 0xEE))\<lparr>buf_offset := 1\<rparr>)
     (replicate (max_bip32_path sample_env) 0) (ucast (5 :: byte)) = (True, sample_path, c2)"
    using sample_path_read(2) by blast
  note key = mldsa_ok_key [OF sample_mldsa_ok sample_path_read(4)]
  have on: "tx_data_len tx = 0 \<or> enable_blind_signing (nvm (dev (session_of d))) \<noteq> 0" using v(6) by (simp add: i(4))
  from client_review [OF sample_env_ok sample_keccak_ok sample_link sample_io i(1,2) sample_path_cmd
      sample_path_read(1) r2 sample_path_read(3) key v(1-5) on, of "[]"]
  obtain s where "run (step sample_env) (session_of d)
      (sample_commands v @ replicate (call_page_count (nvm d) tx) (Choose True [])) s"
    "wf_device sample_env (dev s)" "\<not> exited (dev s)" "req_type (ctx (dev s)) = CONFIRM_TRANSACTION" "received (dev s) = v"
    "bip32_path (ctx (dev s)) = sample_path" "bip32_path_len (ctx (dev s)) = 5"
    "nvm (dev s) = (nvm d)\<lparr>nv_sig := replicate MLDSA87_SIGBYTES 0, nv_pk := replicate MLDSA87_PUBLICKEYBYTES 3\<rparr>"
    "tx_data_of (tx_info (ctx (dev s))) = tx"
    "on_screen (dev s) = review_of sample_env sample_shake (nvm d) (replicate MLDSA87_PUBLICKEYBYTES 3) (sample_keccak v) tx"
    unfolding i(4) sample_commands_def by blast
  then show ?thesis by (intro exI [of _ s]) (simp add: review_of_def transaction_page_def)
qed

text \<open>Approving the open review.\<close>

lemma sample_approval:
  assumes "\<not> exited (dev s)" "wf_device sample_env (dev s)" "on_screen (dev s) = Review b ps t f Transaction_Choice"
    and "bip32_path (ctx (dev s)) = sample_path" "bip32_path_len (ctx (dev s)) = 5"
    "nv_pk (nvm (dev s)) = replicate MLDSA87_PUBLICKEYBYTES 3"
  shows "\<exists>s'. step sample_env s (Choose True []) s' \<and> req_type (ctx (dev s')) = req_type (ctx (dev s)) \<and>
    g_state (ctx (dev s')) = STATE_APPROVED \<and> received (dev s') = received (dev s)"
proof -
  let ?e = sample_env and ?d = "show_screen Blank (dev s)"
  have wf: "wf_device ?e ?d" using assms(2) by (simp add: wf_device_def show_screen_def)
  obtain d' where d': "review_choice ?e [] True ?d = Some d'" "ctx d' = (ctx ?d)\<lparr>g_state := STATE_APPROVED\<rparr>"
    using approval_signs [OF sample_lengths sample_mldsa_ok wf, of "replicate 64 7" "[]"] sample_path_read(4) assms(4-6)
    by (auto simp: show_screen_def)
  have "step ?e s (Choose True []) (s\<lparr>dev := d', confirmed := note_choice True (on_screen (dev s)) (confirmed s)\<rparr>)"
    by (rule step_choose [OF assms(1)]) (use assms(3) d'(1) in \<open>simp add: run_choice_def\<close>)
  moreover have "received d' = received (dev s)"
    by (rule received_cong) (simp add: d'(2) show_screen_def)
  ultimately show ?thesis using d'(2)
    by (intro exI [of _ "s\<lparr>dev := d', confirmed := note_choice True (on_screen (dev s)) (confirmed s)\<rparr>"])
      (simp add: show_screen_def)
qed

lemma sample_signed:
  assumes "wf_device sample_env d" "sent d = []" "\<not> exited d"
    and "v \<noteq> []" "length v \<le> 2048" "decode_spec v = Some its" "tx = store_fields its zero_tx" "displayable tx"
      "tx_data_len tx = 0 \<or> enable_blind_signing (nvm d) \<noteq> 0"
  shows "\<exists>s. run (step sample_env) (session_of d)
      (sample_commands v @ replicate (call_page_count (nvm d) tx) (Choose True []) @ [Choose True []]) s \<and>
     req_type (ctx (dev s)) = CONFIRM_TRANSACTION \<and> g_state (ctx (dev s)) = STATE_APPROVED \<and> received (dev s) = v"
proof -
  obtain s where s: "run (step sample_env) (session_of d)
      (sample_commands v @ replicate (call_page_count (nvm d) tx) (Choose True [])) s"
    "wf_device sample_env (dev s)" "\<not> exited (dev s)"
    "\<exists>ps t f. on_screen (dev s) = Review (blind_form (nvm d) tx) ps t f Transaction_Choice"
    "req_type (ctx (dev s)) = CONFIRM_TRANSACTION" "received (dev s) = v"
    "bip32_path (ctx (dev s)) = sample_path" "bip32_path_len (ctx (dev s)) = 5"
    "nv_pk (nvm (dev s)) = replicate MLDSA87_PUBLICKEYBYTES 3"
    using sample_commands_run [OF assms] by fastforce
  obtain s' where s': "step sample_env s (Choose True []) s'" "req_type (ctx (dev s')) = req_type (ctx (dev s))"
    "g_state (ctx (dev s')) = STATE_APPROVED" "received (dev s') = received (dev s)"
    using sample_approval [OF s(3,2) _ s(7-9)] s(4) by blast
  from run.run_snoc [where stp = "step sample_env", OF s(1) s'(1)] show ?thesis using s' s(5,6) by (intro exI [of _ s']) simp
qed

lemma creation_pages: "call_page_count n contract_creation_tx = 0" "\<not> blind_form n contract_creation_tx"
  using contract_creation_displayable(2) by (simp_all add: call_page_count_def blind_form_def whole_call_def)

lemma creation_facts:
  "contract_creation_vector \<noteq> []" "length contract_creation_vector \<le> 2048"
  "\<exists>its. decode_spec contract_creation_vector = Some its \<and> contract_creation_tx = store_fields its zero_tx"
  using decode_spec_contract_creation by (simp_all add: contract_creation_vector_def contract_creation_tx_def)

lemma sample_review:
  "\<exists>s. run (step sample_env) sample_start (sample_commands contract_creation_vector) s \<and>
     (\<exists>ps t f. on_screen (dev s) = Review False ps t f Transaction_Choice)"
proof -
  note c = creation_facts
  obtain its where its: "decode_spec contract_creation_vector = Some its" "contract_creation_tx = store_fields its zero_tx"
    using c(3) by blast
  have "sent start_device = []" "\<not> exited start_device" by (simp_all add: start_device_def)
  from sample_commands_run [OF wf_start_device this c(1,2) its contract_creation_displayable(1)]
  show ?thesis using creation_pages contract_creation_displayable(2) by (auto simp: sample_start_def)
qed

lemma sample_session:
  "\<exists>s. run (step sample_env) sample_start sample_events s \<and> req_type (ctx (dev s)) = CONFIRM_TRANSACTION \<and>
     g_state (ctx (dev s)) = STATE_APPROVED \<and> received (dev s) = contract_creation_vector"
proof -
  note c = creation_facts
  obtain its where its: "decode_spec contract_creation_vector = Some its" "contract_creation_tx = store_fields its zero_tx"
    using c(3) by blast
  have "sent start_device = []" "\<not> exited start_device" by (simp_all add: start_device_def)
  from sample_signed [OF wf_start_device this c(1,2) its contract_creation_displayable(1)]
  show ?thesis using creation_pages contract_creation_displayable(2) by (simp add: sample_start_def sample_events_def)
qed


section \<open>The properties of every session\<close>

lemma choice_crash_page:
  assumes l: "env_lengths e" and d: "device_inv e shake conf d"
    and r: "is_review (on_screen d)" "run_choice e rnd ok d = None"
  shows "\<exists>b pairs title fin. on_screen d = Review b pairs title fin Parameter_Choice"
proof -
  have wf: "wf_device e d" using d by (simp add: device_inv_def)
  have wf0: "wf_device e (show_screen Blank d)" using wf by (simp add: wf_device_def show_screen_def)
  obtain res d1 where "validate_transaction e rnd True (show_screen Blank d) = Some (res, d1)"
    using validate_transaction_approved [OF l wf0] by blast
  then have "review_choice e rnd ok (show_screen Blank d) \<noteq> None"
    by (cases ok) (simp_all add: review_choice_def validate_transaction_def)
  moreover have "address_review_choice e ok (show_screen Blank d) \<noteq> None" if "on_screen d = Address_Review a" for a
  proof -
    have "req_type (ctx d) = CONFIRM_ADDRESS" using d that by (simp add: device_inv_def screen_inv_def)
    from address_choice [OF wf this that, of ok] show ?thesis by fastforce
  qed
  ultimately show ?thesis
    using r by (auto simp: run_choice_def is_review_def Let_def split: screen.splits review_callback.splits)
qed

lemma session_approved:
  assumes "session_inv e shake s" "req_type (ctx (dev s)) = CONFIRM_TRANSACTION" "g_state (ctx (dev s)) = STATE_APPROVED"
  shows "approved_tx e shake (confirmed s) (dev s)" "phase_of (dev s) = Released (received (dev s))"
proof -
  show "approved_tx e shake (confirmed s) (dev s)" using assms by (simp add: session_inv_def device_inv_def)
  have "\<not> is_review (on_screen (dev s))"
    using assms by (auto simp: session_inv_def device_inv_def screen_inv_def pending_tx_def is_review_def
        split: screen.splits review_callback.splits)
  then show "phase_of (dev s) = Released (received (dev s))" using assms(2,3) by (simp add: phase_of_quiet)
qed



text \<open>The confirmation that releases a signature is given on the transaction page.\<close>

lemma releasing_page:
  assumes i: "session_inv e shake s" and stp: "step e s (Choose True rnd) s'"
    and p: "phase_of (dev s) = Reviewing bs" "phase_of (dev s') = Released bs"
  shows "(\<exists>b ps t f. on_screen (dev s) = Review b ps t f Transaction_Choice) \<and> received (dev s) = bs"
proof -
  obtain b ps t f cb where scr: "on_screen (dev s) = Review b ps t f cb" "received (dev s) = bs"
    using p(1) by (auto simp: phase_of_def split: screen.splits if_splits state_e.splits)
  have "cb = Transaction_Choice"
  proof (rule ccontr)
    assume "cb \<noteq> Transaction_Choice"
    then have par: "on_screen (dev s) = Review b ps t f Parameter_Choice" using scr(1) by (cases cb) simp_all
    then have st: "g_state (ctx (dev s)) = STATE_PARSED" using i by (simp add: session_inv_def device_inv_def screen_inv_def pending_tx_def)
    obtain d' where d': "run_choice e rnd True (dev s) = Some d'" "dev s' = d'" using stp by cases simp
    then have "param_review_choice e True (show_screen Blank (dev s)) = Some d'" using par by (simp add: run_choice_def)
    from param_choice_state [OF this] have "g_state (ctx d') \<noteq> STATE_APPROVED" using st by (auto simp: show_screen_def)
    then show False using p(2) d'(2) by (auto simp: phase_of_def split: screen.splits if_splits state_e.splits)
  qed
  then show ?thesis using scr by blast
qed

text \<open>A release goes back to a confirmation on the transaction page, with the same bytes under review.\<close>

lemma released_was_reviewed:
  assumes "env_ok e st shake"
  shows "run (step e) s0 es s \<Longrightarrow> session_start e s0 \<Longrightarrow> phase_of (dev s) = Released bs \<Longrightarrow>
    \<exists>es1 rnd es2 s1. es = es1 @ Choose True rnd # es2 \<and> run (step e) s0 es1 s1 \<and>
      (\<exists>b ps t f. on_screen (dev s1) = Review b ps t f Transaction_Choice) \<and> received (dev s1) = bs"
proof (induction rule: run.induct)
  case (run_nil s)
  then show ?case by (simp add: session_start_phase)
next
  case (run_snoc s es s' ev s'')
  have i: "session_inv e shake s'" by (rule session_run_inv [OF assms run_snoc.prems(1) run_snoc.hyps(1)])
  have stp: "phase_step (phase_of (dev s')) ev (Released bs)"
    using session_step_sim [OF assms i run_snoc.hyps(2)] run_snoc.prems(2) by simp
  consider "phase_of (dev s') = Released bs" | rnd where "ev = Choose True rnd" "phase_of (dev s') = Reviewing bs"
    using stp by (auto simp: phase_released apdu_released choice_released)
  then show ?case
  proof cases
    case 1
    then obtain es1 rnd es2 s1 where "es = es1 @ Choose True rnd # es2" "run (step e) s es1 s1"
      "\<exists>b ps t f. on_screen (dev s1) = Review b ps t f Transaction_Choice" "received (dev s1) = bs"
      using run_snoc.IH run_snoc.prems(1) by blast
    then show ?thesis by (intro exI [of _ es1] exI [of _ rnd] exI [of _ "es2 @ [ev]"] exI [of _ s1]) simp
  next
    case (2 rnd)
    from releasing_page [OF i run_snoc.hyps(2) [unfolded 2(1)] 2(2) run_snoc.prems(2)] show ?thesis
      using run_snoc.hyps(1) 2(1) by (intro exI [of _ es] exI [of _ rnd] exI [of _ "[]"] exI [of _ s']) simp
  qed
qed

text \<open>
  C2. No signature without approval: a session reaches a state in which a signature can be fetched
  only through a confirmation by the user, given on the page of the transaction (not on a selector
  or parameter page) while exactly the bytes signed were the bytes received; no sequence of commands
  alone gets there.
\<close>

theorem release_needs_approval:
  assumes "env_ok e st shake" "session_start e s0" "run (step e) s0 es s"
    and "req_type (ctx (dev s)) = CONFIRM_TRANSACTION" "g_state (ctx (dev s)) = STATE_APPROVED"
  shows "\<exists>es1 rnd es2 s1 b pairs title fin. es = es1 @ Choose True rnd # es2 \<and> run (step e) s0 es1 s1 \<and>
    on_screen (dev s1) = Review b pairs title fin Transaction_Choice \<and> received (dev s1) = received (dev s)"
proof -
  have "phase_of (dev s) = Released (received (dev s))"
    by (rule session_approved(2) [OF session_run_inv [OF assms(1-3)] assms(4,5)])
  from released_was_reviewed [OF assms(1,3,2) this] show ?thesis by blast
qed

theorem release_needs_approval_witness:
  "\<exists>s es1 rnd es2. run (step sample_env) sample_start sample_events s \<and> sample_events = es1 @ Choose True rnd # es2"
proof -
  obtain s where s: "run (step sample_env) sample_start sample_events s" "req_type (ctx (dev s)) = CONFIRM_TRANSACTION"
    "g_state (ctx (dev s)) = STATE_APPROVED"
    using sample_session by blast
  from release_needs_approval [OF sample_env_ok sample_start_ok s] s(1) show ?thesis by blast
qed


text \<open>
  C3. The application follows its protocol: every session is a run of the phase machine, from Idle
  (commands are taken only while no review is open; bytes are only appended to the ones collected,
  put under review, or dropped; a choice releases, goes to the next page, fails or stops).
\<close>

theorem session_refines_protocol:
  assumes "env_ok e st shake" "session_start e s0" "run (step e) s0 es s"
  shows "run phase_step Idle es (phase_of (dev s))"
  by (rule session_run_phases [OF assms])

theorem session_refines_protocol_witness:
  "run phase_step Idle sample_events (Released contract_creation_vector)"
proof -
  obtain s where s: "run (step sample_env) sample_start sample_events s" "req_type (ctx (dev s)) = CONFIRM_TRANSACTION"
    "g_state (ctx (dev s)) = STATE_APPROVED" "received (dev s) = contract_creation_vector"
    using sample_session by blast
  have "phase_of (dev s) = Released contract_creation_vector"
    using session_approved(2) [OF session_run_inv [OF sample_env_ok sample_start_ok s(1)] s(2,3)] s(4) by simp
  then show ?thesis using session_refines_protocol [OF sample_env_ok sample_start_ok s(1)] by simp
qed

definition is_apdu :: "event \<Rightarrow> bool" where
  "is_apdu ev = (case ev of Apdu apdu \<Rightarrow> True | _ \<Rightarrow> False)"

lemma run_requests:
  "run (step e) s0 es s \<Longrightarrow> requests s = requests s0 + length (filter is_apdu es)"
proof (induction rule: run.induct)
  case (run_nil s)
  then show ?case by simp
next
  case (run_snoc s es s' ev s'')
  have "requests s'' = requests s' + (if is_apdu ev then 1 else 0)"
    using run_snoc.hyps(2) by cases (simp_all add: is_apdu_def)
  then show ?case using run_snoc.IH by simp
qed

text \<open>
  C12. Every command is answered once: the responses sent are as many as the commands received,
  except that one is outstanding exactly while a review page is open.
\<close>

theorem requests_answered:
  assumes "env_ok e st shake" "session_start e s0" "run (step e) s0 es s"
  shows "length (sent (dev s)) + (if is_review (on_screen (dev s)) then 1 else 0) = length (filter is_apdu es)"
proof -
  have "requests s0 = 0" using assms(2) by (auto simp: session_start_def)
  then show ?thesis
    using run_requests [OF assms(3)] session_run_inv [OF assms] by (simp add: session_inv_def due_def)
qed

theorem requests_answered_witness:
  "\<exists>s. run (step sample_env) sample_start (sample_commands contract_creation_vector) s \<and> length (sent (dev s)) = 1"
proof -
  obtain s ps t f where s: "run (step sample_env) sample_start (sample_commands contract_creation_vector) s"
    "on_screen (dev s) = Review False ps t f Transaction_Choice"
    using sample_review by blast
  have "length (sent (dev s)) + 1 = 2"
    using requests_answered [OF sample_env_ok sample_start_ok s(1)] s(2)
    by (simp add: is_review_def sample_commands_def is_apdu_def client_sign_tx_def
        split_message_short contract_creation_vector_def Let_def)
  then show ?thesis using s(1) by auto
qed

text \<open>
  C13. Data is reviewed only with blind signing on: while a transaction review or a selector or
  parameter page is open, the transaction has no data or the blind-signing setting is enabled; the
  settings cannot change while it is open, because the settings page is not on display.
\<close>

theorem blind_signing_enabled:
  assumes "env_ok e st shake" "session_start e s0" "run (step e) s0 es s"
    and "on_screen (dev s) = Review b pairs title fin cb"
  shows "(tx_data_len (tx_data_of (tx_info (ctx (dev s)))) \<noteq> 0 \<longrightarrow> enable_blind_signing (nvm (dev s)) \<noteq> 0) \<and>
    (\<forall>token index page s'. \<not> step e s (Toggle token index page) s')"
proof -
  have "blind_ok (nvm (dev s)) (dev s)"
    using session_run_inv [OF assms(1-3)] assms(4)
    by (cases cb) (simp_all add: session_inv_def device_inv_def screen_inv_def)
  moreover have "\<not> step e s (Toggle token index page) s'" for token index page s'
    using assms(4) by (auto elim: step.cases)
  ultimately show ?thesis by (simp add: blind_ok_def)
qed

theorem blind_signing_enabled_witness:
  "\<exists>s. run (step sample_env) sample_start (sample_commands contract_creation_vector) s \<and> (\<forall>s'. \<not> step sample_env s (Toggle 20 0 0) s')"
proof -
  obtain s ps t f where s: "run (step sample_env) sample_start (sample_commands contract_creation_vector) s"
    "on_screen (dev s) = Review False ps t f Transaction_Choice"
    using sample_review by blast
  from blind_signing_enabled [OF sample_env_ok sample_start_ok s] s(1) show ?thesis by blast
qed

text \<open>The bytes of a chunk that has been taken are the data field of its command.\<close>

lemma command_chunk:
  assumes "parser_ok e" "apdu_parser e apdu = Some cmd" "cmd_data cmd = Some c"
  shows "command_buffer cmd = chunk_buffer c" "length c \<le> 255"
proof -
  have l: "length c = unat (cmd_lc cmd)" using assms unfolding parser_ok_def by blast
  then show "length c \<le> 255" using unsigned_less [of "cmd_lc cmd", where 'a = nat] by simp
  show "command_buffer cmd = chunk_buffer c"
    using assms(3) by (simp add: command_buffer_def chunk_buffer_def l)
qed

lemma crashes_chunk:
  assumes b: "buffers_ok e" and wf: "wf_device e d" and c: "length c \<le> 255" and k: "crashes e (chunk_buffer c) d"
  shows "\<exists>its. req_type (ctx d) = CONFIRM_TRANSACTION \<and> g_state (ctx d) = STATE_NONE \<and>
    length (received d @ c) \<le> 2048 \<and> decode_spec (received d @ c) = Some its \<and>
    \<not> displayable (store_fields its (tx_data_of (tx_info (ctx d))))"
proof -
  obtain d1 its where r: "recv_chunk e (chunk_buffer c) d = Some (None, d1)" and its: "decode_spec (received d1) = Some its"
    "\<not> displayable (store_fields its (tx_data_of (tx_info (ctx d1))))"
    using k by (auto simp: crashes_def)
  have st: "req_type (ctx d) = CONFIRM_TRANSACTION" "g_state (ctx d) = STATE_NONE"
    using r by (auto simp: recv_chunk_def split: if_splits)
  have n: "unat (raw_tx_len (tx_info (ctx d))) + length c \<le> 2048" "d1 = appended c d"
    using recv_chunk_copies [OF b wf c st] r by (simp_all split: if_splits)
  moreover have "length (received d) = unat (raw_tx_len (tx_info (ctx d)))"
    using wf_device_tx [OF wf] by (simp add: received_def)
  moreover have "tx_data_of (tx_info (ctx (appended c d))) = tx_data_of (tx_info (ctx d))"
    by (simp add: appended_def Let_def set_tx_info_def)
  ultimately show ?thesis using st its appended_facts(1) [OF wf n(1)] by auto
qed

text \<open>
  C10. Memory safety of a session: the only command that makes the application access memory out of
  bounds is the last chunk (P1 = 2, P2 = 0) of a request that is being collected, where the bytes received so far followed by the data field of this very command are at most 2048
  bytes and decode to a transaction with a nonce of ten digits or more, or a value or fee cap of
  more than forty digits; and a choice does so only when such a transaction is behind the selector
  and parameter pages. Every other command and choice returns, whatever the length of its data.
  (The parser of the SDK gives a command its data field with the length of its length byte.)
\<close>

theorem session_in_bounds:
  assumes "env_ok e st shake" "parser_ok e" "session_start e s0" "run (step e) s0 es s" "d = dev s"
  shows "(\<not> is_review (on_screen d) \<and> app_main_round e apdu d = None \<longrightarrow>
      (\<exists>cmd c its. apdu_parser e apdu = Some cmd \<and> cmd_cla cmd = APDU_CLA \<and> cmd_ins cmd = SIGN_TX \<and>
        cmd_p1 cmd = 2 \<and> cmd_p2 cmd = 0 \<and> cmd_data cmd = Some c \<and>
        req_type (ctx d) = CONFIRM_TRANSACTION \<and> g_state (ctx d) = STATE_NONE \<and>
        length (received d @ c) \<le> 2048 \<and> decode_spec (received d @ c) = Some its \<and>
        \<not> displayable (store_fields its (tx_data_of (tx_info (ctx d)))))) \<and>
    (is_review (on_screen d) \<and> run_choice e rnd ok d = None \<longrightarrow>
      \<not> displayable (tx_data_of (tx_info (ctx d))) \<and>
      (\<exists>b pairs title fin. on_screen d = Review b pairs title fin Parameter_Choice))"
proof (intro conjI impI)
  have d: "device_inv e shake (confirmed s) d" using session_run_inv [OF assms(1,3,4)] assms(5) by (simp add: session_inv_def)
  have l: "env_lengths e" "buffers_ok e" using assms(1) by (simp_all add: env_ok_def)
  {
    assume r: "\<not> is_review (on_screen d) \<and> app_main_round e apdu d = None"
    then obtain cmd where cmd: "apdu_parser e apdu = Some cmd" "cmd_cla cmd = APDU_CLA" "cmd_ins cmd = SIGN_TX"
      "cmd_p1 cmd = 2" "cmd_p2 cmd = 0" "cmd_data cmd \<noteq> None" "crashes e (command_buffer cmd) d"
      using round_inv [OF assms(1) d, of apdu] by auto
    then obtain c where c: "cmd_data cmd = Some c" by blast
    note b = command_chunk [OF assms(2) cmd(1) c]
    have "wf_device e d" using d by (simp add: device_inv_def)
    from crashes_chunk [OF l(2) this b(2) cmd(7) [unfolded b(1)]]
    show "\<exists>cmd c its. apdu_parser e apdu = Some cmd \<and> cmd_cla cmd = APDU_CLA \<and> cmd_ins cmd = SIGN_TX \<and>
        cmd_p1 cmd = 2 \<and> cmd_p2 cmd = 0 \<and> cmd_data cmd = Some c \<and>
        req_type (ctx d) = CONFIRM_TRANSACTION \<and> g_state (ctx d) = STATE_NONE \<and>
        length (received d @ c) \<le> 2048 \<and> decode_spec (received d @ c) = Some its \<and>
        \<not> displayable (store_fields its (tx_data_of (tx_info (ctx d))))" using cmd(1-5) c by blast
  }
  assume r: "is_review (on_screen d) \<and> run_choice e rnd ok d = None"
  then have "undisplayable d" using choice_inv [OF assms(1) d, of rnd ok] by auto
  then show "\<not> displayable (tx_data_of (tx_info (ctx d)))" by (simp add: undisplayable_def)
  show "\<exists>b pairs title fin. on_screen d = Review b pairs title fin Parameter_Choice"
    using r choice_crash_page [OF l(1) d] by blast
qed

theorem session_in_bounds_witness:
  "app_main_round sample_env [0xE0, 0x03, 0, 0] (dev sample_start) \<noteq> None"
proof -
  have q: "\<not> is_review (on_screen (dev sample_start))"
    by (simp add: sample_start_def session_of_def app_main_start_def bzero_ctx_def ui_menu_main_def show_screen_def is_review_def)
  have "apdu_parser sample_env [0xE0, 0x03, 0, 0] =
      Some \<lparr>cmd_cla = 0xE0, cmd_ins = 3, cmd_p1 = 0, cmd_p2 = 0, cmd_lc = 0, cmd_data = None\<rparr>"
    by (simp add: sample_env_def)
  then have "\<not> (\<exists>cmd. apdu_parser sample_env [0xE0, 0x03, 0, 0] = Some cmd \<and> cmd_ins cmd = SIGN_TX)"
    by (simp add: SIGN_TX_def)
  then show ?thesis
    using session_in_bounds [OF sample_env_ok sample_parser sample_start_ok run.run_nil refl, of "[0xE0, 0x03, 0, 0]" "[]" True] q
    by metis
qed

end
