(* ===== verification/Settings.thy ===== *)
theory Settings
  imports Session_Correct
begin

text \<open>
  The four settings of \<open>N_storage\<close> over a session: no command of the host and no answer to a review
  changes them, and the switches of the settings page do exactly what they show.
\<close>


section \<open>Every operation keeps the settings\<close>

lemma settings_nv [simp]:
  "settings_of (n\<lparr>nv_sig := x\<rparr>) = settings_of n" "settings_of (n\<lparr>nv_pk := y\<rparr>) = settings_of n"
  "settings_of (n\<lparr>is_sending_signature := z\<rparr>) = settings_of n"
  by (simp_all add: settings_of_def)

definition kept :: "device \<Rightarrow> device \<Rightarrow> bool" where
  "kept d' d \<longleftrightarrow> settings_of (nvm d') = settings_of (nvm d) \<and> switches d' = switches d"

lemma address_settings:
  "address_from_bip32_path e p n a s = (err, a', s') \<Longrightarrow> settings_of s' = settings_of s"
  using address_keeps_settings by fastforce

lemma display_settings:
  assumes "ui_display_transaction_bs_choice e bl d = Some (r, d')"
  shows "kept d' d"
proof -
  obtain err a n where k: "address_from_bip32_path e (bip32_path (ctx d))
      (ucast (bip32_path_len (ctx d))) (g_address (ctx d)) (nvm d) = (err, a, n)" by (metis prod_cases3)
  show ?thesis using assms address_settings [OF k]
    by (auto simp: kept_def ui_display_transaction_bs_choice_def k dev_simps Let_def split: if_splits bind_splits)
qed

lemma build_settings: "buildScreen e c d = Some d' \<Longrightarrow> nvm d' = nvm d \<and> switches d' = switches d"
  by (auto simp: kept_def buildScreen_def show_screen_def Let_def split: bind_splits)

lemma crypto_settings: "crypto_sign_message e rnd d = (r, d') \<Longrightarrow> kept d' d"
  by (auto simp: kept_def crypto_sign_message_def Let_def split: prod.splits if_splits)

lemma sig_settings: "helper_send_response_sig e i d = Some (r, d') \<Longrightarrow> kept d' d"
  by (auto simp: kept_def helper_send_response_sig_def dev_simps Let_def split: if_splits bind_splits)

lemma recv_settings: "recv_chunk e cdata d = Some (r, d') \<Longrightarrow> nvm d' = nvm d \<and> switches d' = switches d"
  by (auto simp: kept_def recv_chunk_def set_tx_info_def Let_def split: if_splits bind_splits prod.splits)

lemma first_settings: "sign_tx_first e cdata d = Some (r, d') \<Longrightarrow> kept d' d"
  by (auto simp: kept_def sign_tx_first_def dev_simps Let_def split: if_splits bind_splits prod.splits)

lemma route_settings:
  assumes "route_review e d = Some (r, d')"
  shows "kept d' d"
  using assms
  by (auto simp: kept_def route_review_def ui_confirm_selector_def ui_contract_call_init_def set_tx_info_def dev_simps Let_def
     ui_display_transaction_def ui_display_blind_signed_transaction_def ui_error_blind_signing_def
     dest!: display_settings build_settings split: if_splits bind_splits)

lemma more_settings: "sign_tx_more e cdata d = Some (r, d') \<Longrightarrow> kept d' d"
  by (auto simp: kept_def sign_tx_more_def dev_simps dest!: recv_settings split: bind_splits option.splits)

lemma last_settings: "sign_tx_last e cdata d = Some (r, d') \<Longrightarrow> kept d' d"
  by (auto simp: kept_def sign_tx_last_def set_tx_info_def dev_simps Let_def dest!: recv_settings route_settings
      split: if_splits bind_splits prod.splits option.splits)

lemma signature_settings: "sign_tx_signature e i d = Some (r, d') \<Longrightarrow> kept d' d"
  by (auto simp: kept_def sign_tx_signature_def dev_simps dest!: sig_settings split: if_splits)

lemma sign_tx_settings: "handler_sign_tx e cdata p1 p2 d = Some (r, d') \<Longrightarrow> kept d' d"
  by (auto simp: kept_def handler_sign_tx_def dev_simps split: if_splits
      dest: first_settings more_settings last_settings signature_settings)

lemma pk_settings: "handler_get_public_key e cdata ds d = Some (r, d') \<Longrightarrow> kept d' d"
  by (auto simp: kept_def handler_get_public_key_def ui_display_address_def helper_send_response_address_def dev_simps Let_def
      dest!: address_settings split: prod.splits if_splits bind_splits)

lemma round_settings: "app_main_round e apdu d = Some d' \<Longrightarrow> kept d' d"
  by (auto simp: kept_def app_main_round_def apdu_dispatcher_def handler_get_public_key_chunk_def helper_send_response_pk_chunk_def
       handler_get_version_def handler_get_app_name_def dev_simps Let_def
     dest!: sign_tx_settings pk_settings split: if_splits bind_splits option.splits)

lemma choice_settings: "run_choice e rnd ok d = Some d' \<Longrightarrow> settings_of (nvm d') = settings_of (nvm d) \<and>
     (switches d' = switches d \<or> switches d' = init_switches e (nvm d))"
  by (auto simp: kept_def run_choice_def review_choice_def validate_transaction_def param_review_choice_def address_review_choice_def
      ui_error_blind_signing_choice_def ui_settings_def ui_menu_main_def validate_pubkey_def helper_send_response_address_def
      ui_display_blind_signed_transaction_def dev_simps Let_def
     dest!: crypto_settings sig_settings build_settings display_settings split: screen.splits review_callback.splits if_splits bind_splits prod.splits option.splits)


section \<open>The settings of a session\<close>

text \<open>What an event does to the settings: a switch negates its own, anything else none.\<close>

definition toggled :: "env \<Rightarrow> event \<Rightarrow> byte list \<Rightarrow> byte list" where
  "toggled e ev xs = (case ev of
       Toggle token index page \<Rightarrow>
         map (\<lambda>i. if token = switch_token e i then c_not (xs ! i) else xs ! i) [0..<length xs]
     | _ \<Rightarrow> xs)"

lemma callback_settings:
  "settings_of (nvm (controls_callback e tk i p d)) = toggled e (Toggle tk i p) (settings_of (nvm d))"
proof -
  have "[0..<4] = [0, 1, 2, 3 :: nat]" by code_simp
  then show ?thesis
    by (auto simp: controls_callback_def settings_of_def toggled_def switch_ids switch_token_def Let_def)
qed

lemma shown_update:
  "shown_settings (d\<lparr>ctx := c\<rparr>) = shown_settings d" "shown_settings (d\<lparr>exited := x\<rparr>) = shown_settings d"
  "shown_settings (d\<lparr>sent := r\<rparr>) = shown_settings d"
  by (simp_all add: shown_settings_def)

lemma kept_step: "kept d' d \<Longrightarrow> shown_settings d = settings_of (nvm d) \<Longrightarrow> shown_settings d' = settings_of (nvm d')"
  by (simp add: kept_def shown_settings_def)

lemma init_shown: "map sw_init (init_switches e n) = settings_of n"
  by (simp add: init_switches_def settings_of_def)

lemma callback_shown:
  "shown_settings d = settings_of (nvm d) \<Longrightarrow>
   shown_settings (controls_callback e tk i p d) = settings_of (nvm (controls_callback e tk i p d))"
  using controls_callback_toggles [of d e tk i p] by blast

lemma step_settings:
  assumes "step e s ev s'"
  shows "settings_of (nvm (dev s')) = toggled e ev (settings_of (nvm (dev s)))"
    "shown_settings (dev s) = settings_of (nvm (dev s)) \<Longrightarrow> shown_settings (dev s') = settings_of (nvm (dev s'))"
proof -
  have "settings_of (nvm (dev s')) = toggled e ev (settings_of (nvm (dev s))) \<and>
    (shown_settings (dev s) = settings_of (nvm (dev s)) \<longrightarrow> shown_settings (dev s') = settings_of (nvm (dev s')))"
    using assms
  proof cases
    case (step_apdu apdu d')
    then show ?thesis using round_settings [OF step_apdu(5)] kept_step [OF round_settings [OF step_apdu(5)]]
      by (simp add: toggled_def kept_def)
  next
    case (step_choose rnd ok d')
    then show ?thesis using choice_settings [OF step_choose(4)] init_shown by (auto simp: toggled_def shown_settings_def)
  next
    case (step_toggle nm p info tk ix pg)
    then show ?thesis by (simp add: callback_settings callback_shown)
  qed (simp_all add: toggled_def shown_settings_menu shown_update app_quit_def app_main_recv_failure_def)
  then show "settings_of (nvm (dev s')) = toggled e ev (settings_of (nvm (dev s)))"
    "shown_settings (dev s) = settings_of (nvm (dev s)) \<Longrightarrow> shown_settings (dev s') = settings_of (nvm (dev s'))" by blast+
qed

text \<open>The settings as an abstract machine the application follows, with the switches in step as its invariant.\<close>

definition in_step :: "env \<Rightarrow> session \<Rightarrow> bool" where
  "in_step e s \<longleftrightarrow> shown_settings (dev s) = settings_of (nvm (dev s))"

lemma start_in_step: "session_start e s \<Longrightarrow> in_step e s"
  by (auto simp: session_start_def in_step_def app_main_start_def bzero_ctx_def shown_settings_menu shown_update)

interpretation toggles: simulated_system "\<lambda>e. True" session_start step in_step
    "\<lambda>s. settings_of (nvm (dev s))" "\<lambda>e xs ev xs'. xs' = toggled e ev xs"
  by unfold_locales (auto simp: start_in_step [unfolded in_step_def] in_step_def step_settings)

text \<open>
  C14. The settings are in the hands of the user: over any session, whatever the host
  sends and whatever the user answers to the reviews, the four stored settings (blind signing,
  nonce, transaction hash, contract debugging) are the initial ones with the switches of the
  settings page applied in order, each negating its own setting, and the switches show what is
  stored. In particular no command turns blind signing on.
\<close>

theorem settings_only_by_user:
  assumes "session_start e s" "run (step e) s es s'"
  shows "settings_of (nvm (dev s')) = fold (toggled e) es (settings_of (nvm (dev s))) \<and>
    shown_settings (dev s') = settings_of (nvm (dev s'))"
  using run_fold [OF toggles.run_simulated [OF assms(2) TrueI assms(1)]] toggles.run_inv [OF assms(2) TrueI assms(1)]
  by (simp add: in_step_def)

theorem settings_only_by_user_witness:
  "\<exists>s. run (step sample_env) sample_start [Toggle 20 0 0] s \<and> settings_of (nvm (dev s)) = [1, 0, 0, 0]"
proof -
  have d: "\<not> exited (dev sample_start)" "on_screen (dev sample_start) = Home_And_Settings APPNAME INIT_HOME_PAGE (infoList sample_env)"
    "settings_of (nvm (dev sample_start)) = [0, 0, 0, 0]"
    by (simp_all add: sample_start_def session_of_def app_main_start_def bzero_ctx_def ui_menu_main_def show_screen_def
        start_device_def zero_nvm_def settings_of_def)
  from run_single [where stp = "step sample_env", OF step_toggle [OF d(1,2), of sample_env 20 0 0]]
  obtain s where r: "run (step sample_env) sample_start [Toggle 20 0 0] s" by blast
  have "toggled sample_env (Toggle 20 0 0) [0, 0, 0, 0] = [1, 0, 0, 0]"
    by (simp add: toggled_def switch_token_def sample_env_def c_not_def upt_rec)
  then show ?thesis using settings_only_by_user [OF sample_start_ok r] r d(3) by auto
qed

end
