(* ===== verification/Recovery.thy ===== *)
theory Recovery
  imports Settings
begin

text \<open>
  No unfinished request blocks the application: from every state of a session that has not ended,
  refusing the open review, if there is one, leads to a state that waits for a command, and from
  there a displayable transaction can be signed (one with data when blind signing is on).
\<close>


section \<open>Refusing what is on display\<close>

lemma refusal:
  assumes "is_review (on_screen d)"
  shows "\<exists>d'. run_choice e rnd False d = Some d' \<and> \<not> is_review (on_screen d') \<and> nvm d' = nvm d \<and>
    sent d' = sent d @ [([], SW_DENY)] \<and> exited d' = exited d"
proof -
  consider b ps t f where "on_screen d = Review b ps t f Transaction_Choice"
    | b ps t f where "on_screen d = Review b ps t f Parameter_Choice" | a where "on_screen d = Address_Review a"
    using assms by (cases "on_screen d") (auto simp: is_review_def intro: review_callback.exhaust)
  then show ?thesis
    by cases (simp_all add: run_choice_def review_choice_def validate_transaction_def param_review_choice_def
        address_review_choice_def validate_pubkey_def is_review_def dev_simps)
qed

text \<open>The answer that ends an open review.\<close>

definition refuse_open :: "bytes \<Rightarrow> device \<Rightarrow> event list" where
  "refuse_open rnd d = (if is_review (on_screen d) then [Choose False rnd] else [])"

definition refused_answer :: "device \<Rightarrow> (bytes \<times> u16) list" where
  "refused_answer d = (if is_review (on_screen d) then [([], SW_DENY)] else [])"

lemma becomes_idle:
  assumes ok: "env_ok e st shake" and i: "session_inv e shake s" and x: "\<not> exited (dev s)"
  shows "\<exists>t. run (step e) s (refuse_open rnd (dev s)) t \<and> idle t \<and> wf_device e (dev t) \<and>
    sent (dev t) = sent (dev s) @ refused_answer (dev s) \<and> nvm (dev t) = nvm (dev s)"
proof (cases "is_review (on_screen (dev s))")
  case False
  then have "idle s" "wf_device e (dev s)" using i x by (simp_all add: session_inv_def device_inv_def due_def idle_def)
  then show ?thesis using False run.run_nil [of "step e" s] by (auto simp: refuse_open_def refused_answer_def)
next
  case True
  obtain d' where d': "run_choice e rnd False (dev s) = Some d'" "\<not> is_review (on_screen d')" "nvm d' = nvm (dev s)"
    "sent d' = sent (dev s) @ [([], SW_DENY)]" "exited d' = exited (dev s)"
    using refusal [OF True] by blast
  let ?t = "s\<lparr>dev := d', confirmed := note_choice False (on_screen (dev s)) (confirmed s)\<rparr>"
  have st: "step e s (Choose False rnd) ?t" by (rule step_choose [OF x d'(1)])
  have "session_inv e shake ?t" by (rule session_step_inv [OF ok i st])
  then have "idle ?t" "wf_device e (dev ?t)"
    using d'(2,5) x by (simp_all add: session_inv_def device_inv_def due_def idle_def)
  then show ?thesis using True d'(3,4) run_single [where stp = "step e", OF st]
    by (intro exI [of _ ?t]) (simp add: refuse_open_def refused_answer_def)
qed


section \<open>Signing after any history\<close>

text \<open>
  C6. No unfinished request blocks signing: take any state of a session that has not ended, after
  whatever commands and choices, and a message (nonempty, at most 2048 bytes) that decodes to a
  displayable transaction, an accepted path with a derivable seed, and, if the transaction carries
  data, blind signing on in that state. Then the refusal of the review on display, if there is one
  (answered with the denial status), followed by the commands of the client with their confirmations
  is a run that ends with a signature of the message that verifies under the key of the path.
  Neither a half-sent transaction, an interrupted signature transfer nor a failed request gets in
  its way; only the blind-signing setting, which the user may have switched off, decides about
  transactions with data. (The services of the SDK behave as documented.)
\<close>

theorem signs_after_any_history:
  assumes ok: "env_ok e st shake" "keccak_ok e keccak" "mldsa_ok e pub sec" "apdu_link e exchange" "io_ok e"
    and s: "session_start e s0" "run (step e) s0 es s" "\<not> exited (dev s)"
    and path: "path_cmd \<noteq> []" "length path_cmd \<le> 255" "buffer_read_u8 e (chunk_buffer path_cmd) 0 = (True, len, c1)"
      "buffer_read_bip32_path e c1 (replicate (max_bip32_path e) 0) (ucast len) = (True, path, c2)"
      "zond_path (take (unat len) path)"
      "os_derive_bip32_no_throw e path (ucast len) (replicate 64 0) = (CX_OK, seed)"
    and v: "v \<noteq> []" "length v \<le> 2048" "decode_spec v = Some its" "tx = store_fields its zero_tx" "displayable tx"
      "tx_data_len tx = 0 \<or> enable_blind_signing (nvm (dev s)) \<noteq> 0"
  shows "\<exists>t sig. run (step e) s0 (es @ refuse_open rnd (dev s) @ map Apdu (client_sign_tx exchange path_cmd v) @
      replicate (call_page_count (nvm (dev s)) tx) (Choose True rnd) @ [Choose True rnd] @
      map Apdu (get_signature_chunks exchange)) t \<and>
    sent (dev t) = sent (dev s) @ refused_answer (dev s) @
      replicate (length (split_message v 255)) ([], SW_OK) @ map (\<lambda>c. (c, SW_OK)) sig \<and>
    length sig = 18 \<and> length (concat sig) = MLDSA87_SIGBYTES \<and>
    mldsa_verify e (concat sig) (keccak v) QRL_CTX (pub seed) = CX_OK"
proof -
  obtain u where u: "run (step e) s (refuse_open rnd (dev s)) u" "idle u" "wf_device e (dev u)"
    "sent (dev u) = sent (dev s) @ refused_answer (dev s)" "nvm (dev u) = nvm (dev s)"
    using becomes_idle [OF ok(1) session_run_inv [OF ok(1) s(1,2)] s(3)] by blast
  from client_signature [OF ok u(2,3) path v(1-5), unfolded u(5), OF v(6), of rnd] obtain t sig where
    t: "run (step e) u (map Apdu (client_sign_tx exchange path_cmd v) @
      replicate (call_page_count (nvm (dev s)) tx) (Choose True rnd) @ [Choose True rnd] @ map Apdu (get_signature_chunks exchange)) t"
    "sent (dev t) = sent (dev u) @ replicate (length (split_message v 255)) ([], SW_OK) @ map (\<lambda>c. (c, SW_OK)) sig"
    "length sig = 18" "length (concat sig) = MLDSA87_SIGBYTES" "mldsa_verify e (concat sig) (keccak v) QRL_CTX (pub seed) = CX_OK"
    by blast
  show ?thesis using run_append [OF run_append [OF t(1) u(1)] s(2)] t(2-5)
    by (intro exI [of _ t] exI [of _ sig]) (simp add: u(4))
qed

text \<open>A second transaction after an open review of a first one.\<close>

theorem signs_after_any_history_witness:
  "\<exists>es s t sig. run (step sample_env) (session_of call_device) es s \<and> is_review (on_screen (dev s)) \<and>
    run (step sample_env) (session_of call_device) (es @ [Choose False []] @
      map Apdu (client_sign_tx sample_exchange (path_data 0xEE) call_vector) @ replicate 2 (Choose True []) @
      [Choose True []] @ map Apdu (get_signature_chunks sample_exchange)) t \<and> length (sig :: bytes list) = 18"
proof -
  note c = call_device_facts
  have v: "call_vector \<noteq> []" "length call_vector \<le> 2048" using call_lengths by auto
  obtain es s where s: "run (step sample_env) (session_of call_device) es s" "\<not> exited (dev s)"
    "\<exists>ps t f. on_screen (dev s) = Review (blind_form (nvm call_device) call_tx) ps t f Transaction_Choice"
    "nvm (dev s) = (nvm call_device)\<lparr>nv_sig := replicate MLDSA87_SIGBYTES 0, nv_pk := replicate MLDSA87_PUBLICKEYBYTES 3\<rparr>"
    using sample_commands_run [OF c(1-3) v decode_spec_call call_tx_def call_tx_facts(1)] c(4) by auto
  have r: "is_review (on_screen (dev s))" using s(3) by (auto simp: is_review_def)
  have n: "call_page_count (nvm (dev s)) call_tx = 2" "tx_data_len call_tx = 0 \<or> enable_blind_signing (nvm (dev s)) \<noteq> 0"
    using call_pages_opened(1) c(4) by (simp_all add: s(4) call_page_count_def)
  obtain c2 where r2: "buffer_read_bip32_path sample_env ((chunk_buffer (path_data 0xEE))\<lparr>buf_offset := 1\<rparr>)
     (replicate (max_bip32_path sample_env) 0) (ucast (5 :: byte)) = (True, sample_path, c2)"
    using sample_path_read(2) by blast
  from signs_after_any_history [OF sample_env_ok sample_keccak_ok sample_mldsa_ok sample_link sample_io
      session_of_ok [OF c(1-3)] s(1,2) sample_path_cmd sample_path_read(1) r2 sample_path_read(3,4) v
      decode_spec_call call_tx_def call_tx_facts(1) n(2), of "[]"]
  show ?thesis using s(1) r unfolding n(1) refuse_open_def if_P [OF r] by blast
qed

end
