(* ===== verification/Call_Session.thy ===== *)
theory Call_Session
  imports Session_Correct
begin

text \<open>
  Contract calls in every session: the history of the pages confirmed since the last command, the
  invariant that ties it to the page on display, and what has been confirmed when a call is signed.
\<close>


section \<open>Sessions with their confirmed pages\<close>

text \<open>
  The history of a session: the selector and parameter pages confirmed since the last command. The
  steps of the application do not read it.
\<close>

definition log_after :: "event \<Rightarrow> screen \<Rightarrow> screen list \<Rightarrow> screen list" where
  "log_after ev s log = (case ev of
       Apdu apdu \<Rightarrow> []
     | Choose ok rnd \<Rightarrow> if ok \<and> is_call_page s then log @ [s] else log
     | _ \<Rightarrow> log)"

inductive logged_step :: "env \<Rightarrow> session \<times> screen list \<Rightarrow> event \<Rightarrow> session \<times> screen list \<Rightarrow> bool" for e :: env where
  logged: "step e s ev s' \<Longrightarrow> logged_step e (s, log) ev (s', log_after ev (on_screen (dev s)) log)"

definition logged_start :: "env \<Rightarrow> session \<times> screen list \<Rightarrow> bool" where
  "logged_start e p \<longleftrightarrow> session_start e (fst p) \<and> snd p = []"

definition logged_inv :: "sdk \<Rightarrow> session \<times> screen list \<Rightarrow> bool" where
  "logged_inv k p \<longleftrightarrow> sdk_inv k (fst p) \<and> pages_inv (dev (fst p)) (snd p)"

lemma session_start_pages: "session_start e s \<Longrightarrow> pages_inv (dev s) log"
  by (rule pages_inv_quiet)
    (auto simp: session_start_def app_main_start_def ui_menu_main_def show_screen_def bzero_ctx_def is_review_def)

lemma logged_step_pages:
  assumes ok: "env_ok e st shake" and i: "session_inv e shake s" and p: "pages_inv (dev s) log" and stp: "step e s ev s'"
  shows "pages_inv (dev s') (log_after ev (on_screen (dev s)) log)"
  using stp
proof cases
  case (step_apdu apdu d')
  have d: "wf_device e (dev s)" "\<not> is_review (on_screen (dev s))"
    using i step_apdu(4) by (auto simp: session_inv_def device_inv_def due_def split: if_splits)
  show ?thesis using round_pages [OF ok d step_apdu(5)] step_apdu by (simp add: log_after_def)
next
  case (step_choose rnd cf d')
  have "wf_device e (dev s)" using i by (simp add: session_inv_def device_inv_def)
  from choice_pages [OF ok this p step_choose(4)] show ?thesis using step_choose by (simp add: log_after_def)
next
  case step_recv_failure
  then show ?thesis using p by (simp add: app_main_recv_failure_def pages_inv_exited log_after_def)
qed (auto intro!: pages_inv_quiet simp: ui_menu_main_def show_screen_def is_review_def controls_callback_keeps app_quit_def)

interpretation logged: invariant_system sdk_ok "\<lambda>k. logged_start (fst k)" "\<lambda>k. logged_step (fst k)" logged_inv
  by unfold_locales
    (auto simp: logged_start_def logged_inv_def sdk_ok_def sdk_inv_def session_start_inv session_start_pages
      elim!: logged_step.cases intro: session_step_inv logged_step_pages)

text \<open>Every session has such a history.\<close>

lemma run_logged:
  "run (step e) s0 es s \<Longrightarrow> \<exists>log. run (logged_step e) (s0, []) es (s, log)"
proof (induction rule: run.induct)
  case (run_nil s)
  show ?case by (rule exI [of _ "[]"]) (rule run.run_nil)
next
  case (run_snoc s es s' ev s'')
  then obtain log where "run (logged_step e) (s, []) es (s', log)" by blast
  from run.run_snoc [where stp = "logged_step e", OF this logged_step.logged [OF run_snoc.hyps(2)]]
  show ?case by blast
qed

lemma logged_run_inv:
  assumes "env_ok e st shake" "session_start e s0" "run (logged_step e) (s0, []) es (s, log)"
  shows "session_inv e shake s" "pages_inv (dev s) log"
  using logged.run_inv [of "(e, st, shake)" "(s0, [])" es "(s, log)"] assms
  by (simp_all add: sdk_ok_def logged_start_def logged_inv_def sdk_inv_def)

text \<open>The step that approves a transaction is a confirmation on its page.\<close>

lemma approving_step:
  assumes ok: "env_ok e st shake" and i: "session_inv e shake s" and stp: "step e s ev s'"
    and a: "g_state (ctx (dev s)) \<noteq> STATE_APPROVED" "req_type (ctx (dev s')) = CONFIRM_TRANSACTION"
      "g_state (ctx (dev s')) = STATE_APPROVED"
  shows "\<exists>rnd b ps t f. ev = Choose True rnd \<and> on_screen (dev s) = Review b ps t f Transaction_Choice \<and>
    received (dev s') = received (dev s)"
proof -
  have rel: "phase_of (dev s') = Released (received (dev s'))"
    by (rule session_approved(2) [OF session_step_inv [OF ok i stp] a(2,3)])
  have "Released bs \<noteq> phase_of (dev s)" for bs
    using a(1) by (auto simp: phase_of_def split: screen.splits if_splits state_e.splits)
  then obtain rnd where "ev = Choose True rnd" "phase_of (dev s) = Reviewing (received (dev s'))"
    using session_step_sim [OF ok i stp] unfolding rel by (auto simp: phase_released apdu_released choice_released)
  then show ?thesis using releasing_page [OF i _ _ rel] stp by metis
qed

text \<open>
  C8. A contract call is signed only after its pages: the step of a session that approves a
  transaction is a confirmation by the user on the page of the transaction, for the bytes received;
  and with blind signing and contract debugging on and a recipient, if the data is a selector and
  whole slots then this page was the blind-signing form and the pages confirmed since the last
  command were exactly the page of the selector and the pages of the first sixteen parameters, in
  order.
\<close>

theorem contract_call_reviewed:
  assumes "env_ok e st shake" "session_start e s0" "run (logged_step e) (s0, []) es (s, pages)" "step e s ev s'"
    and "g_state (ctx (dev s)) \<noteq> STATE_APPROVED"
    and "req_type (ctx (dev s')) = CONFIRM_TRANSACTION" "g_state (ctx (dev s')) = STATE_APPROVED"
  shows "\<exists>rnd b pairs title fin. ev = Choose True rnd \<and> received (dev s') = received (dev s) \<and>
    on_screen (dev s) = Review b pairs title fin Transaction_Choice \<and>
    (\<forall>sel slots. enable_blind_signing (nvm (dev s)) \<noteq> 0 \<and> enable_debug_smart_contract (nvm (dev s)) \<noteq> 0 \<and>
       tx_to_len (tx_data_of (tx_info (ctx (dev s)))) \<noteq> 0 \<and> is_encoding (calldata_bytes (dev s)) sel slots \<longrightarrow>
       b \<and> pages = selector_page sel # map param_page (take 16 slots))"
proof -
  note l = logged_run_inv [OF assms(1-3)]
  obtain rnd b ps t f where r: "ev = Choose True rnd" "on_screen (dev s) = Review b ps t f Transaction_Choice"
    "received (dev s') = received (dev s)"
    using approving_step [OF assms(1) l(1) assms(4-7)] by blast
  have "\<forall>sel slots. call_reviewed (dev s) \<and> is_encoding (calldata_bytes (dev s)) sel slots \<longrightarrow>
      b \<and> pages = call_pages sel slots"
    using l(2) r(2) by (auto simp: pages_inv_def)
  then show ?thesis using r unfolding call_reviewed_def call_pages_def by blast
qed

text \<open>A session that signs a call.\<close>

lemma sample_call_encoding: "is_encoding call_data (take 4 call_data) [drop 4 call_data]"
  by (simp add: is_encoding_def abi_encode_def size_consts call_lengths)

theorem contract_call_reviewed_witness:
  "\<exists>es s pages s'. run (logged_step sample_env) (session_of call_device, []) es (s, pages) \<and>
     step sample_env s (Choose True []) s' \<and> received (dev s') = call_vector \<and>
     pages = [selector_page (take 4 call_data), param_page (drop 4 call_data)]"
proof -
  note c = call_device_facts
  have v: "call_vector \<noteq> []" "length call_vector \<le> 2048" using call_lengths by auto
  obtain s where s: "run (step sample_env) (session_of call_device)
      (sample_commands call_vector @ replicate (call_page_count (nvm call_device) call_tx) (Choose True [])) s"
    "wf_device sample_env (dev s)" "\<not> exited (dev s)"
    "\<exists>ps t f. on_screen (dev s) = Review (blind_form (nvm call_device) call_tx) ps t f Transaction_Choice"
    "req_type (ctx (dev s)) = CONFIRM_TRANSACTION" "received (dev s) = call_vector"
    "bip32_path (ctx (dev s)) = sample_path" "bip32_path_len (ctx (dev s)) = 5"
    "nvm (dev s) = (nvm call_device)\<lparr>nv_sig := replicate MLDSA87_SIGBYTES 0, nv_pk := replicate MLDSA87_PUBLICKEYBYTES 3\<rparr>"
    "tx_data_of (tx_info (ctx (dev s))) = call_tx"
    using sample_commands_run [OF c(1-3) v decode_spec_call call_tx_def call_tx_facts(1)] c(4) by auto
  obtain pages where l: "run (logged_step sample_env) (session_of call_device, [])
      (sample_commands call_vector @ replicate (call_page_count (nvm call_device) call_tx) (Choose True [])) (s, pages)"
    using run_logged [OF s(1)] by blast
  obtain s' where s': "step sample_env s (Choose True []) s'" "req_type (ctx (dev s')) = req_type (ctx (dev s))"
    "g_state (ctx (dev s')) = STATE_APPROVED" "received (dev s') = received (dev s)"
    using sample_approval [OF s(3,2) _ s(7,8)] s(4,9) by fastforce
  note ok = session_of_ok [OF c(1-3)]
  have "g_state (ctx (dev s)) = STATE_PARSED"
    using logged_run_inv(1) [OF sample_env_ok ok l] s(4)
    by (auto simp: session_inv_def device_inv_def screen_inv_def pending_tx_def)
  moreover have "calldata_bytes (dev s) = call_data" "tx_to_len (tx_data_of (tx_info (ctx (dev s)))) \<noteq> 0"
    using call_tx_facts by (simp_all add: calldata_bytes_def s(10))
  moreover have "enable_blind_signing (nvm (dev s)) \<noteq> 0" "enable_debug_smart_contract (nvm (dev s)) \<noteq> 0"
    using c(4,5) by (simp_all add: s(9))
  ultimately have "pages = selector_page (take 4 call_data) # map param_page (take 16 [drop 4 call_data])"
    using contract_call_reviewed [OF sample_env_ok ok l s'(1)] s'(2,3) s(5) sample_call_encoding by auto
  then show ?thesis using l s'(1,4) s(6) by auto
qed

end
