(* ===== verification/Client_Key.thy ===== *)
theory Client_Key
  imports Client
begin

text \<open>
  The client and the public key: the commands of \<open>get_public_key\<close>, with and without confirmation,
  and of \<open>get_public_key_chunks\<close>, as runs of the session.
\<close>


section \<open>The commands\<close>

definition P1_START :: byte where "P1_START = 0x00"
definition P1_CONFIRM :: byte where "P1_CONFIRM = 0x01"
definition P2_LAST :: byte where "P2_LAST = 0x00"
definition P2_MORE :: byte where "P2_MORE = 0x80"

lemmas client_params = P1_START_def P1_CONFIRM_def P2_LAST_def P2_MORE_def

definition get_public_key :: "(byte \<Rightarrow> byte \<Rightarrow> byte \<Rightarrow> byte \<Rightarrow> bytes \<Rightarrow> bytes) \<Rightarrow> bytes \<Rightarrow> bytes" where
  "get_public_key exchange path = exchange APDU_CLA GET_PUBLIC_KEY P1_START P2_LAST path"

definition get_public_key_with_confirmation :: "(byte \<Rightarrow> byte \<Rightarrow> byte \<Rightarrow> byte \<Rightarrow> bytes \<Rightarrow> bytes) \<Rightarrow> bytes \<Rightarrow> bytes" where
  "get_public_key_with_confirmation exchange path = exchange APDU_CLA GET_PUBLIC_KEY P1_CONFIRM P2_LAST path"

definition get_public_key_chunks :: "(byte \<Rightarrow> byte \<Rightarrow> byte \<Rightarrow> byte \<Rightarrow> bytes \<Rightarrow> bytes) \<Rightarrow> bytes list" where
  "get_public_key_chunks exchange = map (\<lambda>p2. exchange APDU_CLA GET_PUBLIC_KEY 0 (of_nat p2) []) [1..<12]"


section \<open>Their runs\<close>

text \<open>The address, with the key derived into the storage.\<close>

lemma client_address:
  assumes ok: "env_ok e st shake" "apdu_link e exchange" "io_ok e" and s: "idle s" "wf_device e (dev s)"
    and path: "path_cmd \<noteq> []" "length path_cmd \<le> 255" "buffer_read_u8 e (chunk_buffer path_cmd) 0 = (True, len, c1)"
      "buffer_read_bip32_path e c1 (replicate (max_bip32_path e) 0) (ucast len) = (True, path, c2)"
      "zond_path (take (unat len) path)" "key_of e path (ucast len) = Some pk"
  shows "\<exists>t. run (step e) s [Apdu (get_public_key exchange path_cmd)] t \<and> idle t \<and> wf_device e (dev t) \<and>
    sent (dev t) = sent (dev s) @ [(0x51 # shake ([1, 0, 0] @ pk), SW_OK)] \<and>
    nvm (dev t) = (nvm (dev s))\<lparr>nv_pk := pk\<rparr>"
proof -
  have sdk: "xof_ok e st shake" "env_lengths e" "buffers_ok e" using ok by (simp_all add: env_ok_def)
  let ?k = "key_ready e shake len path pk (dev s)"
  let ?r = "io_send_response e (ZOND_ADDRESS_PREFIX # shake ([1, 0, 0] @ pk)) SW_OK ?k"
  note h = get_public_key_path [OF sdk path(3,4)]
  note f = key_ready_facts [OF sdk(1,2) s(2) h(1) path(6)]
  have "handler_get_public_key e (chunk_buffer path_cmd) False (dev s) = Some (fst ?r, snd ?r)"
    using h(4) [OF path(5,6)] f(4) by simp
  then have "apdu_dispatcher e (packed APDU_CLA GET_PUBLIC_KEY 0 0 path_cmd) (dev s) = Some (fst ?r, snd ?r)"
    using path(1) packed_buffer [OF path(2,1)] by (simp add: apdu_dispatcher_def ins_defs packed_def)
  moreover have "0 \<le> fst ?r" using ok(3) by (simp add: io_ok_def io_send_response_def)
  ultimately have r: "app_main_round e (get_public_key exchange path_cmd) (dev s) = Some (snd ?r)"
    unfolding get_public_key_def client_params by (rule link_dispatch [OF ok(2) path(2)])
  have k: "sent ?k = sent (dev s)" "exited ?k = exited (dev s)" "nvm ?k = (nvm (dev s))\<lparr>nv_pk := pk\<rparr>"
    by (simp_all add: key_ready_def)
  let ?t = "s\<lparr>dev := snd ?r, requests := requests s + 1\<rparr>"
  have "step e s (Apdu (get_public_key exchange path_cmd)) ?t"
    using s(1) r by (intro step_apdu) (simp_all add: idle_def)
  moreover have "wf_device e (dev ?t)" using f(1) by (simp add: io_send_response_def wf_device_def)
  ultimately show ?thesis using s(1) k run_single [where stp = "step e"]
    by (intro exI [of _ ?t]) (simp add: idle_def io_send_response_def ZOND_ADDRESS_PREFIX_def)
qed

text \<open>The chunks of the key.\<close>

lemma key_chunk_answers:
  assumes "apdu_link e exchange" "io_ok e" "\<forall>i \<in> set is. i < 11"
  shows "answers_once e (\<lambda>i. exchange APDU_CLA GET_PUBLIC_KEY 0 (i + 1) []) (helper_send_response_pk_chunk e) is"
  unfolding answers_once_def
proof (intro ballI allI impI)
  fix i d r d' assume i: "i \<in> set is" and h: "helper_send_response_pk_chunk e i d = Some (r, d')"
  have lt: "i < 11" using assms(3) i by blast
  have "unat (i + 1) = unat i + 1" using lt by (simp add: word_less_nat_alt unat_word_ariths)
  then have p2: "0 < i + 1" "\<not> 11 < i + 1" using lt by (simp_all add: word_less_nat_alt)
  have "apdu_dispatcher e (packed APDU_CLA GET_PUBLIC_KEY 0 (i + 1) []) d = Some (r, d')"
    using p2 h by (simp add: apdu_dispatcher_def ins_defs packed_def handler_get_public_key_chunk_def)
  moreover have "0 \<le> r \<and> exited d' = exited d \<and> length (sent d') = Suc (length (sent d))"
    using h assms(2) by (auto simp: helper_send_response_pk_chunk_def io_ok_def dev_simps split: if_splits bind_splits)
  ultimately show "app_main_round e (exchange APDU_CLA GET_PUBLIC_KEY 0 (i + 1) []) d = Some d' \<and> exited d' = exited d \<and>
      length (sent d') = Suc (length (sent d))"
    using link_dispatch [OF assms(1), of "[]"] by simp
qed

lemma client_key_chunks:
  assumes "apdu_link e exchange" "io_ok e" and s: "idle s" "wf_device e (dev s)"
  shows "\<exists>t chunks. run (step e) s (map Apdu (get_public_key_chunks exchange)) t \<and> idle t \<and> wf_device e (dev t) \<and>
    sent (dev t) = sent (dev s) @ map (\<lambda>c. (c, SW_OK)) chunks \<and> length chunks = 11 \<and>
    concat chunks = nv_pk (nvm (dev s)) \<and> nvm (dev t) = nvm (dev s)"
proof -
  have wf: "wf_nvm (nvm (dev s))" using s(2) by (simp add: wf_device_def)
  obtain chunks where c: "send_each (helper_send_response_pk_chunk e) (map of_nat [0..<11]) (dev s) =
      Some ((dev s)\<lparr>sent := sent (dev s) @ map (\<lambda>c. (c, SW_OK)) chunks\<rparr>)" "concat chunks = nv_pk (nvm (dev s))" "length chunks = 11"
    using transfer_key [OF wf] by blast
  let ?d = "(dev s)\<lparr>sent := sent (dev s) @ map (\<lambda>c. (c, SW_OK)) chunks\<rparr>"
  have i: "\<forall>i \<in> set (map of_nat [0..<11]). (i :: byte) < 11" by (auto simp: word_less_nat_alt unat_of_nat)
  have "map (\<lambda>i. Apdu (exchange APDU_CLA GET_PUBLIC_KEY 0 (i + 1) [])) (map of_nat [0..<11]) = map Apdu (get_public_key_chunks exchange)"
    by (intro nth_equalityI) (simp_all add: get_public_key_chunks_def add.commute del: upt_Suc)
  with send_each_run [OF key_chunk_answers [OF assms(1,2) i] s(1) c(1)]
  show ?thesis using c(2,3) s(2)
    by (intro exI [of _ "s\<lparr>dev := ?d, requests := requests s + length (map of_nat [0..<11] :: byte list)\<rparr>"] exI [of _ chunks])
      (simp add: wf_device_def)
qed

text \<open>With confirmation: the address is on display until the user answers.\<close>

lemma client_confirmed_address:
  assumes ok: "env_ok e st shake" "apdu_link e exchange" "io_ok e" and s: "idle s" "wf_device e (dev s)"
    and path: "path_cmd \<noteq> []" "length path_cmd \<le> 255" "buffer_read_u8 e (chunk_buffer path_cmd) 0 = (True, len, c1)"
      "buffer_read_bip32_path e c1 (replicate (max_bip32_path e) 0) (ucast len) = (True, path, c2)"
      "zond_path (take (unat len) path)" "key_of e path (ucast len) = Some pk"
    and addr: "addr = shake ([1, 0, 0] @ pk)"
  shows "\<exists>t t'. run (step e) s [Apdu (get_public_key_with_confirmation exchange path_cmd)] t \<and>
    on_screen (dev t) = Address_Review (checksummed shake addr) \<and> sent (dev t) = sent (dev s) \<and>
    run (step e) t [Choose cf rnd] t' \<and>
    sent (dev t') = sent (dev s) @ [if cf then (0x51 # addr, SW_OK) else ([], SW_DENY)]"
proof -
  have sdk: "xof_ok e st shake" "env_lengths e" "buffers_ok e" using ok by (simp_all add: env_ok_def)
  let ?k = "key_ready e shake len path pk (dev s)"
  let ?d = "show_screen (Address_Review (checksummed shake addr)) ?k"
  note h = get_public_key_path [OF sdk path(3,4)]
  note f = key_ready_facts [OF sdk(1,2) s(2) h(1) path(6)]
  have k: "sent ?d = sent (dev s)" "exited ?d = exited (dev s)" "on_screen ?d = Address_Review (checksummed shake addr)"
    by (simp_all add: key_ready_def show_screen_def)
  have "handler_get_public_key e (chunk_buffer path_cmd) True (dev s) = Some (0, ?d)"
    using h(4) [OF path(5,6)] f(3) by (simp add: addr)
  then have "apdu_dispatcher e (packed APDU_CLA GET_PUBLIC_KEY 1 0 path_cmd) (dev s) = Some (0, ?d)"
    using path(1) packed_buffer [OF path(2,1)] by (simp add: apdu_dispatcher_def ins_defs packed_def)
  then have r: "app_main_round e (get_public_key_with_confirmation exchange path_cmd) (dev s) = Some ?d"
    unfolding get_public_key_with_confirmation_def client_params by (rule link_dispatch [OF ok(2) path(2)]) simp
  let ?t = "s\<lparr>dev := ?d, requests := requests s + 1\<rparr>"
  have st: "step e s (Apdu (get_public_key_with_confirmation exchange path_cmd)) ?t"
    using s(1) r by (intro step_apdu) (simp_all add: idle_def)
  have a: "read_block (g_address (ctx (show_screen Blank ?d))) 0 ADDRESS_SIZE = Some addr"
    using f(2) by (simp add: show_screen_def addr)
  obtain d' where d': "address_review_choice e cf (show_screen Blank ?d) = Some d'"
    "sent d' = sent (dev s) @ [if cf then (0x51 # addr, SW_OK) else ([], SW_DENY)]"
    using a k(1)
    by (cases cf) (simp_all add: address_review_choice_def validate_pubkey_def helper_send_response_address_def dev_simps
        ZOND_ADDRESS_PREFIX_def)
  let ?u = "?t\<lparr>dev := d', confirmed := note_choice cf (on_screen (dev ?t)) (confirmed ?t)\<rparr>"
  have "step e ?t (Choose cf rnd) ?u"
    by (rule step_choose) (use s(1) k d'(1) in \<open>simp_all add: idle_def run_choice_def\<close>)
  from run_single [where stp = "step e", OF this] run_single [where stp = "step e", OF st] show ?thesis
    using k d'(2) by (intro exI [of _ ?t] exI [of _ ?u] conjI) (assumption | simp)+
qed


section \<open>Key and signature\<close>

text \<open>The commands of the signing test and of the end-to-end script: the address, the key, the signature.\<close>

definition key_and_signature ::
  "(byte \<Rightarrow> byte \<Rightarrow> byte \<Rightarrow> byte \<Rightarrow> bytes \<Rightarrow> bytes) \<Rightarrow> bytes \<Rightarrow> bytes \<Rightarrow> event list \<Rightarrow> event list" where
  "key_and_signature exchange path transaction navigation =
     Apdu (get_public_key exchange path) # map Apdu (get_public_key_chunks exchange) @
     map Apdu (client_sign_tx exchange path transaction) @ navigation @ map Apdu (get_signature_chunks exchange)"

lemma client_key_and_signature:
  assumes ok: "env_ok e st shake" "keccak_ok e keccak" "mldsa_ok e pub sec" "apdu_link e exchange" "io_ok e"
    and s: "idle s" "wf_device e (dev s)"
    and path: "path_cmd \<noteq> []" "length path_cmd \<le> 255" "buffer_read_u8 e (chunk_buffer path_cmd) 0 = (True, len, c1)"
      "buffer_read_bip32_path e c1 (replicate (max_bip32_path e) 0) (ucast len) = (True, path, c2)"
      "zond_path (take (unat len) path)"
      "os_derive_bip32_no_throw e path (ucast len) (replicate 64 0) = (CX_OK, seed)"
    and v: "v \<noteq> []" "length v \<le> 2048" "decode_spec v = Some its" "tx = store_fields its zero_tx" "displayable tx"
      "tx_data_len tx = 0"
  shows "\<exists>t key sig. run (step e) s (key_and_signature exchange path_cmd v [Choose True rnd]) t \<and>
    sent (dev t) = sent (dev s) @ map (\<lambda>r. (r, SW_OK)) ((0x51 # shake ([1, 0, 0] @ pub seed)) # key @
      replicate (length (split_message v 255)) [] @ sig) \<and>
    length key = 11 \<and> concat key = pub seed \<and> length sig = 18 \<and> length (concat sig) = MLDSA87_SIGBYTES \<and>
    mldsa_verify e (concat sig) (keccak v) QRL_CTX (pub seed) = CX_OK"
proof -
  obtain t1 where t1: "run (step e) s [Apdu (get_public_key exchange path_cmd)] t1" "idle t1" "wf_device e (dev t1)"
    "sent (dev t1) = sent (dev s) @ [(0x51 # shake ([1, 0, 0] @ pub seed), SW_OK)]"
    "nvm (dev t1) = (nvm (dev s))\<lparr>nv_pk := pub seed\<rparr>"
    using client_address [OF ok(1,4,5) s path(1-5) mldsa_ok_key [OF ok(3) path(6)]] by blast
  obtain t2 key where t2: "run (step e) t1 (map Apdu (get_public_key_chunks exchange)) t2" "idle t2" "wf_device e (dev t2)"
    "sent (dev t2) = sent (dev t1) @ map (\<lambda>c. (c, SW_OK)) key" "length key = 11" "concat key = nv_pk (nvm (dev t1))"
    using client_key_chunks [OF ok(4,5) t1(2,3)] by blast
  have "call_page_count (nvm (dev t2)) tx = 0" by (simp add: call_page_count_def whole_call_def v(6))
  moreover obtain t sig where t: "run (step e) t2 (map Apdu (client_sign_tx exchange path_cmd v) @
      replicate (call_page_count (nvm (dev t2)) tx) (Choose True rnd) @ [Choose True rnd] @ map Apdu (get_signature_chunks exchange)) t"
    "sent (dev t) = sent (dev t2) @ replicate (length (split_message v 255)) ([], SW_OK) @ map (\<lambda>c. (c, SW_OK)) sig"
    "length sig = 18" "length (concat sig) = MLDSA87_SIGBYTES" "mldsa_verify e (concat sig) (keccak v) QRL_CTX (pub seed) = CX_OK"
    using client_signature [OF ok t2(2,3) path v(1-5) disjI1 [OF v(6)], of rnd] by blast
  ultimately have "run (step e) s (key_and_signature exchange path_cmd v [Choose True rnd]) t"
    using run_append [OF run_append [OF t(1) t2(1)] t1(1)] by (simp add: key_and_signature_def)
  moreover have "concat key = pub seed" using t2(6) t1(5) by simp
  ultimately show ?thesis using t(3-5) t2(5)
    by (intro exI [of _ t] exI [of _ key] exI [of _ sig]) (simp add: t(2) t2(4) t1(4))
qed

end
