(* ===== verification/Device_Tests.thy ===== *)
theory Device_Tests
  imports Call_Session Client_Key
begin

text \<open>
  The repository's tests against a device (\<open>tests/test_error_cmd.py\<close>, \<open>tests/test_version_cmd.py\<close>,
  \<open>tests/test_appname_cmd.py\<close>, \<open>tests/test_sign_cmd.py\<close>): each command test as a proposition about
  the answer of a freshly started application, and the two signing tests as runs of a session, for
  every SDK that behaves as documented.
\<close>


section \<open>Command tests\<close>

text \<open>The answer to one command: its data and its status.\<close>

definition response :: "bytes \<Rightarrow> (bytes \<times> u16) option" where
  "response apdu = do { d \<leftarrow> app_main_round sample_env apdu (app_main_start sample_env start_device); Some (last (sent d)) }"

definition status :: "bytes \<Rightarrow> u16 option" where "status apdu = map_option snd (response apdu)"

text \<open>One definition per test: all its assertions hold.\<close>

definition test_bad_cla :: bool where
  "test_bad_cla \<longleftrightarrow> status (sample_exchange (APDU_CLA + 1) GET_VERSION 0 0 []) = Some SW_CLA_NOT_SUPPORTED"

definition test_bad_ins :: bool where
  "test_bad_ins \<longleftrightarrow> status (sample_exchange APDU_CLA 0xff 0 0 []) = Some SW_INS_NOT_SUPPORTED"

definition test_wrong_p1p2 :: bool where
  "test_wrong_p1p2 \<longleftrightarrow>
     status (sample_exchange APDU_CLA GET_VERSION (P1_START + 1) P2_LAST []) = Some SW_WRONG_P1P2 \<and>
     status (sample_exchange APDU_CLA GET_VERSION P1_START P2_MORE []) = Some SW_WRONG_P1P2 \<and>
     status (sample_exchange APDU_CLA GET_APP_NAME (P1_START + 1) P2_LAST []) = Some SW_WRONG_P1P2 \<and>
     status (sample_exchange APDU_CLA GET_APP_NAME P1_START P2_MORE []) = Some SW_WRONG_P1P2"

definition test_wrong_data_length :: bool where
  "test_wrong_data_length \<longleftrightarrow> status [0xE0, 0x03, 0x00] = Some SW_WRONG_DATA_LENGTH \<and>
     status [0xE0, 0x03, 0x00, 0x00, 0x05] = Some SW_WRONG_DATA_LENGTH"

definition test_invalid_state :: bool where
  "test_invalid_state \<longleftrightarrow>
     status (sample_exchange APDU_CLA SIGN_TX (P1_START + 1) P2_MORE [0x61, 0x62, 0x63, 0x64, 0x65]) = Some SW_BAD_STATE"

text \<open>\<open>unpack_get_version_response\<close> and the text compared with the version of the Makefile.\<close>

definition unpack_version :: "bytes \<Rightarrow> string option" where
  "unpack_version r = (case r of
       [major, minor, patch] \<Rightarrow> Some (decimal (unat major) @ ''.'' @ decimal (unat minor) @ ''.'' @ decimal (unat patch))
     | _ \<Rightarrow> None)"

definition test_version :: bool where
  "test_version \<longleftrightarrow> (case response (sample_exchange APDU_CLA GET_VERSION P1_START P2_LAST []) of
       Some (r, sw) \<Rightarrow> unpack_version r = Some APPVERSION \<and> sw = SW_OK | None \<Rightarrow> False)"

definition test_app_name :: bool where
  "test_app_name \<longleftrightarrow> response (sample_exchange APDU_CLA GET_APP_NAME P1_START P2_LAST []) =
     Some (map of_char APPNAME, SW_OK)"

text \<open>They hold.\<close>

lemma fresh_device: "sent (app_main_start sample_env start_device) = []"
  "ctx (app_main_start sample_env start_device) = zero_ctx 10"
  by (simp_all add: app_main_start_def bzero_ctx_def ui_menu_main_def show_screen_def start_device_def sample_env_def)

lemma parse_exchange:
  "length data \<le> 255 \<Longrightarrow> apdu_parser sample_env (sample_exchange cla ins p1 p2 data) =
     Some \<lparr>cmd_cla = cla, cmd_ins = ins, cmd_p1 = p1, cmd_p2 = p2, cmd_lc = of_nat (length data),
           cmd_data = (if data = [] then None else Some data)\<rparr>"
  using sample_link by (simp add: apdu_link_def packed_def)

lemmas test_defs = status_def response_def app_main_round_def parse_exchange apdu_dispatcher_def ins_defs APDU_CLA_def
  client_params fresh_device dev_simps

lemma error_tests: test_bad_cla test_bad_ins test_wrong_p1p2 
  by (simp_all add: test_bad_cla_def test_bad_ins_def test_wrong_p1p2_def test_defs)

lemma length_test: test_wrong_data_length
proof -
  have "apdu_parser sample_env [0xE0, 0x03, 0x00] = None" "apdu_parser sample_env [0xE0, 0x03, 0x00, 0x00, 0x05] = None"
    by (simp_all add: sample_env_def)
  then show ?thesis by (simp add: test_wrong_data_length_def status_def response_def app_main_round_def fresh_device dev_simps)
qed

lemma state_test: test_invalid_state
  by (simp add: test_invalid_state_def test_defs handler_sign_tx_def sign_tx_more_def recv_chunk_def zero_ctx_def)

lemma digit_two: "digit_char 2 = CHR ''2''"
  by code_simp

lemma name_tests: test_version test_app_name
  by (simp_all add: test_version_def test_app_name_def test_defs handler_get_version_def handler_get_app_name_def
      unpack_version_def MAJOR_VERSION_def MINOR_VERSION_def PATCH_VERSION_def APPVERSION_def decimal.simps digit_two)


section \<open>Signing tests\<close>

text \<open>The transaction of the tests: a payment to a recipient of 64 bytes.\<close>

definition short_tx :: bytes where
  "short_tx = [0x02, 0xf8, 0x5f, 0x82, 0x05, 0xbc, 0x01, 0x84, 0x3b, 0x9a, 0xca, 0x00, 0x84, 0x77, 0x35, 0x94, 0x00,
     0x82, 0x52, 0x08, 0xb8, 0x40] @
     concat (replicate 3 [0xd4, 0x6e, 0x8d, 0xd6, 0x7c, 0x5d, 0x32, 0xbe, 0x80, 0x58, 0xbb, 0x8e, 0xb9, 0x70, 0x87, 0x0f,
       0x07, 0x24, 0x45, 0x67]) @ [0xab, 0xcd, 0xef, 0x12] @
     [0x84, 0x91, 0x84, 0xe7, 0x2a, 0x80, 0xc0, 0x83, 0x01, 0x00, 0x00, 0x80]"

definition short_items :: "bytes list" where
  "short_items = [[0x05, 0xbc], [1], [0x3b, 0x9a, 0xca, 0x00], [0x77, 0x35, 0x94, 0x00], [0x52, 0x08],
     concat (replicate 3 [0xd4, 0x6e, 0x8d, 0xd6, 0x7c, 0x5d, 0x32, 0xbe, 0x80, 0x58, 0xbb, 0x8e, 0xb9, 0x70, 0x87, 0x0f,
       0x07, 0x24, 0x45, 0x67]) @ [0xab, 0xcd, 0xef, 0x12],
     [0x91, 0x84, 0xe7, 0x2a], [], [], [1, 0, 0], []]"

lemma replicate_three: "replicate 3 x = [x, x, x]"
  by (simp add: numeral_3_eq_3)

lemma decode_spec_short: "decode_spec short_tx = Some short_items"
  by (simp add: decode_spec_def short_tx_def short_items_def replicate_three take_long_one take_bytes_def fields_ok_def
      fields_accepted_def tx_field_specs_def size_consts read_items_numeral)

lemma short_tx_facts:
  "displayable (store_fields short_items zero_tx)" "tx_data_len (store_fields short_items zero_tx) = 0"
  "length short_tx = 98"
  by (simp_all add: short_items_def short_tx_def replicate_three store_fields_def tx_field_specs_def padded_def overlay_def
      zero_tx_def size_consts displayable_def nonce_of_def value_of_def fee_cap_of_def be_simps)

text \<open>
  Approved: the test fetches the address and the key, signs, and verifies the signature with the
  key it has fetched; so it does with any SDK that behaves as documented.
\<close>

lemma test_sign_tx_short_tx:
  assumes ok: "env_ok e st shake" "keccak_ok e keccak" "mldsa_ok e pub sec" "apdu_link e exchange" "io_ok e"
    and s: "idle s" "wf_device e (dev s)"
    and path: "path_cmd \<noteq> []" "length path_cmd \<le> 255" "buffer_read_u8 e (chunk_buffer path_cmd) 0 = (True, len, c1)"
      "buffer_read_bip32_path e c1 (replicate (max_bip32_path e) 0) (ucast len) = (True, path, c2)"
      "zond_path (take (unat len) path)"
      "os_derive_bip32_no_throw e path (ucast len) (replicate 64 0) = (CX_OK, seed)"
  shows "\<exists>t address key sig. run (step e) s (key_and_signature exchange path_cmd short_tx [Choose True rnd]) t \<and>
    sent (dev t) = sent (dev s) @ map (\<lambda>r. (r, SW_OK)) (address # key @ [] # sig) \<and>
    length key = 11 \<and> length sig = 18 \<and> length (concat sig) = 4627 \<and>
    mldsa_verify e (concat sig) (keccak short_tx) QRL_CTX (concat key) = CX_OK"
proof -
  have v: "short_tx \<noteq> []" "length short_tx \<le> 255" "length short_tx \<le> 2048" using short_tx_facts(3) by auto
  from client_key_and_signature [OF ok s path v(1,3) decode_spec_short refl short_tx_facts(1,2), of rnd]
  show ?thesis unfolding split_message_short [OF v(1,2)] MLDSA87_SIGBYTES_def by fastforce
qed

text \<open>Refused: the answer is the denial status without data.\<close>

lemma test_sign_tx_refused:
  assumes ok: "env_ok e st shake" "keccak_ok e keccak" "apdu_link e exchange" "io_ok e"
    and s: "idle s" "wf_device e (dev s)"
    and path: "path_cmd \<noteq> []" "length path_cmd \<le> 255" "buffer_read_u8 e (chunk_buffer path_cmd) 0 = (True, len, c1)"
      "buffer_read_bip32_path e c1 (replicate (max_bip32_path e) 0) (ucast len) = (True, path, c2)"
      "zond_path (take (unat len) path)" "key_of e path (ucast len) = Some pk"
  shows "\<exists>t. run (step e) s (map Apdu (client_sign_tx exchange path_cmd short_tx) @ [Choose False rnd]) t \<and>
    sent (dev t) = sent (dev s) @ [([], SW_OK), ([], SW_DENY)]"
proof -
  have v: "short_tx \<noteq> []" "length short_tx \<le> 255" "length short_tx \<le> 2048" using short_tx_facts(3) by auto
  have n: "call_page_count (nvm (dev s)) (store_fields short_items zero_tx) = 0"
    by (simp add: call_page_count_def whole_call_def short_tx_facts(2))
  obtain t where t: "run (step e) s (map Apdu (client_sign_tx exchange path_cmd short_tx)) t" "\<not> exited (dev t)"
    "sent (dev t) = sent (dev s) @ [([], SW_OK)]" "\<exists>b ps tl f. on_screen (dev t) = Review b ps tl f Transaction_Choice"
    using client_review [OF ok s path v(1,3) decode_spec_short refl short_tx_facts(1), of rnd] short_tx_facts(2)
    unfolding n split_message_short [OF v(1,2)] by (fastforce simp: review_of_def transaction_page_def)
  obtain d' where d': "review_choice e rnd False (show_screen Blank (dev t)) = Some d'"
    "sent d' = sent (dev t) @ [([], SW_DENY)]"
    by (simp add: review_choice_def validate_transaction_def dev_simps)
  have "step e t (Choose False rnd) (t\<lparr>dev := d', confirmed := note_choice False (on_screen (dev t)) (confirmed t)\<rparr>)"
    by (rule step_choose [OF t(2)]) (use t(4) d'(1) in \<open>auto simp: run_choice_def\<close>)
  from run.run_snoc [where stp = "step e", OF t(1) this] show ?thesis using d'(2) t(3)
    by (intro exI [of _ "t\<lparr>dev := d', confirmed := note_choice False (on_screen (dev t)) (confirmed t)\<rparr>"]) simp
qed



section \<open>The public key test\<close>

text \<open>
  Confirmed on screen: the answer is Q and the 64 bytes of the address that was on display, for any
  SDK that behaves as documented.
\<close>

lemma test_get_public_key_confirm_accepted:
  assumes ok: "env_ok e st shake" "apdu_link e exchange" "io_ok e" and s: "idle s" "wf_device e (dev s)"
    and path: "path_cmd \<noteq> []" "length path_cmd \<le> 255" "buffer_read_u8 e (chunk_buffer path_cmd) 0 = (True, len, c1)"
      "buffer_read_bip32_path e c1 (replicate (max_bip32_path e) 0) (ucast len) = (True, path, c2)"
      "zond_path (take (unat len) path)" "key_of e path (ucast len) = Some pk"
  shows "\<exists>t response. run (step e) s [Apdu (get_public_key_with_confirmation exchange path_cmd), Choose True rnd] t \<and>
    sent (dev t) = sent (dev s) @ [(response, SW_OK)] \<and> length response = 65 \<and> response ! 0 = 0x51"
proof -
  obtain t t' where t: "run (step e) s [Apdu (get_public_key_with_confirmation exchange path_cmd)] t"
    "run (step e) t [Choose True rnd] t'" "sent (dev t') = sent (dev s) @ [(0x51 # shake ([1, 0, 0] @ pk), SW_OK)]"
    using client_confirmed_address [OF ok s path refl, of True rnd] by auto
  have "length (shake ([1, 0, 0] @ pk)) = 64" using ok(1) by (simp add: env_ok_def xof_ok_def ADDRESS_SIZE_def)
  then show ?thesis using run_append [OF t(2,1)] t(3)
    by (intro exI [of _ t'] exI [of _ "0x51 # shake ([1, 0, 0] @ pk)"]) simp
qed

end
