(* ===== verification/Rlp_Roundtrip.thy ===== *)
theory Rlp_Roundtrip
  imports Rlp_Correct
begin

text \<open>
  The encoder of \<open>tests/e2e/qrltx.mjs\<close> (JavaScript numbers are naturals here, a
  \<open>Uint8Array\<close> a byte list), as the writer of the interface \<open>item_codec\<close>, and the round
  trip from it through the device's decoder.
\<close>


section \<open>The encoder of the end-to-end tests\<close>

function intToBytes :: "nat \<Rightarrow> bytes" where
  "intToBytes v = (if v = 0 then [] else intToBytes (v div 256) @ [of_nat (v mod 256)])"
  by pat_completeness auto
termination by (relation "measure id") auto

declare intToBytes.simps [simp del]

definition rlpBytes :: "bytes \<Rightarrow> bytes" where
  "rlpBytes b =
     (if length b = 1 \<and> hd b < 0x80 then b
      else if length b \<le> 55 then of_nat (0x80 + length b) # b
      else (let ln = intToBytes (length b) in of_nat (0xb7 + length ln) # ln @ b))"

definition rlpList :: "bytes list \<Rightarrow> bytes" where
  "rlpList items =
     (let payload = concat items in
      if length payload \<le> 55 then of_nat (0xc0 + length payload) # payload
      else (let ln = intToBytes (length payload) in of_nat (0xf7 + length ln) # ln @ payload))"

record preimage =
  chainId :: nat
  pnonce :: nat
  tip :: nat
  feeCap :: nat
  pgas :: nat
  pto :: bytes
  pvalue :: nat
  pdata :: bytes

definition encodeUnsignedPreimage :: "preimage \<Rightarrow> bytes" where
  "encodeUnsignedPreimage x =
     0x02 # rlpList
       [rlpBytes (intToBytes (chainId x)), rlpBytes (intToBytes (pnonce x)),
        rlpBytes (intToBytes (tip x)), rlpBytes (intToBytes (feeCap x)),
        rlpBytes (intToBytes (pgas x)), rlpBytes (pto x), rlpBytes (intToBytes (pvalue x)),
        rlpBytes (pdata x), rlpList [], rlpBytes [1, 0, 0], rlpBytes []]"

lemma be_nat_intToBytes: "be_nat (intToBytes v) = v"
proof (induction v rule: intToBytes.induct)
  case (1 v)
  show ?case
  proof (cases "v = 0")
    case True
    then show ?thesis by (simp add: intToBytes.simps [of 0] be_simps)
  next
    case False
    have "unat (of_nat (v mod 256) :: byte) = v mod 256"
      by (simp add: unat_of_nat)
    then show ?thesis using False "1.IH" by (simp add: intToBytes.simps [of v] be_simps)
  qed
qed

lemma length_intToBytes: "v < 256 ^ k \<Longrightarrow> length (intToBytes v) \<le> k"
proof (induction k arbitrary: v)
  case 0
  then show ?case by (simp add: intToBytes.simps [of 0])
next
  case (Suc k)
  then have "v div 256 < 256 ^ k" by (simp add: less_mult_imp_div_less mult.commute)
  from Suc.IH [OF this] show ?case by (subst intToBytes.simps) simp
qed

lemma intToBytes_eq_Nil: "intToBytes v = [] \<longleftrightarrow> v = 0"
  by (subst intToBytes.simps) simp

text \<open>A length that fits 32 bits is written in one to four bytes.\<close>

lemma length_field:
  assumes "55 < n" and "n < 2 ^ 32"
  shows "1 \<le> length (intToBytes n)" and "length (intToBytes n) \<le> 4"
    and "be_nat (intToBytes n) mod 2 ^ 32 = n"
  using assms length_intToBytes [of n 4] intToBytes_eq_Nil [of n]
  by (simp_all add: be_nat_intToBytes Suc_le_eq)

lemma unat_of_nat_byte: "k < 256 \<Longrightarrow> unat (of_nat k :: byte) = k"
  by (simp add: unat_of_nat)

lemma byte_le: "k < 256 \<Longrightarrow> (of_nat k :: byte) \<le> b \<longleftrightarrow> k \<le> unat b"
  by (simp add: word_le_nat_alt unat_of_nat)

lemma rlp_split_rlpBytes:
  assumes "length pl < 2 ^ 32"
  shows "rlp_split (rlpBytes pl @ rest) = Some (pl, rest)"
proof -
  consider "length pl = 1 \<and> hd pl < 0x80" | "\<not> (length pl = 1 \<and> hd pl < 0x80)" "length pl \<le> 55" | "55 < length pl"
    by linarith
  then show ?thesis
  proof cases
    case 1
    then obtain b where "pl = [b]" "b < 0x80" by (cases pl) auto
    then show ?thesis by (simp add: rlpBytes_def word_le_nat_alt word_less_nat_alt)
  next
    case 2
    define k where "k = 0x80 + length pl"
    have k: "0x80 \<le> k" "k \<le> 0xb7" "k < 256" using 2 by (simp_all add: k_def)
    have "rlpBytes pl = of_nat k # pl" using 2 by (auto simp: rlpBytes_def k_def)
    then show ?thesis
      using k by (simp add: byte_le unat_of_nat_byte) (simp add: word_le_nat_alt unat_of_nat_byte take_bytes_Some k_def)
  next
    case 3
    let ?ln = "intToBytes (length pl)"
    define k where "k = 0xb7 + length ?ln"
    note ln = length_field [OF 3 assms]
    have k: "0xb8 \<le> k" "k \<le> 0xbf" "length ?ln = k - 0xb7" using ln by (simp_all add: k_def)
    then have u: "unat (of_nat k :: byte) = k" by (intro unat_of_nat_byte) simp
    have enc: "rlpBytes pl = of_nat k # ?ln @ pl" using 3 by (simp add: rlpBytes_def k_def Let_def)
    have "take_long (k - 0xb7) (?ln @ pl @ rest) = Some (pl, rest)"
      using k ln(3) by (auto simp: take_long_Some)
    then show ?thesis using k(1,2) by (simp add: enc word_le_nat_alt u)
  qed
qed

lemma rlp_list_split_rlpList:
  assumes "length (concat items) < 2 ^ 32"
  shows "rlp_list_split (rlpList items @ rest) = Some (concat items, rest)"
proof (cases "length (concat items) \<le> 55")
  case True
  define k where "k = 0xc0 + length (concat items)"
  have k: "0xc0 \<le> k" "k \<le> 0xf7" "length (concat items) = k - 0xc0" using True by (simp_all add: k_def)
  then have u: "unat (of_nat k :: byte) = k" by (intro unat_of_nat_byte) simp
  have enc: "rlpList items = of_nat k # concat items" using True by (simp add: rlpList_def k_def Let_def)
  have "take_bytes (k - 0xc0) (concat items @ rest) = Some (concat items, rest)"
    using k(3) by (simp add: take_bytes_Some)
  then show ?thesis using k(1,2) by (simp add: enc word_le_nat_alt u)
next
  case False
  then have big: "55 < length (concat items)" by simp
  let ?ln = "intToBytes (length (concat items))"
  define k where "k = 0xf7 + length ?ln"
  note ln = length_field [OF big assms]
  have k: "0xf8 \<le> k" "k \<le> 0xff" "length ?ln = k - 0xf7" using ln by (simp_all add: k_def)
  then have u: "unat (of_nat k :: byte) = k" by (intro unat_of_nat_byte) simp
  have enc: "rlpList items = of_nat k # ?ln @ concat items"
    using False by (simp add: rlpList_def k_def Let_def)
  have "take_long (k - 0xf7) (?ln @ concat items @ rest) = Some (concat items, rest)"
    using k ln(3) by (auto simp: take_long_Some)
  then show ?thesis using k(1,2) by (simp add: enc word_le_nat_alt u)
qed

interpretation rlpc: item_codec rlp_split rlpBytes "\<lambda>pl. length pl < 2 ^ 32"
  by unfold_locales (rule rlp_split_rlpBytes)

text \<open>The fields of a transaction as numbers and byte strings: the decoded record's meaning.\<close>

definition tx_preimage :: "zond_tx_t \<Rightarrow> preimage" where
  "tx_preimage tx =
     \<lparr>chainId = be_nat (take (unat (tx_chain_id_len tx)) (tx_chain_id tx)),
      pnonce = be_nat (take (unat (tx_nonce_len tx)) (tx_nonce tx)),
      tip = be_nat (take (unat (tx_gas_tip_cap_len tx)) (tx_gas_tip_cap tx)),
      feeCap = be_nat (take (unat (tx_gas_fee_cap_len tx)) (tx_gas_fee_cap tx)),
      pgas = be_nat (take (unat (tx_gas_len tx)) (tx_gas tx)),
      pto = take (unat (tx_to_len tx)) (tx_to tx),
      pvalue = be_nat (take (unat (tx_value_len tx)) (tx_value tx)),
      pdata = take (unat (tx_data_len tx)) (tx_data tx)\<rparr>"

definition preimage_ok :: "preimage \<Rightarrow> bool" where
  "preimage_ok x \<longleftrightarrow> chainId x < 256 ^ MAX_FIELD_SIZE \<and> pnonce x < 256 ^ 8 \<and>
     tip x < 256 ^ MAX_FIELD_SIZE \<and> feeCap x < 256 ^ MAX_FIELD_SIZE \<and> pgas x < 256 ^ 8 \<and>
     (pto x = [] \<or> length (pto x) = ADDRESS_LENGTH) \<and> pvalue x < 256 ^ MAX_FIELD_SIZE \<and>
     length (pdata x) \<le> MAX_DATA_SIZE"

definition preimage_fields :: "preimage \<Rightarrow> bytes list" where
  "preimage_fields x =
     [intToBytes (chainId x), intToBytes (pnonce x), intToBytes (tip x), intToBytes (feeCap x),
      intToBytes (pgas x), pto x, intToBytes (pvalue x), pdata x, [], [1, 0, 0], []]"

lemma preimage_lengths:
  assumes "preimage_ok x"
  shows "length (intToBytes (chainId x)) \<le> 32" "length (intToBytes (pnonce x)) \<le> 8"
    "length (intToBytes (tip x)) \<le> 32" "length (intToBytes (feeCap x)) \<le> 32"
    "length (intToBytes (pgas x)) \<le> 8" "length (pto x) \<le> 64" "length (intToBytes (pvalue x)) \<le> 32"
    "length (pdata x) \<le> 2048" "pto x = [] \<or> length (pto x) = 64"
  using assms by (auto simp: preimage_ok_def size_consts intro!: length_intToBytes)

lemma length_rlpBytes: "length pl < 2 ^ 32 \<Longrightarrow> length (rlpBytes pl) \<le> length pl + 5"
  using length_field(2) [of "length pl"] by (simp add: rlpBytes_def Let_def not_le)

lemma preimage_fields_ok: "preimage_ok x \<Longrightarrow> fields_ok (preimage_fields x)"
  using preimage_lengths [of x]
  by (auto simp: fields_ok_def fields_accepted_def tx_field_specs_def preimage_fields_def size_consts)

lemma take_overlay: "take (length pl) (overlay pl old) = pl"
  by (simp add: overlay_def)

lemma take_padded: "take (length pl) (padded n pl) = pl"
  by (simp add: padded_def)

lemma tx_preimage_store:
  assumes "preimage_ok x"
  shows "tx_preimage (store_fields (preimage_fields x) tx) = x"
  using preimage_lengths [OF assms]
  by (cases x) (simp add: tx_preimage_def store_fields_def tx_field_specs_def preimage_fields_def
      unat_of_nat take_bit_nat_eq_self take_overlay take_padded be_nat_intToBytes)

lemma read_preimage_items:
  assumes "preimage_ok x"
  shows "read_items rlp_split 11 (concat
       [rlpBytes (intToBytes (chainId x)), rlpBytes (intToBytes (pnonce x)),
        rlpBytes (intToBytes (tip x)), rlpBytes (intToBytes (feeCap x)),
        rlpBytes (intToBytes (pgas x)), rlpBytes (pto x), rlpBytes (intToBytes (pvalue x)),
        rlpBytes (pdata x), rlpList [], rlpBytes [1, 0, 0], rlpBytes []]) =
     Some (preimage_fields x, [])"
proof -
  note len = preimage_lengths [OF assms]
  let ?a = "[intToBytes (chainId x), intToBytes (pnonce x), intToBytes (tip x), intToBytes (feeCap x),
      intToBytes (pgas x), pto x, intToBytes (pvalue x), pdata x]"
  let ?b = "[[1, 0, 0], []]"
  let ?rb = "concat (map rlpBytes ?b)"
  have a: "read_items rlp_split 8 (concat (map rlpBytes ?a) @ rlpList [] @ ?rb) =
      Some (?a, rlpList [] @ ?rb)"
    by (rule rlpc.items_enc_eq) (use len in simp_all)
  have l: "read_items rlp_split 1 (rlpList [] @ ?rb) = Some ([[]], ?rb)"
    by (simp add: rlpList_def take_bytes_def)
  have b: "read_items rlp_split 2 ?rb = Some (?b, [])"
    by (rule rlpc.items_enc_eq) simp_all
  from rlp.items_add [OF a rlp.items_add [OF l b]]
  show ?thesis by (simp add: preimage_fields_def)
qed

lemma preimage_payload_length:
  assumes ok: "preimage_ok x"
  shows "length (concat
       [rlpBytes (intToBytes (chainId x)), rlpBytes (intToBytes (pnonce x)),
        rlpBytes (intToBytes (tip x)), rlpBytes (intToBytes (feeCap x)),
        rlpBytes (intToBytes (pgas x)), rlpBytes (pto x), rlpBytes (intToBytes (pvalue x)),
        rlpBytes (pdata x), rlpList [], rlpBytes [1, 0, 0], rlpBytes []]) < 3000"
  using preimage_lengths [OF ok] length_rlpBytes [of "intToBytes (chainId x)"] length_rlpBytes [of "intToBytes (pnonce x)"]
    length_rlpBytes [of "intToBytes (tip x)"] length_rlpBytes [of "intToBytes (feeCap x)"]
    length_rlpBytes [of "intToBytes (pgas x)"] length_rlpBytes [of "pto x"]
    length_rlpBytes [of "intToBytes (pvalue x)"] length_rlpBytes [of "pdata x"]
  by (simp add: rlpBytes_def rlpList_def)

text \<open>The preimage is read back as its fields.\<close>

lemma preimage_decodes:
  assumes ok: "preimage_ok x"
  shows "decode_spec (encodeUnsignedPreimage x) = Some (preimage_fields x)"
    "length (encodeUnsignedPreimage x) < 3006"
proof -
  let ?its = "[rlpBytes (intToBytes (chainId x)), rlpBytes (intToBytes (pnonce x)),
        rlpBytes (intToBytes (tip x)), rlpBytes (intToBytes (feeCap x)),
        rlpBytes (intToBytes (pgas x)), rlpBytes (pto x), rlpBytes (intToBytes (pvalue x)),
        rlpBytes (pdata x), rlpList [], rlpBytes [1, 0, 0], rlpBytes []]"
  have lp: "length (concat ?its) < 3000" by (rule preimage_payload_length [OF ok])
  then have lc: "length (concat ?its) < 2 ^ 32" by (rule less_trans) simp
  show "length (encodeUnsignedPreimage x) < 3006"
    using length_field(2) [of "length (concat ?its)"] lp
    unfolding encodeUnsignedPreimage_def rlpList_def [of ?its] Let_def by auto
  show "decode_spec (encodeUnsignedPreimage x) = Some (preimage_fields x)"
    using rlp_list_split_rlpList [OF lc, of "[]"] read_preimage_items [OF ok] preimage_fields_ok [OF ok]
    by (simp add: decode_spec_def encodeUnsignedPreimage_def del: concat.simps)
qed

text \<open>Without data it fits the 2048 bytes the device takes.\<close>

lemma preimage_short:
  assumes ok: "preimage_ok x" and "pdata x = []"
  shows "length (encodeUnsignedPreimage x) \<le> 2048"
proof -
  let ?its = "[rlpBytes (intToBytes (chainId x)), rlpBytes (intToBytes (pnonce x)),
        rlpBytes (intToBytes (tip x)), rlpBytes (intToBytes (feeCap x)),
        rlpBytes (intToBytes (pgas x)), rlpBytes (pto x), rlpBytes (intToBytes (pvalue x)),
        rlpBytes (pdata x), rlpList [], rlpBytes [1, 0, 0], rlpBytes []]"
  have l: "length (concat ?its) \<le> 300"
    using assms(2) preimage_lengths [OF ok] length_rlpBytes [of "intToBytes (chainId x)"] length_rlpBytes [of "intToBytes (pnonce x)"]
      length_rlpBytes [of "intToBytes (tip x)"] length_rlpBytes [of "intToBytes (feeCap x)"]
      length_rlpBytes [of "intToBytes (pgas x)"] length_rlpBytes [of "pto x"] length_rlpBytes [of "intToBytes (pvalue x)"]
    by (simp add: rlpBytes_def [of "[]"] rlpBytes_def [of "[1, 0, 0]"] rlpList_def)
  have "length (concat ?its) < 2 ^ 32" using l by (rule le_less_trans) simp
  then show ?thesis
    using length_field(2) [of "length (concat ?its)"] l
    unfolding encodeUnsignedPreimage_def rlpList_def [of ?its] Let_def by auto
qed

text \<open>
  C11. Round trip: the preimage that the end-to-end client encodes (its field order, canonical RLP)
  is accepted by the device, which decodes exactly the numbers, the recipient and the data the
  client encoded, and the ML-DSA-87 descriptor.
\<close>

theorem decode_encode_roundtrip:
  assumes ok: "preimage_ok x" and wf: "wf_tx tx"
  shows "\<exists>tx'. decode_ledger_tx (Some (encodeUnsignedPreimage x))
      (of_nat (length (encodeUnsignedPreimage x))) (Some tx) = Some (0, Some tx') \<and>
    tx_preimage tx' = x \<and> tx_descriptor tx' = [1, 0, 0]"
proof -
  let ?e = "encodeUnsignedPreimage x"
  note d = preimage_decodes [OF ok]
  have u: "unat (of_nat (length ?e) :: size_t) = length ?e" using d(2) by (intro unat_of_nat_size_t) simp
  have "tx_descriptor (store_fields (preimage_fields x) tx) = [1, 0, 0]"
    using wf by (simp add: store_fields_def tx_field_specs_def preimage_fields_def overlay_def wf_tx_def)
  then show ?thesis
    using decode_ledger_tx_spec [of "of_nat (length ?e)" ?e tx] wf u d tx_preimage_store [OF ok, of tx]
    by auto
qed

definition sample_preimage :: preimage where
  "sample_preimage = \<lparr>chainId = 3151908, pnonce = 1, tip = 1000000000, feeCap = 10000000000,
     pgas = 500000, pto = [], pvalue = 10000000000000000, pdata = []\<rparr>"

lemma sample_preimage_ok: "preimage_ok sample_preimage"
  by (simp add: preimage_ok_def sample_preimage_def size_consts)

theorem decode_encode_roundtrip_witness:
  "preimage_ok sample_preimage \<and> wf_tx zero_tx \<and>
   (\<exists>tx'. decode_ledger_tx (Some (encodeUnsignedPreimage sample_preimage))
      (of_nat (length (encodeUnsignedPreimage sample_preimage))) (Some zero_tx) = Some (0, Some tx') \<and>
    tx_preimage tx' = sample_preimage \<and> tx_descriptor tx' = [1, 0, 0])"
  using decode_encode_roundtrip [OF sample_preimage_ok wf_zero_tx] sample_preimage_ok wf_zero_tx
  by blast


section \<open>The signed envelope\<close>

text \<open>The fields of the preimage, the signature and the public key, as the client broadcasts them.\<close>

definition encodeSignedTx :: "preimage \<Rightarrow> bytes \<Rightarrow> bytes \<Rightarrow> bytes" where
  "encodeSignedTx params signature publicKey =
     0x02 # rlpList
       [rlpBytes (intToBytes (chainId params)), rlpBytes (intToBytes (pnonce params)),
        rlpBytes (intToBytes (tip params)), rlpBytes (intToBytes (feeCap params)),
        rlpBytes (intToBytes (pgas params)), rlpBytes (pto params), rlpBytes (intToBytes (pvalue params)),
        rlpBytes (pdata params), rlpList [], rlpBytes [1, 0, 0], rlpBytes [],
        rlpBytes signature, rlpBytes publicKey]"

text \<open>Its list reads back as the fields of the preimage and the two items added.\<close>

lemma read_signed_items:
  assumes ok: "preimage_ok x" and l: "length sig < 2 ^ 32" "length pk < 2 ^ 32"
  shows "read_items rlp_split 13 (concat
       [rlpBytes (intToBytes (chainId x)), rlpBytes (intToBytes (pnonce x)),
        rlpBytes (intToBytes (tip x)), rlpBytes (intToBytes (feeCap x)),
        rlpBytes (intToBytes (pgas x)), rlpBytes (pto x), rlpBytes (intToBytes (pvalue x)),
        rlpBytes (pdata x), rlpList [], rlpBytes [1, 0, 0], rlpBytes [], rlpBytes sig, rlpBytes pk]) =
     Some (preimage_fields x @ [sig, pk], [])"
proof -
  have two: "read_items rlp_split 2 (concat (map rlpBytes [sig, pk])) = Some ([sig, pk], [])"
    by (rule rlpc.items_enc_eq) (use l in simp_all)
  from rlp.items_add [OF rlp.items_append [OF read_preimage_items [OF ok], of "concat (map rlpBytes [sig, pk])",
      unfolded append_Nil] two]
  show ?thesis by simp
qed

text \<open>A list with more items than the eleven of a transaction is refused.\<close>

lemma decode_spec_extra:
  assumes "read_items rlp_split 11 payload = Some (its, rest)" "rest \<noteq> []" "rlp_list_split body = Some (payload, r)"
  shows "decode_spec (0x02 # body) = None"
  using assms by (cases rest) (simp_all add: decode_spec_def)

text \<open>
  The device does not take a signed envelope for a transaction: for every preimage, signature and
  key the decoder refuses the envelope, so it cannot be signed again.
\<close>

lemma signed_envelope_refused:
  assumes ok: "preimage_ok x" and l: "length sig = 4627" "length pk = 2592" and wf: "wf_tx tx"
  shows "\<exists>tx'. decode_ledger_tx (Some (encodeSignedTx x sig pk)) (of_nat (length (encodeSignedTx x sig pk))) (Some tx) =
    Some (-1, Some tx')"
proof -
  let ?its = "[rlpBytes (intToBytes (chainId x)), rlpBytes (intToBytes (pnonce x)),
        rlpBytes (intToBytes (tip x)), rlpBytes (intToBytes (feeCap x)),
        rlpBytes (intToBytes (pgas x)), rlpBytes (pto x), rlpBytes (intToBytes (pvalue x)),
        rlpBytes (pdata x), rlpList [], rlpBytes [1, 0, 0], rlpBytes []]"
  let ?ys = "concat (map rlpBytes [sig, pk])" and ?s = "[rlpBytes sig, rlpBytes pk]"
  let ?e = "encodeSignedTx x sig pk"
  have lp: "length (concat ?its) < 3000" by (rule preimage_payload_length [OF ok])
  have ly: "length ?ys \<le> 7300" "?ys \<noteq> []" using length_rlpBytes [of sig] length_rlpBytes [of pk] l
    by (auto simp: rlpBytes_def Let_def)
  have cc: "concat (?its @ ?s) = concat ?its @ ?ys" by simp
  have "length (concat (?its @ ?s)) < 10300" using lp ly unfolding cc length_append by linarith
  then have lc: "length (concat (?its @ ?s)) < 2 ^ 32" by (rule less_trans) simp
  have enc: "?e = 0x02 # rlpList (?its @ ?s)" by (simp add: encodeSignedTx_def)
  have le: "length ?e \<le> length (concat (?its @ ?s)) + 6"
    using length_field(2) [of "length (concat (?its @ ?s))"] lc
    unfolding enc rlpList_def [of "?its @ ?s"] Let_def by (auto simp del: concat.simps concat_append)
  have u: "unat (of_nat (length ?e) :: size_t) = length ?e" "length ?e < 2 ^ 31"
    using le \<open>length (concat (?its @ ?s)) < 10300\<close> by (auto intro!: unat_of_nat_size_t)
  have "read_items rlp_split 11 (concat ?its @ ?ys) = Some (preimage_fields x, ?ys)"
    using rlp.items_append [OF read_preimage_items [OF ok], of ?ys] by (simp only: append_Nil)
  then have "decode_spec ?e = None"
    unfolding enc by (rule decode_spec_extra [OF _ ly(2)])
      (use rlp_list_split_rlpList [OF lc, of "[]"] in \<open>simp only: cc append_Nil2\<close>)
  then show ?thesis
    using decode_ledger_tx_spec [of "of_nat (length ?e)" ?e tx] wf u by auto
qed

end
