(* ===== verification/End_To_End.thy ===== *)
theory End_To_End
  imports Device_Tests Rlp_Roundtrip
begin

text \<open>
  The end-to-end flow of the repository: \<open>tests/e2e/mkpreimage.mjs\<close> builds a transfer,
  \<open>tests/test_e2e_device_sign.py\<close> has the device sign it, and \<open>tests/e2e/broadcast.mjs\<close> verifies
  the signature and assembles the signed transaction. The verification of the wallet library is a
  parameter; files and the network are left out.
\<close>


section \<open>The scripts\<close>

text \<open>The parameters of a transfer, from the chain's number and the three arguments.\<close>

definition mkpreimage :: "nat \<Rightarrow> nat \<Rightarrow> bytes \<Rightarrow> nat \<Rightarrow> preimage" where
  "mkpreimage chain_id nonce to value =
     \<lparr>chainId = chain_id, pnonce = nonce, tip = 1000000000, feeCap = 10000000000, pgas = 500000,
      pto = to, pvalue = value, pdata = []\<rparr>"

record e2e_out =
  e2e_address :: bytes
  e2e_public_key :: bytes
  e2e_signature :: bytes

definition PK_LEN :: nat where "PK_LEN = 2592"
definition SIG_LEN :: nat where "SIG_LEN = 4627"

text \<open>
  What the script makes of the data of the answers, in order: the address, eleven chunks of the
  key, \<open>n\<close> answers before the last chunk of the transaction (not looked at), eighteen chunks of the
  signature. \<open>None\<close> is a failed assertion.
\<close>

definition test_e2e_device_sign :: "nat \<Rightarrow> bytes list \<Rightarrow> e2e_out option" where
  "test_e2e_device_sign n responses = (case responses of
       [] \<Rightarrow> None
     | rapdu # rs \<Rightarrow>
         (let pk = take PK_LEN (concat (take 11 rs));
              sig = take SIG_LEN (concat (take 18 (drop (11 + n) rs))) in
          if take 1 rapdu = [0x51] \<and> length rapdu = 65 \<and> length pk = PK_LEN \<and> length sig = SIG_LEN
          then Some \<lparr>e2e_address = drop 1 rapdu, e2e_public_key = pk, e2e_signature = sig\<rparr>
          else None))"

text \<open>\<open>verify\<close> is the wallet library's, on a signature, a hash, a key and a descriptor.\<close>

definition broadcast ::
  "(bytes \<Rightarrow> bytes \<Rightarrow> bytes \<Rightarrow> bytes \<Rightarrow> bool) \<Rightarrow> (bytes \<Rightarrow> bytes) \<Rightarrow> preimage \<Rightarrow> e2e_out \<Rightarrow> bytes option" where
  "broadcast verify keccak params d =
     (let h = keccak (encodeUnsignedPreimage params); sig = e2e_signature d; pk = e2e_public_key d in
      if verify sig h pk [1, 0, 0] then Some (encodeSignedTx params sig pk) else None)"


section \<open>What the network receives\<close>

text \<open>A signed transaction read by the grammar: thirteen items, the last two the signature and the key.\<close>

definition read_signed_tx :: "bytes \<Rightarrow> bytes list option" where
  "read_signed_tx raw = (case raw of
       [] \<Rightarrow> None
     | ty # body \<Rightarrow>
         if ty \<noteq> 0x02 then None
         else (case rlp_list_split body of
             Some (payload, []) \<Rightarrow> (case read_items rlp_split 13 payload of Some (its, []) \<Rightarrow> Some its | _ \<Rightarrow> None)
           | _ \<Rightarrow> None))"

lemma read_encoded_signed_tx:
  assumes ok: "preimage_ok x" and l: "length sig = SIG_LEN" "length pk = PK_LEN"
  shows "read_signed_tx (encodeSignedTx x sig pk) = Some (preimage_fields x @ [sig, pk])"
proof -
  let ?its = "[rlpBytes (intToBytes (chainId x)), rlpBytes (intToBytes (pnonce x)),
        rlpBytes (intToBytes (tip x)), rlpBytes (intToBytes (feeCap x)),
        rlpBytes (intToBytes (pgas x)), rlpBytes (pto x), rlpBytes (intToBytes (pvalue x)),
        rlpBytes (pdata x), rlpList [], rlpBytes [1, 0, 0], rlpBytes [], rlpBytes sig, rlpBytes pk]"
  have b: "length sig < 2 ^ 32" "length pk < 2 ^ 32" using l by (simp_all add: SIG_LEN_def PK_LEN_def)
  have "length (concat ?its) \<le> 3000 + (length sig + 5) + (length pk + 5)"
    using preimage_payload_length [OF ok] length_rlpBytes [OF b(1)] length_rlpBytes [OF b(2)] by simp
  then have "length (concat ?its) \<le> 10300" using l by (simp add: SIG_LEN_def PK_LEN_def)
  then have "length (concat ?its) < 2 ^ 32" by (rule le_less_trans) simp
  from rlp_list_split_rlpList [OF this, of "[]"] read_signed_items [OF ok b] show ?thesis
    by (simp add: read_signed_tx_def encodeSignedTx_def del: concat.simps)
qed

text \<open>A transfer of the scripts is a transaction the device takes and displays.\<close>

lemma transfer_preimage:
  assumes "chain_id < 256 ^ 32" "nonce < 10 ^ 9" "to = [] \<or> length to = 64" "value < 10 ^ 40"
    and x: "x = mkpreimage chain_id nonce to value"
  shows "preimage_ok x" "displayable (store_fields (preimage_fields x) zero_tx)"
    "tx_data_len (store_fields (preimage_fields x) zero_tx) = 0" "pdata x = []"
proof -
  show ok: "preimage_ok x" and d: "pdata x = []"
    using assms by (auto simp: preimage_ok_def mkpreimage_def size_consts)
  have p: "tx_preimage (store_fields (preimage_fields x) zero_tx) = x" by (rule tx_preimage_store [OF ok])
  have r: "nonce_of tx = pnonce (tx_preimage tx)" "value_of tx = pvalue (tx_preimage tx)"
    "fee_cap_of tx = feeCap (tx_preimage tx)" for tx
    by (simp_all add: nonce_of_def value_of_def fee_cap_of_def tx_preimage_def)
  have "pnonce x < 10 ^ 9" "pvalue x < 10 ^ 40" "feeCap x < 10 ^ 40" using assms(2,4) by (simp_all add: x mkpreimage_def)
  then show "displayable (store_fields (preimage_fields x) zero_tx)" unfolding displayable_def r p by blast
  show "tx_data_len (store_fields (preimage_fields x) zero_tx) = 0"
    by (simp add: store_fields_def tx_field_specs_def preimage_fields_def d)
qed

lemma script_reads:
  assumes "length address = 64" "length key = 11" "length (concat key) = PK_LEN" "length sig = 18" "length (concat sig) = SIG_LEN"
  shows "test_e2e_device_sign n ((0x51 # address) # key @ replicate n [] @ sig) =
    Some \<lparr>e2e_address = address, e2e_public_key = concat key, e2e_signature = concat sig\<rparr>"
  using assms by (simp add: test_e2e_device_sign_def Let_def)


section \<open>From the parameters to the signed transaction\<close>

text \<open>
  C7. End to end: for a transfer to a recipient of 64 bytes (or a creation), with a nonce and a value
  the device can display, the commands of the scripts and one approval are a run of the application;
  every command is answered with 9000; the script's assertions hold and it collects the address, the
  key and the signature; the address is the hash of the descriptor and this key; the wallet library
  accepts the signature, and the transaction broadcast reads back, field by field, as the parameters
  followed by the signature and the key.
\<close>

theorem end_to_end:
  assumes ok: "env_ok e st shake" "keccak_ok e keccak" "mldsa_ok e pub sec" "apdu_link e exchange" "io_ok e"
    and wallet: "\<And>sig h pk. mldsa_verify e sig h QRL_CTX pk = CX_OK \<Longrightarrow> verify sig h pk [1, 0, 0]"
    and s: "idle s" "wf_device e (dev s)"
    and path: "path_cmd \<noteq> []" "length path_cmd \<le> 255" "buffer_read_u8 e (chunk_buffer path_cmd) 0 = (True, len, c1)"
      "buffer_read_bip32_path e c1 (replicate (max_bip32_path e) 0) (ucast len) = (True, path, c2)"
      "zond_path (take (unat len) path)"
      "os_derive_bip32_no_throw e path (ucast len) (replicate 64 0) = (CX_OK, seed)"
    and tx: "chain_id < 256 ^ 32" "nonce < 10 ^ 9" "to = [] \<or> length to = 64" "value < 10 ^ 40"
      "x = mkpreimage chain_id nonce to value" "pre = encodeUnsignedPreimage x"
  shows "\<exists>t rs d raw. run (step e) s (key_and_signature exchange path_cmd pre [Choose True rnd]) t \<and>
    sent (dev t) = sent (dev s) @ map (\<lambda>r. (r, SW_OK)) rs \<and>
    test_e2e_device_sign (length (split_message pre 255)) rs = Some d \<and>
    e2e_public_key d = pub seed \<and> e2e_address d = shake ([1, 0, 0] @ e2e_public_key d) \<and>
    broadcast verify keccak x d = Some raw \<and>
    read_signed_tx raw = Some (preimage_fields x @ [e2e_signature d, e2e_public_key d])"
proof -
  note p = transfer_preimage [OF tx(1-5)]
  have v: "pre \<noteq> []" "length pre \<le> 2048" "decode_spec pre = Some (preimage_fields x)"
    using preimage_short [OF p(1,4)] preimage_decodes(1) [OF p(1)] unfolding tx(6)
    by (simp_all add: encodeUnsignedPreimage_def)
  obtain t key sig where t: "run (step e) s (key_and_signature exchange path_cmd pre [Choose True rnd]) t"
    "sent (dev t) = sent (dev s) @ map (\<lambda>r. (r, SW_OK)) ((0x51 # shake ([1, 0, 0] @ pub seed)) # key @
      replicate (length (split_message pre 255)) [] @ sig)"
    and c: "length key = 11" "concat key = pub seed" "length sig = 18" "length (concat sig) = MLDSA87_SIGBYTES"
      "mldsa_verify e (concat sig) (keccak pre) QRL_CTX (pub seed) = CX_OK"
    using client_key_and_signature [OF ok s path v refl p(2,3), of rnd] by blast
  have l: "length (shake m) = 64" "length (pub seed) = PK_LEN" "length (concat sig) = SIG_LEN" for m
    using ok(1) c(4) key_of_length [OF _ mldsa_ok_key [OF ok(3) path(6)]]
    by (simp_all add: env_ok_def xof_ok_def size_consts PK_LEN_def SIG_LEN_def)
  let ?d = "\<lparr>e2e_address = shake ([1, 0, 0] @ pub seed), e2e_public_key = pub seed, e2e_signature = concat sig\<rparr>"
  have "test_e2e_device_sign (length (split_message pre 255)) ((0x51 # shake ([1, 0, 0] @ pub seed)) # key @
      replicate (length (split_message pre 255)) [] @ sig) = Some ?d"
    using script_reads [OF l(1) c(1) _ c(3) l(3)] c(2) l(2) by simp
  moreover have "broadcast verify keccak x ?d = Some (encodeSignedTx x (concat sig) (pub seed))"
    using wallet [OF c(5)] by (simp add: broadcast_def Let_def tx(6))
  ultimately show ?thesis
    using t read_encoded_signed_tx [OF p(1) l(3,2)]
    by (intro exI [of _ t] exI [of _ ?d] exI [of _ "encodeSignedTx x (concat sig) (pub seed)"] exI) auto
qed

theorem end_to_end_witness:
  "\<exists>t rs d raw. run (step sample_env) (session_of start_device)
      (key_and_signature sample_exchange (path_data 0xEE) (encodeUnsignedPreimage (mkpreimage 3151908 1 [] (10 ^ 16))) [Choose True []]) t \<and>
    sent (dev t) = map (\<lambda>r. (r, SW_OK)) rs \<and>
    broadcast (\<lambda>sig h pk desc. True) sample_keccak (mkpreimage 3151908 1 [] (10 ^ 16)) d = Some raw"
proof -
  have d: "wf_device sample_env start_device" "sent start_device = []" "\<not> exited start_device"
    using wf_start_device by (simp_all add: start_device_def)
  note i = session_of_idle [OF d]
  obtain c2 where r2: "buffer_read_bip32_path sample_env ((chunk_buffer (path_data 0xEE))\<lparr>buf_offset := 1\<rparr>)
     (replicate (max_bip32_path sample_env) 0) (ucast (5 :: byte)) = (True, sample_path, c2)"
    using sample_path_read(2) by blast
  have n: "(3151908 :: nat) < 256 ^ 32" "(1 :: nat) < 10 ^ 9" "[] = [] \<or> length [] = 64" "(10 ^ 16 :: nat) < 10 ^ 40"
    by simp_all
  from end_to_end [OF sample_env_ok sample_keccak_ok sample_mldsa_ok sample_link sample_io TrueI i(1,2) sample_path_cmd
      sample_path_read(1) r2 sample_path_read(3,4) n refl refl, of "[]"]
  show ?thesis unfolding i(3) append_Nil by blast
qed

end
