(* ===== verification/Spec2Isabelle.thy ===== *)
theory Spec2Isabelle
  imports Unit_Tests Debug_Print Creation Recovery End_To_End
begin

text \<open>
  A model of the QRL v2.0 application for Ledger devices (\<open>src/\<close>) and the theorems that make it
  correct. The application receives commands (APDUs), derives an ML-DSA-87 key, shows an address or
  a transaction for review, and signs the Keccak hash of the transaction when the user approves.

  \<^bold>\<open>The program and the theories.\<close>
  \<^item> \<open>Prelude\<close>: bytes, reads and writes of arrays that fail out of bounds (\<open>read_at\<close>,
    \<open>read_block\<close>, \<open>write_block\<close>), big-endian numbers, 32-bit arithmetic.
  \<^item> \<open>Ledger_Types\<close>: \<open>types.h\<close>, \<open>constants.h\<close>, \<open>sw.h\<close>, \<open>globals.h\<close>: one record per
    struct, the status words, and the declared array lengths as \<open>wf_\<close> predicates.
  \<^item> \<open>Rlp_Decode\<close>: \<open>rlp_decode.c\<close>. \<open>Rlp_Spec\<close>, \<open>Rlp_Correct\<close>: the list-level specification
    \<open>decode_spec\<close> of the format and the proof that the decoder, with its offsets and 32-bit
    lengths, implements it and never leaves the input. \<open>Rlp_Roundtrip\<close>: the encoder of
    \<open>tests/e2e/qrltx.mjs\<close> and the round trip. \<open>Unit_Tests\<close>: the repository's tests and fuzz target.
  \<^item> \<open>Device\<close>: the state everything below works on (context, storage, page on display, responses
    sent) and the record \<open>env\<close> of what lives outside the repository. \<open>Sample\<close>: a concrete \<open>env\<close>.
  \<^item> \<open>Format\<close>, \<open>Amount\<close>, \<open>Address\<close>: hexadecimal and decimal text, amounts in units of
    \<open>10 ^ 18\<close>, paths, addresses and their checksummed text (\<open>ui_utils.c\<close>, \<open>address.c\<close>, the
    first half of \<open>nbgl_display_transaction.c\<close>).
  \<^item> \<open>Send_Response\<close>, \<open>Validate\<close>: \<open>send_response.c\<close> and \<open>validate.c\<close>, the chunked transfers
    and what an approval does. \<open>Menu\<close>: \<open>menu_nbgl.c\<close>, \<open>common_ui.c\<close>.
  \<^item> \<open>Tx_Review\<close>, \<open>Param_Review\<close>: \<open>nbgl_display_transaction.c\<close>, \<open>nbgl_display_address.c\<close>,
    \<open>ui_confirm_parameter_selector.c\<close>: the pages, their texts and their callbacks.
  \<^item> \<open>Abi_Calldata\<close>, \<open>Sign_Tx\<close>: \<open>sign_tx.c\<close>; \<open>Sign_Tx_Correct\<close>: its phases, on every branch.
    \<open>Dispatcher\<close>, \<open>Public_Key\<close>: the other handlers, \<open>dispatcher.c\<close>, a round of \<open>app_main.c\<close>.
  \<^item> \<open>Session\<close>: the application as a transition system whose steps are the commands of the host
    and the events of the user, its invariant, and the proof that every operation keeps it.
    \<open>Signing\<close>: the operations of a complete signature. \<open>Runs\<close>: runs of a transition system and the
    contracts of one with an invariant. \<open>Session_Correct\<close>: the properties of all sessions.
    \<open>Settings\<close>: the four settings over a session. \<open>Recovery\<close>: signing after unfinished requests.
  \<^item> \<open>Client\<close>, \<open>Client_Key\<close>, \<open>Device_Tests\<close>: the client of the Python tests (signature; address and
    public key) composed with the application, and the repository's tests against a device
    (\<open>tests/\<close>). \<open>Creation\<close>: the review of a contract creation, from the client's commands
    through the decoder to the page. \<open>End_To_End\<close>: the end-to-end scripts \<open>mkpreimage.mjs\<close>,
    \<open>test_e2e_device_sign.py\<close> and \<open>broadcast.mjs\<close> composed with client and application.
  \<^item> \<open>Call_Pages\<close>, \<open>Call_Session\<close>: which selector and parameter pages have been confirmed when a
    page of a contract call or its transaction review is open; every command and choice keeps this.
  \<^item> \<open>Debug_Print\<close>: \<open>print_tx_utils\<close>, the listing of a decoded transaction.

  \<^bold>\<open>How C is modelled.\<close> An operation is a function from the device to the device, with the C
  function's result; \<open>None\<close> stands for an access outside an array, and for nothing else. Integers
  keep their width. An early return is a branch. The state an operation overwrites through a pointer
  is returned. Loops are recursive functions: the RLP length loop and the copy loops over the number
  of rounds, the decimal loop over a termination argument (the value shrinks by a factor of ten each
  time), so no fuel is needed.

  \<^bold>\<open>What the theorems show.\<close>
  \<^item> Sessions: what can be fetched as a signature was reviewed and confirmed by the user, byte for
    byte; it takes an approval on the page of the transaction; a contract call that is reviewed page
    by page is approved only after its selector and its first sixteen parameters, in order, have been
    confirmed; every session is a run of a five-phase protocol machine; every command
    is answered once; data is reviewed only with blind signing on; the settings change by their
    switches only, never by a command; arrays keep their lengths (part of the invariant); and the
    only out-of-bounds access of a command is the last chunk of a transaction, decoded from the bytes
    received and the data of this command, whose nonce or amounts do not fit the text buffers.
  \<^item> Liveness: the prescribed sequence of commands and confirmations, with working cryptography,
    produces a signature that verifies, for every displayable transaction: without data, with data in
    the blind-signing form, and as a contract call reviewed page by page. The commands of the test
    client are such a sequence, and they work from every state of a session that has not ended, an
    open review being refused first (for an accepted path, and for data when blind signing is on). End to end: the scripts' assertions hold, and the transaction
    they broadcast reads back as the parameters with a signature and a key that verify and an address
    that belongs to the key.
  \<^item> Components: chunks are collected up to exactly 2048 bytes; the decoder implements its specification and inverts the encoder; which review a
    transaction gets and what it shows; what an approval releases; the error table of the dispatcher and
    the guards of SIGN_TX; the chunked transfers; exact bounds of the number formatting; round trips
    of hexadecimal text and addresses.
  \<^item> Behaviours to know about, stated as theorems because the code has them: the text buffers overflow
    for large nonces and amounts; a refused path does not end a request; slots after the sixteenth,
    the gas limit and the chain id are not shown; a parameter's text determines it only up to the
    split of two of its parts; a creation without data is shown as a payment to the zero address; trailing
    bytes are accepted; long lengths are read modulo \<open>2 ^ 32\<close>.

  \<^bold>\<open>Interfaces.\<close> \<open>item_reader\<close> and \<open>item_codec\<close> (a reader of items off a byte list, and
  with its writer; RLP), \<open>byte_text\<close> (text of bytes that can be read back; lower and upper case
  hexadecimal), \<open>chunked\<close> (a transfer in chunks; signature and public key), \<open>invariant_system\<close>
  and \<open>simulated_system\<close> (a transition system with an invariant, and with an abstract machine it
  follows; the application with the protocol of its phases and with the settings, and the
  application with the history of the confirmed pages). Each is
  interpreted on the model in the theory of its provider.

  \<^bold>\<open>Assumptions.\<close> \<open>env_lengths\<close>: the SDK's functions keep the length of the buffers they fill.
  \<open>xof_ok\<close>: the incremental SHA-3 interface computes one function of the bytes absorbed.
  \<open>buffers_ok\<close>: the readers of \<open>buffer.h\<close> read what is left of the command. \<open>format_hex_ok\<close>,
  \<open>keccak_ok\<close>, \<open>mldsa_ok\<close>: the documented results of \<open>format_hex\<close>, Keccak and ML-DSA.
  \<open>parser_ok\<close>: the SDK's parser gives a command data of the length of its length byte.
  \<open>apdu_link\<close>, \<open>io_ok\<close>: it reads what the host packs, and sending succeeds. All of
  them hold of the sample environment. The end-to-end theorem also assumes that the wallet library accepts what
  ML-DSA verification under the documented signing context accepts. A session receives the next command only after the previous one has been
  answered, and a page on display calls its callback once: the callbacks do not test the state of the
  context themselves (\<open>validate_transaction\<close> approves whatever request is there). Text is taken when a page is shown.

  \<^bold>\<open>Not modelled.\<close> the single \<open>PRINTF\<close> calls (debug output, no effect on the state; the
  listing \<open>print_tx_utils\<close>, which nothing calls, is modelled); the drawing of pages, icons and
  layout (NBGL); cryptography, derivation, transport and APDU parsing (the SDK and the ML-DSA library,
  parameters of the model); of the tests and scripts, the emulator navigation, files and the
  network, the funding script, the commands to the operating system, and the check that a tampered
  message does not verify (a property of ML-DSA). Every C function of the repository has its
  definition; what the map leaves out of the C files is declarations, comments, includes and unused
  constants.
\<close>

end
